(* ===== verification/Prelude.thy ===== *)
theory Prelude
  imports Main "HOL-Library.Word" "HOL-Library.AList"
begin

text \<open>
  Shared vocabulary of the development: JavaScript strings as character lists with the
  methods the server calls on them (\<open>startsWith\<close>, \<open>indexOf\<close>, \<open>split\<close>, \<open>join\<close>, \<open>js_slice\<close>),
  bytes and Node buffers, errors as values, and the generic lemmas on them. Paths, host
  names and header values reach the program as ASCII or latin-1 text, so one
  \<^typ>\<open>char\<close> is one JavaScript code unit.
\<close>

named_theorems js_str \<open>laws of the string methods\<close>
named_theorems js_arith \<open>laws of number parsing and printing\<close>

text \<open>Maps given by association lists are read through \<^const>\<open>map_of\<close> only.\<close>

declare map_of_eq_Some_iff [simp del] Some_eq_map_of_iff [simp del]

section \<open>Errors\<close>

text \<open>
  \<open>StatusError\<close> of \<^verbatim>\<open>@httptoolkit/util\<close> carries a status code and a message; a plain
  \<open>Error\<close> carries a message; \<open>UriError\<close> is what \<open>decodeURIComponent\<close> throws.
\<close>

datatype js_exn =
    StatusError int string
  | JsError string
  | UriError

type_synonym 'a fallible = "js_exn + 'a"

section \<open>Strings\<close>

definition starts_with :: "'a list \<Rightarrow> 'a list \<Rightarrow> bool" where
  "starts_with s p \<longleftrightarrow> take (length p) s = p"

definition ends_with :: "'a list \<Rightarrow> 'a list \<Rightarrow> bool" where
  "ends_with s p \<longleftrightarrow> length p \<le> length s \<and> drop (length s - length p) s = p"

text \<open>\<open>s.indexOf(sub)\<close> and \<open>s.indexOf(sub, from)\<close>; \<open>None\<close> is the result -1.\<close>

fun find_sub :: "'a list \<Rightarrow> 'a list \<Rightarrow> nat option" where
  "find_sub sub [] = (if sub = [] then Some 0 else None)"
| "find_sub sub (c # cs) =
     (if starts_with (c # cs) sub then Some 0 else map_option Suc (find_sub sub cs))"

definition index_from :: "'a list \<Rightarrow> nat \<Rightarrow> 'a list \<Rightarrow> nat option" where
  "index_from sub k s = map_option (\<lambda>i. i + k) (find_sub sub (drop k s))"

definition includes_sub :: "'a list \<Rightarrow> 'a list \<Rightarrow> bool" where
  "includes_sub s sub \<longleftrightarrow> find_sub sub s \<noteq> None"

text \<open>\<open>s.slice(i, j)\<close> for \<open>0 \<le> i\<close> and \<open>0 \<le> j\<close>.\<close>

definition js_slice :: "nat \<Rightarrow> nat \<Rightarrow> 'a list \<Rightarrow> 'a list" where
  "js_slice i j s = take (j - i) (drop i s)"

text \<open>\<open>s.slice(0, -n)\<close>: everything but the last \<open>n\<close> characters.\<close>

definition slice_off_end :: "nat \<Rightarrow> 'a list \<Rightarrow> 'a list" where
  "slice_off_end n s = take (length s - n) s"

lemma find_sub_Some:
  "find_sub sub s = Some i \<Longrightarrow> i + length sub \<le> length s \<and> take (length sub) (drop i s) = sub"
proof (induction s arbitrary: i)
  case Nil
  then show ?case by (simp split: if_splits)
next
  case (Cons c cs)
  show ?case
  proof (cases "starts_with (c # cs) sub")
    case True
    have "length sub \<le> length (c # cs)"
      using True by (metis length_take min.cobounded1 starts_with_def)
    with True Cons.prems show ?thesis by (auto simp: starts_with_def)
  next
    case False
    with Cons.prems obtain j where "find_sub sub cs = Some j" "i = Suc j" by auto
    with Cons.IH show ?thesis by simp
  qed
qed

text \<open>\<open>s.split(sep)\<close> for a non-empty separator.\<close>

function split_seq :: "'a list \<Rightarrow> 'a list \<Rightarrow> 'a list list" where
  "split_seq sep s =
     (case find_sub sep s of
        None \<Rightarrow> [s]
      | Some i \<Rightarrow>
          if sep = [] then [s]
          else take i s # split_seq sep (drop (i + length sep) s))"
  by pat_completeness auto
termination
proof (relation "measure (\<lambda>(sep, s). length s)", goal_cases)
  case 1
  then show ?case by simp
next
  case (2 sep s i)
  then have "i + length sep \<le> length s" using find_sub_Some by blast
  moreover obtain c cs where "sep = c # cs" using 2 by (cases sep) auto
  ultimately show ?case by auto
qed

declare split_seq.simps [simp del]

text \<open>\<open>parts.join(sep)\<close>.\<close>

fun join :: "'a list \<Rightarrow> 'a list list \<Rightarrow> 'a list" where
  "join sep [] = []"
| "join sep [x] = x"
| "join sep (x # y # ys) = x @ sep @ join sep (y # ys)"

lemma starts_with_iff: "starts_with s p \<longleftrightarrow> (\<exists>r. s = p @ r)"
  unfolding starts_with_def by (metis append_eq_conv_conj append_take_drop_id)

lemma starts_with_append [simp, js_str]: "starts_with (p @ r) p"
  by (simp add: starts_with_def)

lemma starts_with_Nil [simp]: "starts_with s []"
  by (simp add: starts_with_def)

lemma starts_with_refl [simp]: "starts_with s s"
  by (simp add: starts_with_def)

lemma starts_with_Cons [simp]:
  "starts_with s (c # p) \<longleftrightarrow> (case s of [] \<Rightarrow> False | d # r \<Rightarrow> d = c \<and> starts_with r p)"
  by (auto simp: starts_with_def split: list.splits)

lemma starts_with_extend:
  "starts_with s p \<Longrightarrow> starts_with (s @ extra) p"
  by (auto simp: starts_with_iff)

lemma starts_with_trans: "starts_with s p \<Longrightarrow> starts_with p q \<Longrightarrow> starts_with s q"
  by (auto simp: starts_with_iff)

lemma starts_with_both:
  "starts_with s p \<Longrightarrow> starts_with s q \<Longrightarrow> length p \<le> length q \<Longrightarrow> starts_with q p"
  unfolding starts_with_def by (metis min.absorb2 min.commute take_take)

lemma ends_with_iff: "ends_with s p \<longleftrightarrow> (\<exists>r. s = r @ p)"
proof
  assume "ends_with s p"
  then have "s = take (length s - length p) s @ p"
    by (metis append_take_drop_id ends_with_def)
  then show "\<exists>r. s = r @ p" ..
qed (auto simp: ends_with_def)

lemma ends_with_append [simp, js_str]: "ends_with (r @ p) p"
  by (auto simp: ends_with_iff)

lemma slice_off_end_append [simp, js_str]:
  "n = length p \<Longrightarrow> slice_off_end n (r @ p) = r"
  by (simp add: slice_off_end_def)

text \<open>Splitting at a one-character separator, and joining again.\<close>

lemma find_sub_single_None: "find_sub [c] s = None \<longleftrightarrow> c \<notin> set s"
  by (induction s) auto

lemma find_sub_single_Some: "c \<notin> set x \<Longrightarrow> find_sub [c] (x @ c # r) = Some (length x)"
  by (induction x) auto

lemma find_sub_single_first:
  "find_sub [c] s = Some i \<Longrightarrow> c \<notin> set (take i s) \<and> i < length s \<and> s ! i = c"
proof (induction s arbitrary: i)
  case (Cons d s)
  then show ?case by (cases "d = c") auto
qed simp

lemma split_char_single [js_str]: "c \<notin> set x \<Longrightarrow> split_seq [c] x = [x]"
  by (simp add: split_seq.simps [of _ x] iffD2 [OF find_sub_single_None])

lemma split_char_step [js_str]:
  "c \<notin> set x \<Longrightarrow> split_seq [c] (x @ c # r) = x # split_seq [c] r"
  by (simp add: split_seq.simps [of _ "x @ c # r"] find_sub_single_Some)

lemma split_seq_not_Nil [simp]: "split_seq sep s \<noteq> []"
  by (simp add: split_seq.simps [of sep s] split: option.splits)

lemma join_Cons: "xs \<noteq> [] \<Longrightarrow> join sep (x # xs) = x @ sep @ join sep xs"
  by (cases xs) auto

lemma split_char_join [js_str]:
  "xs \<noteq> [] \<Longrightarrow> (\<And>x. x \<in> set xs \<Longrightarrow> c \<notin> set x) \<Longrightarrow> split_seq [c] (join [c] xs) = xs"
proof (induction xs)
  case (Cons x xs)
  then show ?case
    by (cases "xs = []") (auto simp: split_char_single split_char_step join_Cons)
qed simp

lemma join_split_seq [js_str]: "sep \<noteq> [] \<Longrightarrow> join sep (split_seq sep s) = s"
proof (induction sep s rule: split_seq.induct)
  case (1 sep s)
  show ?case
  proof (cases "find_sub sep s")
    case None
    then show ?thesis by (simp add: split_seq.simps [of sep s])
  next
    case (Some i)
    note f = find_sub_Some [OF Some]
    have "join sep (split_seq sep s) = take i s @ sep @ drop (i + length sep) s"
      using 1 Some by (simp add: split_seq.simps [of sep s] join_Cons)
    also have "\<dots> = take i s @ take (length sep) (drop i s) @ drop (length sep) (drop i s)"
      using f by (simp add: add.commute)
    also have "\<dots> = s" by (simp only: append_take_drop_id)
    finally show ?thesis .
  qed
qed

lemma split_char_parts: "x \<in> set (split_seq [c] s) \<Longrightarrow> c \<notin> set x"
proof (induction "[c]" s rule: split_seq.induct)
  case (1 s)
  show ?case
  proof (cases "find_sub [c] s")
    case None
    then show ?thesis
      using 1 iffD1 [OF find_sub_single_None None] by (auto simp: split_seq.simps [of _ s])
  next
    case (Some i)
    then show ?thesis
      using 1 find_sub_single_first [OF Some] by (auto simp: split_seq.simps [of _ s])
  qed
qed

section \<open>Letter case\<close>

text \<open>
  \<open>toLowerCase\<close> on latin-1 text (header values and host names) and \<open>toUpperCase\<close> on
  ASCII text (URL paths are percent-encoded).
\<close>

definition lower_char :: "char \<Rightarrow> char" where
  "lower_char c =
     (let n = (of_char c :: nat) in
      if 65 \<le> n \<and> n \<le> 90 \<or> 192 \<le> n \<and> n \<le> 222 \<and> n \<noteq> 215 then char_of (n + 32) else c)"

definition to_lower :: "string \<Rightarrow> string" where
  "to_lower = map lower_char"

definition upper_char :: "char \<Rightarrow> char" where
  "upper_char c =
     (let n = (of_char c :: nat) in if 97 \<le> n \<and> n \<le> 122 then char_of (n - 32) else c)"

definition to_upper :: "string \<Rightarrow> string" where
  "to_upper = map upper_char"

lemma lower_char_idem [simp]: "lower_char (lower_char c) = lower_char c"
proof -
  have "(of_char (char_of (of_char c + 32 :: nat)) :: nat) = of_char c + 32"
    if "of_char c \<le> (222::nat)" using that by simp
  then show ?thesis by (simp add: lower_char_def Let_def)
qed

lemma to_lower_idem [simp, js_str]: "to_lower (to_lower s) = to_lower s"
  by (simp add: to_lower_def)

section \<open>Bytes and buffers\<close>

type_synonym byte = "8 word"
type_synonym bytes = "byte list"

definition byte_of :: "char \<Rightarrow> byte" where
  "byte_of c = word_of_nat (of_char c)"

text \<open>\<open>Buffer.from(s)\<close> of ASCII text, and \<open>buf.toString('ascii')\<close>, which clears the top bit.\<close>

definition buffer_of :: "string \<Rightarrow> bytes" where
  "buffer_of = map byte_of"

definition ascii_char :: "byte \<Rightarrow> char" where
  "ascii_char b = char_of (unat b mod 128)"

definition ascii_string :: "bytes \<Rightarrow> string" where
  "ascii_string = map ascii_char"

definition ascii :: "string \<Rightarrow> bool" where
  "ascii s \<longleftrightarrow> (\<forall>c \<in> set s. of_char c < (128::nat))"

lemma unat_byte_of [simp]: "unat (byte_of c) = of_char c"
  by (simp add: byte_of_def unat_of_nat of_char_mod_256)

lemma ascii_char_byte_of: "of_char c < (128::nat) \<Longrightarrow> ascii_char (byte_of c) = c"
  by (simp add: ascii_char_def)

lemma ascii_string_buffer_of [js_str]: "ascii s \<Longrightarrow> ascii_string (buffer_of s) = s"
  by (induction s) (auto simp: ascii_string_def buffer_of_def ascii_def ascii_char_byte_of)

lemma ascii_append [simp]: "ascii (s @ t) \<longleftrightarrow> ascii s \<and> ascii t"
  by (auto simp: ascii_def)

lemma ascii_Cons [simp]: "ascii (c # t) \<longleftrightarrow> of_char c < (128::nat) \<and> ascii t"
  by (auto simp: ascii_def)

lemma ascii_Nil [simp]: "ascii []"
  by (simp add: ascii_def)

lemma buffer_of_append [simp]: "buffer_of (s @ t) = buffer_of s @ buffer_of t"
  by (simp add: buffer_of_def)

lemma length_buffer_of [simp]: "length (buffer_of s) = length s"
  by (simp add: buffer_of_def)

lemma inj_byte_of: "byte_of c = byte_of d \<longleftrightarrow> c = d"
  by (metis of_char_eq_iff unat_byte_of)

text \<open>
  JavaScript shifts bytes at 32 bits: \<open>(a << 8) | b\<close> and \<open>(a << 16) | (b << 8) | c\<close>.
\<close>

definition be16 :: "byte \<Rightarrow> byte \<Rightarrow> 32 word" where
  "be16 a b = or (push_bit 8 (ucast a)) (ucast b)"

definition be24 :: "byte \<Rightarrow> byte \<Rightarrow> byte \<Rightarrow> 32 word" where
  "be24 a b c = or (or (push_bit 16 (ucast a)) (push_bit 8 (ucast b))) (ucast c)"

text \<open>The 31-bit stream identifier of an HTTP/2 frame header: the top bit is masked off.\<close>

definition be31 :: "byte \<Rightarrow> byte \<Rightarrow> byte \<Rightarrow> byte \<Rightarrow> 32 word" where
  "be31 a b c d =
     or (or (or (push_bit 24 (ucast (and a 127))) (push_bit 16 (ucast b))) (push_bit 8 (ucast c))) (ucast d)"

lemma or_nat_add: "b < 2 ^ k \<Longrightarrow> or (push_bit k a) b = push_bit k a + (b::nat)"
proof -
  assume "b < 2 ^ k"
  then have b: "take_bit k b = b" by (rule take_bit_nat_eq_self)
  have "and (push_bit k a) b = 0"
    by (subst b [symmetric], rule bit_eqI) (auto simp: bit_simps)
  then show ?thesis using disjunctive_add_eq_or by metis
qed

lemma unat8: "unat (a::8 word) < 256" using unsigned_less [of a, where ?'a = nat] by simp

lemma unat_ucast32: "unat (ucast (a::8 word) :: 32 word) = unat a"
  using unat8 [of a] by (simp add: unsigned_ucast_eq take_bit_nat_eq_self)

lemma unat_shift: "unat (push_bit k (ucast (a::8 word)) :: 32 word) = push_bit k (unat a)" if "k \<le> 24"
proof -
  have "unat a * 2 ^ k < 256 * 2 ^ k" using unat8 [of a] by simp
  also have "\<dots> \<le> 256 * 2 ^ 24" using that by (simp add: power_increasing del: power_numeral)
  finally have "push_bit k (unat a) < 2 ^ 32" by (simp add: push_bit_eq_mult)
  then show ?thesis
    by (simp only: unsigned_push_bit_eq unat_ucast32 len_num0 len_bit0 take_bit_nat_eq_self) (simp add: take_bit_nat_eq_self)
qed

lemma unat_be16 [js_arith]: "unat (be16 a b) = 256 * unat a + unat b"
proof -
  have "unat (be16 a b) = or (push_bit 8 (unat a)) (unat b)"
    by (simp only: be16_def unsigned_or_eq unat_shift [of 8] unat_ucast32)
  also have "\<dots> = push_bit 8 (unat a) + unat b"
    by (rule or_nat_add) (use unat8 [of b] in simp)
  finally show ?thesis by (simp add: push_bit_eq_mult)
qed

lemma unat_be24 [js_arith]: "unat (be24 a b c) = 65536 * unat a + 256 * unat b + unat c"
proof -
  have "unat (be24 a b c) = or (or (push_bit 16 (unat a)) (push_bit 8 (unat b))) (unat c)"
    by (simp only: be24_def unsigned_or_eq unat_shift [of 8] unat_shift [of 16] unat_ucast32)
  also have "or (push_bit 16 (unat a)) (push_bit 8 (unat b)) = push_bit 8 (push_bit 8 (unat a) + unat b)"
  proof -
    have "or (push_bit 16 (unat a)) (push_bit 8 (unat b)) = push_bit 8 (or (push_bit 8 (unat a)) (unat b))"
      by (simp only: push_bit_or push_bit_push_bit) simp
    then show ?thesis using or_nat_add [of "unat b" 8 "unat a"] unat8 [of b] by simp
  qed
  also have "or (push_bit 8 (push_bit 8 (unat a) + unat b)) (unat c) = push_bit 8 (push_bit 8 (unat a) + unat b) + unat c"
    by (rule or_nat_add) (use unat8 [of c] in simp)
  finally show ?thesis by (simp add: push_bit_eq_mult)
qed

lemma be16_less [simp]: "unat (be16 a b) < 65536"
proof -
  have "256 * unat a + unat b < 65536" using unat8 [of a] unat8 [of b] by linarith
  then show ?thesis by (simp add: unat_be16)
qed

lemma be24_less [simp]: "unat (be24 a b c) < 16777216"
proof -
  have "65536 * unat a + 256 * unat b + unat c < 16777216"
    using unat8 [of a] unat8 [of b] unat8 [of c] by linarith
  then show ?thesis by (simp add: unat_be24)
qed

text \<open>The two big-endian bytes of a 16-bit value.\<close>

definition hi_byte :: "16 word \<Rightarrow> byte" where
  "hi_byte w = ucast (drop_bit 8 w)"

definition lo_byte :: "16 word \<Rightarrow> byte" where
  "lo_byte w = ucast w"

lemma unat_hi_byte: "unat (hi_byte w) = unat w div 256"
proof -
  have w: "unat w < 65536" using unsigned_less [of w, where ?'a = nat] by simp
  then have "unat w div 256 < 256" by (simp add: less_mult_imp_div_less)
  moreover have "unat (hi_byte w) = take_bit 8 (drop_bit 8 (unat w))"
    by (simp only: hi_byte_def unsigned_ucast_eq unsigned_drop_bit_eq len_num0 len_bit0)
      (use w in \<open>simp add: take_bit_nat_eq_self\<close>)
  ultimately show ?thesis by (simp add: drop_bit_eq_div take_bit_nat_eq_self)
qed

lemma unat_lo_byte: "unat (lo_byte w) = unat w mod 256"
  by (simp add: lo_byte_def unsigned_ucast_eq take_bit_eq_mod)

lemma unat_be16_bytes [js_arith]: "unat (be16 (hi_byte w) (lo_byte w)) = unat w"
  by (simp add: unat_be16 unat_hi_byte unat_lo_byte)

end
