(* ===== verification/Js_Number.thy ===== *)
theory Js_Number
  imports Prelude
begin

text \<open>
  Number parsing and printing as the server uses it: \<open>String(n)\<close> and \<open>n.toString(16)\<close> of
  non-negative integers and \<open>parseInt(s, 10)\<close>. A parsed number is an \<^typ>\<open>int option\<close>,
  \<open>None\<close> being \<open>NaN\<close>. Values are exact; JavaScript rounds integers above \<open>2^53\<close> to doubles,
  which no bound the code checks comes near.
\<close>

section \<open>Printing\<close>

definition digit_char :: "nat \<Rightarrow> char" where
  "digit_char d = (if d < 10 then char_of (48 + d) else char_of (87 + d))"

fun radix_str :: "nat \<Rightarrow> nat \<Rightarrow> string" where
  "radix_str b n =
     (if b < 2 \<or> n < b then [digit_char n] else radix_str b (n div b) @ [digit_char (n mod b)])"

declare radix_str.simps [simp del]

definition nat_str :: "nat \<Rightarrow> string" where
  "nat_str n = radix_str 10 n"

definition hex_str :: "nat \<Rightarrow> string" where
  "hex_str n = radix_str 16 n"

definition int_str :: "int \<Rightarrow> string" where
  "int_str i = (if i < 0 then ''-'' @ nat_str (nat (- i)) else nat_str (nat i))"

section \<open>Parsing\<close>

definition is_digit :: "char \<Rightarrow> bool" where
  "is_digit c \<longleftrightarrow> 48 \<le> (of_char c :: nat) \<and> (of_char c :: nat) \<le> 57"

definition digit_val :: "char \<Rightarrow> nat" where
  "digit_val c = of_char c - 48"

definition digits_val :: "string \<Rightarrow> nat" where
  "digits_val = foldl (\<lambda>a c. 10 * a + digit_val c) 0"

text \<open>White space that \<open>parseInt\<close> and \<open>trim\<close> skip (tab, line feed, vertical tab, form feed, carriage
  return, space and no-break space).\<close>

definition is_js_space :: "char \<Rightarrow> bool" where
  "is_js_space c \<longleftrightarrow> of_char c \<in> {9::nat, 10, 11, 12, 13, 32, 160}"

definition trim_start :: "string \<Rightarrow> string" where
  "trim_start = dropWhile is_js_space"

definition trim :: "string \<Rightarrow> string" where
  "trim s = rev (dropWhile is_js_space (rev (trim_start s)))"

definition parse_nat_prefix :: "string \<Rightarrow> nat option" where
  "parse_nat_prefix s =
     (let ds = takeWhile is_digit s in if ds = [] then None else Some (digits_val ds))"

definition parse_int :: "string \<Rightarrow> int option" where
  "parse_int s =
     (case trim_start s of
        [] \<Rightarrow> None
      | c # r \<Rightarrow>
          if c = CHR ''-'' then map_option (\<lambda>n. - int n) (parse_nat_prefix r)
          else if c = CHR ''+'' then map_option int (parse_nat_prefix r)
          else map_option int (parse_nat_prefix (c # r)))"

section \<open>Laws\<close>

text \<open>\<open>buffer.toString('hex')\<close>.\<close>

definition hex_of_bytes :: "bytes \<Rightarrow> string" where
  "hex_of_bytes bs = concat (map (\<lambda>b. [digit_char (unat b div 16), digit_char (unat b mod 16)]) bs)"

lemma of_char_digit_char:
  "d < 16 \<Longrightarrow> of_char (digit_char d) = (if d < 10 then 48 + d else 87 + d :: nat)"
  by (simp add: digit_char_def)

lemma is_digit_digit_char [simp]: "d < 10 \<Longrightarrow> is_digit (digit_char d)"
  by (simp add: is_digit_def of_char_digit_char)

lemma digit_val_digit_char [simp]: "d < 10 \<Longrightarrow> digit_val (digit_char d) = d"
  by (simp add: digit_val_def of_char_digit_char)

lemma digit_char_digit_val [simp]: "is_digit c \<Longrightarrow> digit_char (digit_val c) = c"
  by (auto simp: is_digit_def digit_val_def digit_char_def)

lemma radix_str_not_Nil [simp]: "radix_str b n \<noteq> []"
  by (simp add: radix_str.simps [of b n])

lemma nat_str_not_Nil [simp]: "nat_str n \<noteq> []"
  by (simp add: nat_str_def)

lemma nat_str_digits: "c \<in> set (nat_str n) \<Longrightarrow> is_digit c"
  unfolding nat_str_def
proof (induction "10::nat" n arbitrary: c rule: radix_str.induct)
  case (1 n)
  then show ?case
    by (cases "n < 10") (auto simp: radix_str.simps [of 10 n])
qed

lemma digit_val_less [simp]: "is_digit c \<Longrightarrow> digit_val c < 10"
  by (auto simp: is_digit_def digit_val_def)

lemma digit_char_zero [simp]: "digit_char 0 = CHR ''0''"
  by code_simp

lemma digits_val_append: "digits_val (xs @ [c]) = 10 * digits_val xs + digit_val c"
  by (simp add: digits_val_def)

lemma digits_val_nat_str [simp, js_arith]: "digits_val (nat_str n) = n"
  unfolding nat_str_def
proof (induction "10::nat" n rule: radix_str.induct)
  case (1 n)
  then show ?case
    by (cases "n < 10") (simp_all add: radix_str.simps [of 10 n] digits_val_append, simp add: digits_val_def)
qed

lemma takeWhile_digits_nat_str:
  "(case r of [] \<Rightarrow> True | c # _ \<Rightarrow> \<not> is_digit c) \<Longrightarrow> takeWhile is_digit (nat_str n @ r) = nat_str n"
proof -
  assume "case r of [] \<Rightarrow> True | c # _ \<Rightarrow> \<not> is_digit c"
  then have "takeWhile is_digit r = []" by (cases r) auto
  then show ?thesis using nat_str_digits by (simp add: takeWhile_append)
qed

lemma nat_str_hd: "is_digit (hd (nat_str n))"
  by (meson hd_in_set nat_str_digits nat_str_not_Nil)

lemma is_digit_not_space: "is_digit c \<Longrightarrow> \<not> is_js_space c"
  by (auto simp: is_digit_def is_js_space_def)

lemma parse_int_digit_start:
  assumes "is_digit c"
  shows "parse_int (c # r) = map_option int (parse_nat_prefix (c # r))"
proof -
  have "c \<noteq> CHR ''-''" "c \<noteq> CHR ''+''" "\<not> is_js_space c"
    using assms by (auto simp: is_digit_def is_js_space_def)
  then show ?thesis by (simp add: parse_int_def trim_start_def)
qed

text \<open>\<open>parseInt(String(n) + r, 10)\<close> reads \<open>n\<close> back when \<open>r\<close> does not start with a digit.\<close>

lemma parse_int_nat_str_append:
  assumes "case r of [] \<Rightarrow> True | c # _ \<Rightarrow> \<not> is_digit c"
  shows "parse_int (nat_str n @ r) = Some (int n)"
proof -
  obtain c s where s: "nat_str n = c # s" by (cases "nat_str n") auto
  then have c: "is_digit c" using nat_str_hd [of n] by simp
  have "parse_int (nat_str n @ r) = map_option int (parse_nat_prefix (nat_str n @ r))"
    using c s by (simp add: parse_int_digit_start)
  then show ?thesis
    using assms by (simp add: parse_nat_prefix_def takeWhile_digits_nat_str)
qed

lemma parse_int_nat_str [simp, js_arith]: "parse_int (nat_str n) = Some (int n)"
  using parse_int_nat_str_append [of "[]" n] by simp

lemma nat_str_inject [simp]: "nat_str m = nat_str n \<longleftrightarrow> m = n"
  by (metis digits_val_nat_str)

lemma nat_str_ascii [simp]: "ascii (nat_str n)"
  using nat_str_digits by (fastforce simp: ascii_def is_digit_def)

lemma nat_str_no_char: "\<not> is_digit c \<Longrightarrow> c \<notin> set (nat_str n)"
  using nat_str_digits by blast

lemma digits_val_Cons: "digits_val (c # ds) = digit_val c * 10 ^ length ds + digits_val ds"
proof (induction ds rule: rev_induct)
  case Nil
  then show ?case by (simp add: digits_val_def)
next
  case (snoc d ds)
  then show ?case
    by (simp add: digits_val_append algebra_simps flip: append_Cons)
qed

lemma digits_val_less: "digits_val ds < 10 ^ length ds" if "list_all is_digit ds"
  using that
proof (induction ds rule: rev_induct)
  case Nil
  then show ?case by (simp add: digits_val_def)
next
  case (snoc d ds)
  have "digit_val d < 10" and "digits_val ds < 10 ^ length ds" using snoc by simp_all
  then show ?case by (simp add: digits_val_append)
qed

text \<open>Printing decimal numbers has no leading zero, except for zero itself.\<close>

lemma radix_str_snoc: "0 < n \<Longrightarrow> d < 10 \<Longrightarrow> radix_str 10 (10 * n + d) = radix_str 10 n @ [digit_char d]"
  by (subst radix_str.simps) simp

lemma nat_str_digits_val:
  assumes "list_all is_digit ds" and "ds \<noteq> []" and "hd ds \<noteq> CHR ''0'' \<or> length ds = 1"
  shows "nat_str (digits_val ds) = ds"
  using assms
proof (induction ds rule: rev_induct)
  case (snoc d ds)
  have d: "is_digit d" "digit_val d < 10"
    using snoc.prems by auto
  show ?case
  proof (cases "ds = []")
    case True
    then show ?thesis using d
      by (simp add: digits_val_def nat_str_def radix_str.simps [of 10 "digit_val d"])
  next
    case False
    then have h: "hd ds \<noteq> CHR ''0''" using snoc.prems by auto
    have ih: "nat_str (digits_val ds) = ds" using snoc False h by auto
    have "digits_val ds \<noteq> 0"
    proof
      assume "digits_val ds = 0"
      then have "ds = ''0''" using ih by (simp add: nat_str_def radix_str.simps)
      then show False using h by simp
    qed
    then show ?thesis
      using ih d by (simp add: digits_val_append nat_str_def radix_str_snoc)
  qed
qed simp

lemma hex_str_chars: "c \<in> set (hex_str n) \<Longrightarrow> \<exists>d<16. c = digit_char d"
  unfolding hex_str_def
proof (induction "16::nat" n arbitrary: c rule: radix_str.induct)
  case (1 n)
  then show ?case
    by (cases "n < 16") (auto simp: radix_str.simps [of 16 n] intro: exI [of _ "n mod 16"])
qed

end
