(* ===== verification/Proxy_Protocol.thy ===== *)
theory Proxy_Protocol
  imports Js_Number
begin

text \<open>
  The PROXY protocol parser, \<^verbatim>\<open>src/proxy-protocol.ts\<close>: signature detection, the text
  header of version 1 and the binary header of version 2. A \<open>null\<close> result (more data
  needed) is \<open>None\<close>. Bytes are \<^typ>\<open>8 word\<close>, shifted and or-ed at 32 bits as JavaScript
  does. The laws are: detection and parsing are stable under further data, both header
  formats round trip, and only well-formed endpoints are ever reported.
\<close>

section \<open>The parser\<close>

record proxy_data =
  sourceAddress :: "string option"
  sourcePort :: "int option"
  destinationAddress :: "string option"
  destinationPort :: "int option"

record proxy_result = proxy_data +
  remainingData :: bytes

definition only_remaining :: "bytes \<Rightarrow> proxy_result" where
  "only_remaining d =
     \<lparr>sourceAddress = None, sourcePort = None, destinationAddress = None,
      destinationPort = None, remainingData = d\<rparr>"

definition V1_SIGNATURE :: bytes where
  "V1_SIGNATURE = buffer_of ''PROXY ''"

definition V2_SIGNATURE :: bytes where
  "V2_SIGNATURE = [0x0D, 0x0A, 0x0D, 0x0A, 0x00, 0x0D, 0x0A, 0x51, 0x55, 0x49, 0x54, 0x0A]"

definition V1_MAX_LENGTH :: nat where
  "V1_MAX_LENGTH = 109"

definition V2_MIN_HEADER :: nat where
  "V2_MIN_HEADER = 16"

definition V2_MAX_ADDR_LENGTH :: nat where
  "V2_MAX_ADDR_LENGTH = 216"

definition startsWithSignature :: "bytes \<Rightarrow> bytes \<Rightarrow> bool" where
  "startsWithSignature data sig =
     (if length data < length sig then False
      else list_all (\<lambda>i. data ! i = sig ! i) [0..<length sig])"

text \<open>The scan for CR LF within the first \<open>V1_MAX_LENGTH\<close> bytes.\<close>

definition crlf_index :: "bytes \<Rightarrow> nat option" where
  "crlf_index data =
     find (\<lambda>i. data ! i = 0x0D \<and> data ! (i + 1) = 0x0A) [0..<min (length data) V1_MAX_LENGTH - 1]"

text \<open>An octet is accepted only in its canonical decimal form (\<open>part !== String(num)\<close>).\<close>

definition valid_octet :: "string \<Rightarrow> bool" where
  "valid_octet part =
     (case parse_int part of
        None \<Rightarrow> False
      | Some num \<Rightarrow> \<not> (num < 0 \<or> num > 255 \<or> part \<noteq> int_str num))"

definition is_hex_or_colon :: "char \<Rightarrow> bool" where
  "is_hex_or_colon c \<longleftrightarrow>
     (let n = (of_char c :: nat) in
      48 \<le> n \<and> n \<le> 57 \<or> 97 \<le> n \<and> n \<le> 102 \<or> 65 \<le> n \<and> n \<le> 70 \<or> n = 58)"

definition isValidAddress :: "string \<Rightarrow> string \<Rightarrow> bool" where
  "isValidAddress addr protocol =
     (if protocol = ''TCP4'' then
        (let parts = split_seq ''.'' addr in
         if length parts \<noteq> 4 then False else list_all valid_octet parts)
      else if protocol = ''TCP6'' then
        (if \<not> includes_sub addr '':'' then False
         else if length addr > 45 then False
         else addr \<noteq> [] \<and> list_all is_hex_or_colon addr)
      else False)"

definition valid_port :: "int option \<Rightarrow> bool" where
  "valid_port p = (case p of None \<Rightarrow> False | Some n \<Rightarrow> \<not> (n < 0 \<or> n > 65535))"

definition parseV1 :: "bytes \<Rightarrow> proxy_result option" where
  "parseV1 data =
     (case crlf_index data of
        None \<Rightarrow> if length data \<ge> V1_MAX_LENGTH then Some (only_remaining data) else None
      | Some crlf \<Rightarrow>
          (let headerLine = ascii_string (take crlf data);
               parts = split_seq '' '' headerLine;
               remaining = drop (crlf + 2) data
           in
           if length parts < 2 \<or> parts ! 0 \<noteq> ''PROXY'' then Some (only_remaining remaining)
           else
             let protocol = parts ! 1 in
             if protocol = ''UNKNOWN'' then Some (only_remaining remaining)
             else if protocol \<noteq> ''TCP4'' \<and> protocol \<noteq> ''TCP6'' then Some (only_remaining remaining)
             else if length parts \<noteq> 6 then Some (only_remaining remaining)
             else
               let srcAddr = parts ! 2; dstAddr = parts ! 3;
                   srcPort = parse_int (parts ! 4); dstPort = parse_int (parts ! 5)
               in
               if \<not> valid_port srcPort \<or> \<not> valid_port dstPort then Some (only_remaining remaining)
               else if \<not> isValidAddress srcAddr protocol \<or> \<not> isValidAddress dstAddr protocol
                 then Some (only_remaining remaining)
               else Some \<lparr>sourceAddress = Some srcAddr, sourcePort = srcPort,
                      destinationAddress = Some dstAddr, destinationPort = dstPort,
                      remainingData = remaining\<rparr>))"

definition formatIPv4 :: "bytes \<Rightarrow> string" where
  "formatIPv4 bs =
     nat_str (unat (bs ! 0)) @ ''.'' @ nat_str (unat (bs ! 1)) @ ''.'' @
     nat_str (unat (bs ! 2)) @ ''.'' @ nat_str (unat (bs ! 3))"

definition formatIPv6 :: "bytes \<Rightarrow> string" where
  "formatIPv6 bs =
     join '':'' (map (\<lambda>k. hex_str (unat (be16 (bs ! (2 * k)) (bs ! (2 * k + 1))))) [0..<8])"

definition port_at :: "bytes \<Rightarrow> nat \<Rightarrow> int" where
  "port_at bs i = int (unat (be16 (bs ! i) (bs ! (i + 1))))"

definition parseV2 :: "bytes \<Rightarrow> proxy_result option" where
  "parseV2 data =
     (if length data < V2_MIN_HEADER then None
      else
        let verCmd = data ! 12;
            version = drop_bit 4 (and verCmd 0xF0);
            command = and verCmd 0x0F
        in
        if version \<noteq> 2 then None
        else
          let famProto = data ! 13;
              family = drop_bit 4 (and famProto 0xF0);
              proto = and famProto 0x0F;
              addrLen = unat (be16 (data ! 14) (data ! 15))
          in
          if addrLen > V2_MAX_ADDR_LENGTH then None
          else
            let totalHeaderLen = V2_MIN_HEADER + addrLen in
            if length data < totalHeaderLen then None
            else
              let remaining = drop totalHeaderLen data in
              if command = 0 then Some (only_remaining remaining)
              else if command \<noteq> 1 then Some (only_remaining remaining)
              else if proto \<noteq> 1 then Some (only_remaining remaining)
              else
                let addrData = js_slice V2_MIN_HEADER totalHeaderLen data in
                if family = 1 then
                  (if addrLen < 12 then Some (only_remaining remaining)
                   else Some \<lparr>sourceAddress = Some (formatIPv4 (js_slice 0 4 addrData)),
                          sourcePort = Some (port_at addrData 8),
                          destinationAddress = Some (formatIPv4 (js_slice 4 8 addrData)),
                          destinationPort = Some (port_at addrData 10),
                          remainingData = remaining\<rparr>)
                else if family = 2 then
                  (if addrLen < 36 then Some (only_remaining remaining)
                   else Some \<lparr>sourceAddress = Some (formatIPv6 (js_slice 0 16 addrData)),
                          sourcePort = Some (port_at addrData 32),
                          destinationAddress = Some (formatIPv6 (js_slice 16 32 addrData)),
                          destinationPort = Some (port_at addrData 34),
                          remainingData = remaining\<rparr>)
                else Some (only_remaining remaining))"

datatype proxy_type = V1 | V2 | NoProxy | Incomplete

definition detectProxyProtocol :: "bytes \<Rightarrow> proxy_type" where
  "detectProxyProtocol data =
     (if length data = 0 then Incomplete
      else if length data \<ge> length V2_SIGNATURE \<and> startsWithSignature data V2_SIGNATURE then V2
      else if length data < length V2_SIGNATURE
        \<and> startsWithSignature data (take (length data) V2_SIGNATURE) then Incomplete
      else if length data \<ge> length V1_SIGNATURE \<and> startsWithSignature data V1_SIGNATURE then V1
      else if length data < length V1_SIGNATURE
        \<and> startsWithSignature data (take (length data) V1_SIGNATURE) then Incomplete
      else NoProxy)"

definition parseProxyProtocol :: "bytes \<Rightarrow> proxy_result option" where
  "parseProxyProtocol data =
     (case detectProxyProtocol data of
        V1 \<Rightarrow> parseV1 data
      | V2 \<Rightarrow> parseV2 data
      | NoProxy \<Rightarrow> Some (only_remaining data)
      | Incomplete \<Rightarrow> None)"

section \<open>Detection\<close>

lemma startsWithSignature_iff: "startsWithSignature data sig \<longleftrightarrow> starts_with data sig"
proof (cases "length data < length sig")
  case True
  then show ?thesis by (auto simp: startsWithSignature_def starts_with_iff)
next
  case False
  then show ?thesis
    using list_eq_iff_nth_eq [of "take (length sig) data" sig]
    by (auto simp: startsWithSignature_def starts_with_def list_all_iff)
qed

lemma starts_with_take_iff:
  "length data < length sig \<Longrightarrow> starts_with data (take (length data) sig) \<longleftrightarrow> starts_with sig data"
  by (auto simp: starts_with_def)

lemma detect_alt:
  "detectProxyProtocol data =
     (if data = [] then Incomplete
      else if starts_with data V2_SIGNATURE then V2
      else if starts_with V2_SIGNATURE data then Incomplete
      else if starts_with data V1_SIGNATURE then V1
      else if starts_with V1_SIGNATURE data then Incomplete
      else NoProxy)"
proof -
  have full: "(length sig \<le> length data \<and> startsWithSignature data sig) = starts_with data sig" for sig
    by (auto simp: startsWithSignature_iff starts_with_iff)
  have part: "(length data < length sig \<and> startsWithSignature data (take (length data) sig))
      = starts_with sig data" if "\<not> starts_with data sig" for sig
  proof (cases "length data < length sig")
    case True
    then show ?thesis by (simp add: startsWithSignature_iff starts_with_take_iff)
  next
    case False
    then show ?thesis using that starts_with_both [of sig data sig] by (auto simp: starts_with_def)
  qed
  show ?thesis
    unfolding detectProxyProtocol_def full
    by (cases "starts_with data V2_SIGNATURE"; cases "starts_with data V1_SIGNATURE") (simp_all add: part)
qed

lemma not_starts_with_extend:
  "\<not> starts_with data sig \<Longrightarrow> \<not> starts_with sig data \<Longrightarrow>
   \<not> starts_with (data @ extra) sig \<and> \<not> starts_with sig (data @ extra)"
  by (metis le_cases starts_with_append starts_with_both starts_with_trans)

lemma detect_extend:
  assumes "detectProxyProtocol data \<noteq> Incomplete"
  shows "detectProxyProtocol (data @ extra) = detectProxyProtocol data"
  using assms starts_with_extend [of data _ extra] not_starts_with_extend [of data V2_SIGNATURE extra]
    not_starts_with_extend [of data V1_SIGNATURE extra]
  by (auto simp: detect_alt split: if_splits)

lemma detect_incomplete_short:
  "detectProxyProtocol data = Incomplete \<Longrightarrow> length data < 12"
  by (auto simp: detectProxyProtocol_def V1_SIGNATURE_def V2_SIGNATURE_def split: if_splits)

section \<open>The header line of version 1\<close>

lemma find_upt_Some_iff:
  "find P [0..<n] = Some i \<longleftrightarrow> i < n \<and> P i \<and> (\<forall>j<i. \<not> P j)"
  by (auto simp: find_Some_iff)

lemma crlf_index_Some:
  "crlf_index data = Some i \<Longrightarrow>
   i + 1 < length data \<and> i < 108 \<and> data ! i = 0x0D \<and> data ! (i + 1) = 0x0A"
  by (auto simp: crlf_index_def find_upt_Some_iff V1_MAX_LENGTH_def)

lemma crlf_index_extend:
  assumes "crlf_index data = Some i"
  shows "crlf_index (data @ extra) = Some i"
proof -
  have i: "i + 1 < length data" using crlf_index_Some [OF assms] by simp
  show ?thesis
    using assms i by (auto simp: crlf_index_def find_upt_Some_iff nth_append)
qed

lemma crlf_index_extend_None:
  assumes "crlf_index data = None" and "V1_MAX_LENGTH \<le> length data"
  shows "crlf_index (data @ extra) = None"
  using assms by (auto simp: crlf_index_def find_None_iff nth_append V1_MAX_LENGTH_def min_def)

text \<open>What the header line says, apart from the data that follows it.\<close>

definition v1_line :: "bytes \<Rightarrow> proxy_result" where
  "v1_line line =
     (let parts = split_seq '' '' (ascii_string line) in
      if length parts = 6 \<and> parts ! 0 = ''PROXY'' \<and> (parts ! 1 = ''TCP4'' \<or> parts ! 1 = ''TCP6'')
        \<and> valid_port (parse_int (parts ! 4)) \<and> valid_port (parse_int (parts ! 5))
        \<and> isValidAddress (parts ! 2) (parts ! 1) \<and> isValidAddress (parts ! 3) (parts ! 1)
      then \<lparr>sourceAddress = Some (parts ! 2), sourcePort = parse_int (parts ! 4),
            destinationAddress = Some (parts ! 3), destinationPort = parse_int (parts ! 5),
            remainingData = []\<rparr>
      else only_remaining [])"

lemma parseV1_eq:
  "parseV1 data =
     (case crlf_index data of
        None \<Rightarrow> if length data \<ge> V1_MAX_LENGTH then Some (only_remaining data) else None
      | Some i \<Rightarrow> Some ((v1_line (take i data))\<lparr>remainingData := drop (i + 2) data\<rparr>))"
proof (cases "crlf_index data")
  case None
  then show ?thesis by (simp add: parseV1_def)
next
  case (Some i)
  define parts where "parts = split_seq '' '' (ascii_string (take i data))"
  show ?thesis
    by (simp add: parseV1_def v1_line_def Some Let_def only_remaining_def flip: parts_def)
qed

lemma parseV1_extend:
  assumes "parseV1 data = Some r"
  shows "parseV1 (data @ extra) = Some (r\<lparr>remainingData := remainingData r @ extra\<rparr>)"
proof (cases "crlf_index data")
  case None
  with assms have l: "V1_MAX_LENGTH \<le> length data" and r: "r = only_remaining data"
    by (auto simp: parseV1_def split: if_splits)
  then show ?thesis
    using crlf_index_extend_None [OF None l, of extra] by (simp add: parseV1_def only_remaining_def)
next
  case (Some i)
  then show ?thesis
    using assms crlf_index_extend [OF Some, of extra] crlf_index_Some [OF Some]
    by (auto simp: parseV1_eq)
qed

lemma parseV2_extend:
  assumes "parseV2 data = Some r"
  shows "parseV2 (data @ extra) = Some (r\<lparr>remainingData := remainingData r @ extra\<rparr>)"
proof -
  define n where "n = V2_MIN_HEADER + unat (be16 (data ! 14) (data ! 15))"
  have n: "16 \<le> n" "n \<le> length data"
    using assms by (auto simp: parseV2_def n_def V2_MIN_HEADER_def Let_def split: if_splits)
  then have same: "(data @ extra) ! i = data ! i" if "i < 16" for i
    using that by (simp add: nth_append)
  have dr: "drop n (data @ extra) = drop n data @ extra"
    and sl: "js_slice V2_MIN_HEADER n (data @ extra) = js_slice V2_MIN_HEADER n data"
    using n by (simp_all add: js_slice_def V2_MIN_HEADER_def)
  show ?thesis
    using assms n
    by (auto simp: parseV2_def same dr sl Let_def only_remaining_def simp flip: n_def
        split: if_splits)
qed

lemma parse_extend:
  assumes "parseProxyProtocol data = Some r"
  shows "parseProxyProtocol (data @ extra) = Some (r\<lparr>remainingData := remainingData r @ extra\<rparr>)"
proof -
  have "detectProxyProtocol data \<noteq> Incomplete"
    using assms by (auto simp: parseProxyProtocol_def)
  then show ?thesis
    using assms detect_extend [of data extra]
    by (auto simp: parseProxyProtocol_def only_remaining_def parseV1_extend parseV2_extend
        split: proxy_type.splits)
qed

section \<open>What is accepted\<close>

lemma valid_octet_iff: "valid_octet p \<longleftrightarrow> (\<exists>b::byte. p = nat_str (unat b))"
proof
  assume "valid_octet p"
  then obtain n where n: "parse_int p = Some n" by (cases "parse_int p") (auto simp: valid_octet_def)
  then have n: "0 \<le> n" "n \<le> 255" "p = int_str n"
    using \<open>valid_octet p\<close> by (auto simp: valid_octet_def)
  obtain k where k: "n = int k" using \<open>0 \<le> n\<close> by (metis nonneg_int_cases)
  then have "unat (word_of_nat k :: byte) = k" using n by (simp add: unat_of_nat)
  then have "p = nat_str (unat (word_of_nat k :: byte))" using n k by (simp add: int_str_def)
  then show "\<exists>b::byte. p = nat_str (unat b)" ..
next
  assume "\<exists>b::byte. p = nat_str (unat b)"
  then obtain b :: byte where "p = nat_str (unat b)" ..
  moreover have "int (unat b) \<le> 255" using unat8 [of b] by linarith
  ultimately show "valid_octet p" by (simp add: valid_octet_def int_str_def)
qed

lemma formatIPv4_join:
  "formatIPv4 [a, b, c, d] = join ''.'' [nat_str (unat a), nat_str (unat b), nat_str (unat c), nat_str (unat d)]"
  by (simp add: formatIPv4_def)

lemma dot_not_digit [simp]:
  "\<not> is_digit (CHR ''.'')" "\<not> is_digit (CHR '' '')" "\<not> is_digit (CHR 0x0D)" "\<not> is_digit (CHR '':'')"
  by (simp_all add: is_digit_def)

lemma split_formatIPv4:
  "split_seq ''.'' (formatIPv4 [a, b, c, d]) =
   [nat_str (unat a), nat_str (unat b), nat_str (unat c), nat_str (unat d)]"
  unfolding formatIPv4_join by (rule split_char_join) (auto simp: nat_str_no_char)

lemma isValidAddress_TCP4:
  "isValidAddress addr ''TCP4'' \<longleftrightarrow> (\<exists>a b c d. addr = formatIPv4 [a, b, c, d])"
proof
  assume v: "isValidAddress addr ''TCP4''"
  define parts where "parts = split_seq ''.'' addr"
  have "length parts = 4" "list_all valid_octet parts"
    using v by (auto simp: isValidAddress_def parts_def Let_def split: if_splits)
  then obtain p q r t where p: "parts = [p, q, r, t]" "list_all valid_octet [p, q, r, t]"
    by (auto simp: length_Suc_conv numeral_eq_Suc)
  then obtain a b c d :: byte where
    "parts = [nat_str (unat a), nat_str (unat b), nat_str (unat c), nat_str (unat d)]"
    by (auto simp: valid_octet_iff)
  moreover have "join ''.'' parts = addr" by (simp add: parts_def join_split_seq)
  ultimately show "\<exists>a b c d. addr = formatIPv4 [a, b, c, d]" using formatIPv4_join by metis
next
  assume "\<exists>a b c d. addr = formatIPv4 [a, b, c, d]"
  then show "isValidAddress addr ''TCP4''"
    by (auto simp: isValidAddress_def split_formatIPv4 valid_octet_iff)
qed

lemma formatIPv4_chars: "c \<in> set (formatIPv4 bs) \<Longrightarrow> is_digit c \<or> c = CHR ''.''"
  by (auto simp: formatIPv4_def dest: nat_str_digits)

lemma valid_address_char:
  assumes "isValidAddress addr protocol" and "c \<in> set addr"
  shows "is_hex_or_colon c \<or> c = CHR ''.''"
proof (cases "protocol = ''TCP4''")
  case True
  then obtain a b d e where "addr = formatIPv4 [a, b, d, e]"
    using assms isValidAddress_TCP4 by auto
  then have "is_digit c \<or> c = CHR ''.''" using assms formatIPv4_chars by auto
  then show ?thesis by (auto simp: is_digit_def is_hex_or_colon_def)
next
  case False
  then show ?thesis using assms by (auto simp: isValidAddress_def list_all_iff split: if_splits)
qed

lemma valid_address_clean:
  assumes "isValidAddress addr protocol"
  shows "CHR '' '' \<notin> set addr" "CHR 0x0D \<notin> set addr" "ascii addr" "addr \<noteq> []"
proof -
  show "CHR '' '' \<notin> set addr" "CHR 0x0D \<notin> set addr"
    using valid_address_char [OF assms] by (force simp: is_hex_or_colon_def)+
  show "ascii addr"
    unfolding ascii_def using valid_address_char [OF assms] by (force simp: is_hex_or_colon_def Let_def)
  show "addr \<noteq> []"
  proof
    assume "addr = []"
    moreover have "split_seq ''.'' [] = [[]]" by (simp add: split_char_single)
    ultimately show False
      using assms by (auto simp: isValidAddress_def includes_sub_def split: if_splits)
  qed
qed

text \<open>A reported endpoint is complete and well formed.\<close>

definition endpoints_ok :: "proxy_result \<Rightarrow> bool" where
  "endpoints_ok r \<longleftrightarrow>
     (sourceAddress r = None \<and> sourcePort r = None \<and> destinationAddress r = None
        \<and> destinationPort r = None)
   \<or> (\<exists>sa sp da dp. sourceAddress r = Some sa \<and> sourcePort r = Some sp
        \<and> destinationAddress r = Some da \<and> destinationPort r = Some dp
        \<and> sa \<noteq> [] \<and> da \<noteq> [] \<and> 0 \<le> sp \<and> sp \<le> 65535 \<and> 0 \<le> dp \<and> dp \<le> 65535)"

lemma only_remaining_simps [simp]:
  "sourceAddress (only_remaining d) = None" "sourcePort (only_remaining d) = None"
  "destinationAddress (only_remaining d) = None" "destinationPort (only_remaining d) = None"
  "remainingData (only_remaining d) = d"
  by (simp_all add: only_remaining_def)

lemma v1_line_ok: "endpoints_ok (v1_line line)"
  by (auto simp: v1_line_def Let_def endpoints_ok_def valid_port_def not_less
      dest: valid_address_clean(4) split: option.splits)

lemma endpoints_ok_remaining [simp]:
  "endpoints_ok (r\<lparr>remainingData := d\<rparr>) \<longleftrightarrow> endpoints_ok r" "endpoints_ok (only_remaining d)"
  by (simp_all add: endpoints_ok_def)

lemma parseV1_ok: "parseV1 data = Some r \<Longrightarrow> endpoints_ok r"
  using v1_line_ok by (auto simp: parseV1_eq split: option.splits if_splits)

lemma formatIPv4_not_Nil [simp]: "formatIPv4 bs \<noteq> []"
  by (simp add: formatIPv4_def)

lemma formatIPv6_not_Nil [simp]: "formatIPv6 bs \<noteq> []"
  by (simp add: formatIPv6_def upt_rec)

lemma port_at_range: "0 \<le> port_at bs i \<and> port_at bs i \<le> 65535"
proof -
  have "int (unat (be16 (bs ! i) (bs ! (i + 1)))) < int 65536"
    by (simp only: of_nat_less_iff be16_less)
  then show ?thesis unfolding port_at_def by linarith
qed

lemma parseV2_ok: "parseV2 data = Some r \<Longrightarrow> endpoints_ok r"
  using port_at_range by (auto simp: parseV2_def Let_def endpoints_ok_def split: if_splits)

lemma parse_ok: "parseProxyProtocol data = Some r \<Longrightarrow> endpoints_ok r"
  by (auto simp: parseProxyProtocol_def parseV1_ok parseV2_ok split: proxy_type.splits)

text \<open>Parsing only ever strips a header from the front, and a short one.\<close>

lemma parse_suffix:
  assumes "parseProxyProtocol data = Some r"
  shows "\<exists>n \<le> 232. n \<le> length data \<and> remainingData r = drop n data"
proof -
  have v1: "\<exists>n \<le> 232. n \<le> length data \<and> remainingData r = drop n data" if "parseV1 data = Some r"
  proof (cases "crlf_index data")
    case None
    then show ?thesis using that by (auto simp: parseV1_eq intro: exI [of _ 0] split: if_splits)
  next
    case (Some i)
    then show ?thesis
      using that crlf_index_Some [OF Some] by (auto simp: parseV1_eq intro!: exI [of _ "i + 2"])
  qed
  have v2: "\<exists>n \<le> 232. n \<le> length data \<and> remainingData r = drop n data" if "parseV2 data = Some r"
    using that
    by (auto simp: parseV2_def Let_def V2_MAX_ADDR_LENGTH_def V2_MIN_HEADER_def
        intro!: exI [of _ "16 + unat (be16 (data ! 14) (data ! 15))"] split: if_splits)
  show ?thesis
    using assms v1 v2
    by (auto simp: parseProxyProtocol_def intro!: exI [of _ 0] split: proxy_type.splits)
qed

section \<open>Round trips\<close>

text \<open>The header a version 1 proxy sends.\<close>

definition encode_v1 :: "string \<Rightarrow> string \<Rightarrow> string \<Rightarrow> nat \<Rightarrow> nat \<Rightarrow> string" where
  "encode_v1 protocol src dst sport dport =
     join '' '' [''PROXY'', protocol, src, dst, nat_str sport, nat_str dport]"

lemma byte_of_CR [simp]: "byte_of c = 13 \<longleftrightarrow> c = CHR 0x0D"
proof -
  have "byte_of (CHR 0x0D) = 13" by (simp add: byte_of_def)
  then show ?thesis using inj_byte_of by metis
qed

lemma crlf_index_header:
  assumes "CHR 0x0D \<notin> set h" and "length h \<le> 107"
  shows "crlf_index (buffer_of h @ 0x0D # 0x0A # rest) = Some (length h)"
proof -
  have "buffer_of h ! j \<noteq> 13" if "j < length h" for j
    using assms(1) that by (metis buffer_of_def byte_of_CR nth_map nth_mem)
  then show ?thesis
    unfolding crlf_index_def find_upt_Some_iff
    using assms by (auto simp: nth_append V1_MAX_LENGTH_def)
qed

lemma parseV1_encode:
  assumes "protocol = ''TCP4'' \<or> protocol = ''TCP6''"
    and src: "isValidAddress src protocol" and dst: "isValidAddress dst protocol"
    and "sport \<le> 65535" and "dport \<le> 65535"
    and len: "length (encode_v1 protocol src dst sport dport) \<le> 107"
  shows "parseV1 (buffer_of (encode_v1 protocol src dst sport dport) @ 0x0D # 0x0A # rest) =
    Some \<lparr>sourceAddress = Some src, sourcePort = Some (int sport),
      destinationAddress = Some dst, destinationPort = Some (int dport), remainingData = rest\<rparr>"
proof -
  define h where "h = encode_v1 protocol src dst sport dport"
  note clean = valid_address_clean [OF src] valid_address_clean [OF dst]
  have cr: "CHR 0x0D \<notin> set h"
    using assms(1) clean by (auto simp: h_def encode_v1_def nat_str_no_char)
  have asc: "ascii h" using assms(1) clean by (auto simp: h_def encode_v1_def)
  have parts: "split_seq '' '' h = [''PROXY'', protocol, src, dst, nat_str sport, nat_str dport]"
    unfolding h_def encode_v1_def
    using assms(1) clean by (intro split_char_join) (auto simp: nat_str_no_char)
  have "v1_line (buffer_of h) =
    \<lparr>sourceAddress = Some src, sourcePort = Some (int sport),
      destinationAddress = Some dst, destinationPort = Some (int dport), remainingData = []\<rparr>"
    using assms by (simp add: v1_line_def Let_def ascii_string_buffer_of asc parts valid_port_def)
  moreover have "crlf_index (buffer_of h @ 0x0D # 0x0A # rest) = Some (length h)"
    using cr len by (intro crlf_index_header) (simp_all add: h_def)
  ultimately show ?thesis by (simp add: parseV1_eq flip: h_def)
qed

lemma detect_v1: "detectProxyProtocol (buffer_of (''PROXY '' @ t) @ rest) = V1"
  by (simp add: detect_alt V1_SIGNATURE_def V2_SIGNATURE_def byte_of_def buffer_of_def)

text \<open>The header a version 2 proxy sends for a TCP connection; \<open>tlv\<close> stands for extensions.\<close>

definition be_bytes :: "16 word \<Rightarrow> bytes" where
  "be_bytes w = [hi_byte w, lo_byte w]"

definition encode_v2 :: "byte \<Rightarrow> bytes \<Rightarrow> bytes" where
  "encode_v2 famProto body =
     V2_SIGNATURE @ [0x21, famProto] @ be_bytes (word_of_nat (length body)) @ body"

lemma detect_v2: "detectProxyProtocol (encode_v2 f body @ rest) = V2"
  by (simp add: detect_alt encode_v2_def starts_with_iff)

lemma nth_encode_v2:
  "encode_v2 f body ! 12 = 0x21" "encode_v2 f body ! 13 = f"
  "encode_v2 f body ! 14 = hi_byte (word_of_nat (length body))"
  "encode_v2 f body ! 15 = lo_byte (word_of_nat (length body))"
  "length (encode_v2 f body) = 16 + length body"
  "drop 16 (encode_v2 f body) = body"
  by (simp_all add: encode_v2_def V2_SIGNATURE_def be_bytes_def nth_append)

text \<open>What \<open>parseV2\<close> does on a complete header of a TCP connection.\<close>

lemma parseV2_encode:
  assumes "length body \<le> 216" and "and f 0x0F = 1"
  shows "parseV2 (encode_v2 f body @ rest) =
    (let family = drop_bit 4 (and f 0xF0) in
     if family = 1 then
       (if length body < 12 then Some (only_remaining rest)
        else Some \<lparr>sourceAddress = Some (formatIPv4 (js_slice 0 4 body)), sourcePort = Some (port_at body 8),
               destinationAddress = Some (formatIPv4 (js_slice 4 8 body)),
               destinationPort = Some (port_at body 10), remainingData = rest\<rparr>)
     else if family = 2 then
       (if length body < 36 then Some (only_remaining rest)
        else Some \<lparr>sourceAddress = Some (formatIPv6 (js_slice 0 16 body)), sourcePort = Some (port_at body 32),
               destinationAddress = Some (formatIPv6 (js_slice 16 32 body)),
               destinationPort = Some (port_at body 34), remainingData = rest\<rparr>)
     else Some (only_remaining rest))"
proof -
  define d where "d = encode_v2 f body @ rest"
  have len: "unat (word_of_nat (length body) :: 16 word) = length body"
    using assms by (simp add: unat_of_nat)
  have d: "d ! 12 = 0x21" "d ! 13 = f" "length d = 16 + length body + length rest"
    "unat (be16 (d ! 14) (d ! 15)) = length body"
    using nth_encode_v2 [of f body] by (simp_all add: d_def nth_append unat_be16_bytes len)
  have "drop (16 + length body) d = rest" and "js_slice 16 (16 + length body) d = body"
    using nth_encode_v2(5,6) [of f body] by (simp_all add: d_def js_slice_def)
  then show ?thesis
    unfolding d_def [symmetric] parseV2_def V2_MIN_HEADER_def V2_MAX_ADDR_LENGTH_def d Let_def
    using assms by simp
qed

lemma port_at_be_bytes:
  assumes "js_slice i (i + 2) body = be_bytes w" and "i + 2 \<le> length body"
  shows "port_at body i = int (unat w)"
proof -
  have "body ! i = hi_byte w" "body ! (i + 1) = lo_byte w"
  proof -
    have "take 2 (drop i body) ! 0 = be_bytes w ! 0" "take 2 (drop i body) ! 1 = be_bytes w ! 1"
      using assms by (simp_all add: js_slice_def)
    then show "body ! i = hi_byte w" "body ! (i + 1) = lo_byte w"
      using assms(2) by (simp_all add: be_bytes_def)
  qed
  then show ?thesis unfolding port_at_def by (simp only: unat_be16_bytes)
qed

text \<open>A header that can never be completed: a wrong version or an address block over the limit.\<close>

definition v2_malformed :: "bytes \<Rightarrow> bool" where
  "v2_malformed data \<longleftrightarrow>
     detectProxyProtocol data = V2 \<and> 16 \<le> length data \<and>
     (drop_bit 4 (and (data ! 12) 0xF0) \<noteq> 2 \<or> 216 < unat (be16 (data ! 14) (data ! 15)))"

lemma parse_None_bound:
  assumes "parseProxyProtocol data = None" and "\<not> v2_malformed data"
  shows "length data < 232"
proof (cases "detectProxyProtocol data")
  case V1
  then show ?thesis
    using assms by (auto simp: parseProxyProtocol_def parseV1_eq V1_MAX_LENGTH_def split: option.splits if_splits)
next
  case V2
  then have n: "parseV2 data = None" using assms by (simp add: parseProxyProtocol_def)
  show ?thesis
  proof (rule ccontr)
    assume "\<not> length data < 232"
    then show False
      using n assms(2) V2
      by (auto simp: parseV2_def v2_malformed_def Let_def V2_MIN_HEADER_def V2_MAX_ADDR_LENGTH_def
          split: if_splits)
  qed
next
  case NoProxy
  then show ?thesis using assms by (simp add: parseProxyProtocol_def)
next
  case Incomplete
  then show ?thesis using detect_incomplete_short by fastforce
qed

lemma v2_malformed_stuck:
  assumes "v2_malformed data"
  shows "parseProxyProtocol (data @ extra) = None"
proof -
  have "detectProxyProtocol (data @ extra) = V2"
    using assms detect_extend [of data extra] by (simp add: v2_malformed_def)
  then show ?thesis
    using assms
    by (auto simp: parseProxyProtocol_def parseV2_def v2_malformed_def nth_append V2_MAX_ADDR_LENGTH_def Let_def)
qed

section \<open>Properties\<close>

text \<open>
  C11: a version 1 header for TCP4 or TCP6 with accepted addresses and ports is parsed back to
  exactly the addresses and ports it was written from, and the bytes after its CR LF are all
  that remains, whatever they are.
\<close>

theorem proxy_v1_roundtrip:
  assumes "protocol = ''TCP4'' \<or> protocol = ''TCP6''"
    and "isValidAddress src protocol" and "isValidAddress dst protocol"
    and "sport \<le> 65535" and "dport \<le> 65535"
    and "length (encode_v1 protocol src dst sport dport) \<le> 107"
  shows "parseProxyProtocol (buffer_of (encode_v1 protocol src dst sport dport) @ 0x0D # 0x0A # rest) =
    Some \<lparr>sourceAddress = Some src, sourcePort = Some (int sport),
      destinationAddress = Some dst, destinationPort = Some (int dport), remainingData = rest\<rparr>"
proof -
  have "encode_v1 protocol src dst sport dport = ''PROXY '' @ join '' '' [protocol, src, dst, nat_str sport, nat_str dport]"
    by (simp add: encode_v1_def)
  then have "detectProxyProtocol (buffer_of (encode_v1 protocol src dst sport dport) @ 0x0D # 0x0A # rest) = V1"
    using detect_v1 by metis
  then show ?thesis
    using parseV1_encode [OF assms] by (simp add: parseProxyProtocol_def)
qed

theorem proxy_v1_roundtrip_witness:
  "parseProxyProtocol (buffer_of (encode_v1 ''TCP6'' ''2001:db8::1'' ''::1'' 56324 443) @ [0x0D, 0x0A, 0x16, 0x03]) =
    Some \<lparr>sourceAddress = Some ''2001:db8::1'', sourcePort = Some 56324,
      destinationAddress = Some ''::1'', destinationPort = Some 443, remainingData = [0x16, 0x03]\<rparr>"
proof -
  have a: "isValidAddress ''2001:db8::1'' ''TCP6''" "isValidAddress ''::1'' ''TCP6''"
    by (simp_all add: isValidAddress_def includes_sub_def is_hex_or_colon_def)
  have l: "length (encode_v1 ''TCP6'' ''2001:db8::1'' ''::1'' 56324 443) \<le> 107"
    by (simp add: encode_v1_def nat_str_def radix_str.simps)
  have "parseProxyProtocol (buffer_of (encode_v1 ''TCP6'' ''2001:db8::1'' ''::1'' 56324 443) @ 0x0D # 0x0A # [0x16, 0x03]) =
    Some \<lparr>sourceAddress = Some ''2001:db8::1'', sourcePort = Some (int 56324),
      destinationAddress = Some ''::1'', destinationPort = Some (int 443), remainingData = [0x16, 0x03]\<rparr>"
    by (rule proxy_v1_roundtrip [OF disjI2 [OF refl] a _ _ l]) simp_all
  then show ?thesis unfolding of_nat_numeral .
qed

text \<open>
  C10: a version 2 header for TCP over IPv4 or IPv6, with any TLV extensions that fit the
  limit of 216 bytes, is parsed back to the addresses in their textual form and the two
  16-bit ports, and the bytes after the header are all that remains.
\<close>

theorem proxy_v2_roundtrip:
  assumes "n = 4 \<and> f = 0x11 \<and> fmt = formatIPv4 \<or> n = 16 \<and> f = 0x21 \<and> fmt = formatIPv6"
    and "length src = n" and "length dst = n" and "2 * n + 4 + length tlv \<le> 216"
  shows "parseProxyProtocol (encode_v2 f (src @ dst @ be_bytes sport @ be_bytes dport @ tlv) @ rest) =
    Some \<lparr>sourceAddress = Some (fmt src), sourcePort = Some (int (unat sport)),
      destinationAddress = Some (fmt dst), destinationPort = Some (int (unat dport)),
      remainingData = rest\<rparr>"
proof -
  define body where "body = src @ dst @ be_bytes sport @ be_bytes dport @ tlv"
  have two: "length (be_bytes w) = 2" for w by (simp add: be_bytes_def)
  have len: "length body = 2 * n + 4 + length tlv" using assms by (simp add: body_def two)
  have addr: "js_slice 0 n body = src" "js_slice n (2 * n) body = dst"
    using assms by (simp_all add: body_def js_slice_def)
  have ports: "port_at body (2 * n) = int (unat sport)" "port_at body (2 * n + 2) = int (unat dport)"
  proof -
    have "js_slice (2 * n) (2 * n + 2) body = be_bytes sport"
      and "js_slice (2 * n + 2) (2 * n + 2 + 2) body = be_bytes dport"
      using assms(2,3) by (simp_all add: body_def js_slice_def two)
    then show "port_at body (2 * n) = int (unat sport)" "port_at body (2 * n + 2) = int (unat dport)"
      using len by (simp_all add: port_at_be_bytes)
  qed
  have "parseProxyProtocol (encode_v2 f body @ rest) = parseV2 (encode_v2 f body @ rest)"
    by (simp add: parseProxyProtocol_def detect_v2)
  then show ?thesis
    using assms(1,4) len addr ports parseV2_encode [of body f rest]
    unfolding body_def [symmetric] by (auto simp: Let_def)
qed

theorem proxy_v2_roundtrip_witness:
  "parseProxyProtocol (encode_v2 0x11 ([10, 0, 0, 1] @ [10, 0, 0, 2] @ be_bytes 56324 @ be_bytes 443 @ []) @ [0x47]) =
    Some \<lparr>sourceAddress = Some (formatIPv4 [10, 0, 0, 1]), sourcePort = Some 56324,
      destinationAddress = Some (formatIPv4 [10, 0, 0, 2]), destinationPort = Some 443,
      remainingData = [0x47]\<rparr>"
  using proxy_v2_roundtrip [of 4 "0x11" formatIPv4 "[10, 0, 0, 1]" "[10, 0, 0, 2]" "[]" 56324 443 "[0x47]"]
  by simp

text \<open>
  an address is accepted under TCP4 exactly when it is the canonical dotted-decimal text
  of four bytes.
\<close>

theorem tcp4_address_canonical:
  "isValidAddress addr ''TCP4'' \<longleftrightarrow> (\<exists>a b c d. addr = formatIPv4 [a, b, c, d])"
  by (rule isValidAddress_TCP4)

text \<open>
  whatever the bytes, a parse that succeeds reports either no endpoint at all or a
  complete one with both addresses non-empty and both ports between 0 and 65535, and it
  consumes at most 232 bytes from the front.
\<close>

theorem proxy_result_wellformed:
  assumes "parseProxyProtocol data = Some r"
  shows "endpoints_ok r \<and> (\<exists>n \<le> 232. n \<le> length data \<and> remainingData r = drop n data)"
  using parse_ok [OF assms] parse_suffix [OF assms] by blast

theorem proxy_result_wellformed_witness:
  "endpoints_ok (only_remaining [0x47]) \<and>
   (\<exists>n \<le> 232. n \<le> length [0x47 :: byte] \<and> remainingData (only_remaining [0x47]) = drop n [0x47])"
proof -
  have "parseProxyProtocol [0x47] = Some (only_remaining [0x47])" by code_simp
  then show ?thesis by (rule proxy_result_wellformed)
qed

end
