(* ===== verification/Frame_Capture.thy ===== *)
theory Frame_Capture
  imports Prelude
begin

text \<open>
  The HTTP/2 frame capture of \<^verbatim>\<open>src/process-connection.ts\<close> (\<open>DataCapturingStream\<close>): the
  bytes of a connection are cut into frames as they arrive, and each frame is buffered per
  stream or handed to the callback registered for it. \<open>setImmediate(() => cb(frame))\<close> appends
  to the queue \<open>delivered\<close>. Callbacks are values of a type \<open>'c\<close>. The laws are: cutting into
  frames loses nothing and does not depend on how the bytes are segmented, buffers are empty
  wherever a callback is set or capturing is stopped, and a callback sees every frame of its
  stream once and in order.
\<close>

section \<open>State\<close>

definition FRAME_HEADER_SIZE :: nat where
  "FRAME_HEADER_SIZE = 9"

record frame_header =
  fh_length :: nat
  fh_type :: nat
  fh_flags :: byte
  fh_streamId :: nat

definition parseFrameHeader :: "bytes \<Rightarrow> nat \<Rightarrow> frame_header option" where
  "parseFrameHeader data offset =
     (if offset + FRAME_HEADER_SIZE > length data then None
      else Some
        \<lparr>fh_length = unat (be24 (data ! offset) (data ! (offset + 1)) (data ! (offset + 2))),
         fh_type = unat (data ! (offset + 3)),
         fh_flags = data ! (offset + 4),
         fh_streamId = unat (be31 (data ! (offset + 5)) (data ! (offset + 6))
                                  (data ! (offset + 7)) (data ! (offset + 8)))\<rparr>)"

record 'c stream_state =
  callback :: "'c option"
  buffer :: "bytes list"
  stopped :: bool

text \<open>\<open>streams\<close> is a JavaScript \<open>Map\<close>: an association list in insertion order.\<close>

record 'c capture =
  globalFrames :: "bytes list"
  streams :: "(nat \<times> 'c stream_state) list"
  partialData :: bytes
  delivered :: "('c \<times> bytes) list"

definition new_capture :: "'c capture" where
  "new_capture = \<lparr>globalFrames = [], streams = [], partialData = [], delivered = []\<rparr>"

definition new_stream :: "'c stream_state" where
  "new_stream = \<lparr>callback = None, buffer = [], stopped = False\<rparr>"

section \<open>Operations\<close>

text \<open>A frame of stream 0 goes to every registered callback, in the order of the \<open>Map\<close>.\<close>

definition broadcast :: "bytes \<Rightarrow> (nat \<times> 'c stream_state) list \<Rightarrow> ('c \<times> bytes) list" where
  "broadcast frame ss =
     concat (map (\<lambda>(i, st). case callback st of None \<Rightarrow> [] | Some cb \<Rightarrow> [(cb, frame)]) ss)"

definition routeFrame :: "nat \<Rightarrow> bytes \<Rightarrow> 'c capture \<Rightarrow> 'c capture" where
  "routeFrame streamId frame c =
     (if streamId = 0 then
        c\<lparr>globalFrames := globalFrames c @ [frame],
          delivered := delivered c @ broadcast frame (streams c)\<rparr>
      else
        let st = (case map_of (streams c) streamId of None \<Rightarrow> new_stream | Some st \<Rightarrow> st) in
        case callback st of
          Some cb \<Rightarrow>
            c\<lparr>streams := AList.update streamId st (streams c),
              delivered := delivered c @ [(cb, frame)]\<rparr>
        | None \<Rightarrow>
            if \<not> stopped st then
              c\<lparr>streams := AList.update streamId (st\<lparr>buffer := buffer st @ [frame]\<rparr>) (streams c)\<rparr>
            else c\<lparr>streams := AList.update streamId st (streams c)\<rparr>)"

definition stopCapturingStream :: "nat \<Rightarrow> 'c capture \<Rightarrow> 'c capture" where
  "stopCapturingStream streamId c =
     (case map_of (streams c) streamId of
        None \<Rightarrow> c\<lparr>streams := AList.update streamId
                  \<lparr>callback = None, buffer = [], stopped = True\<rparr> (streams c)\<rparr>
      | Some st \<Rightarrow> c\<lparr>streams := AList.update streamId
                  (st\<lparr>buffer := [], callback := None, stopped := True\<rparr>) (streams c)\<rparr>)"

text \<open>Returns the global frames and the buffered frames of the stream, with the new state.\<close>

definition addStreamCallback ::
    "nat \<Rightarrow> 'c \<Rightarrow> 'c capture \<Rightarrow> (bytes list \<times> bytes list) \<times> 'c capture" where
  "addStreamCallback streamId cb c =
     (let st = (case map_of (streams c) streamId of None \<Rightarrow> new_stream | Some st \<Rightarrow> st) in
      ((globalFrames c, buffer st),
       c\<lparr>streams := AList.update streamId
           (st\<lparr>callback := Some cb, stopped := False, buffer := []\<rparr>) (streams c)\<rparr>))"

definition removeStreamCallback :: "nat \<Rightarrow> 'c capture \<Rightarrow> 'c capture" where
  "removeStreamCallback streamId c = c\<lparr>streams := AList.delete streamId (streams c)\<rparr>"

definition HTTP2_PREFACE :: bytes where
  "HTTP2_PREFACE =
     buffer_of (''PRI * HTTP/2.0'' @ [CHR 0x0D, CHR 0x0A, CHR 0x0D, CHR 0x0A] @
       ''SM'' @ [CHR 0x0D, CHR 0x0A, CHR 0x0D, CHR 0x0A])"

text \<open>The frame loop: it returns the state and the offset at which it stopped.\<close>

function frame_loop :: "bytes \<Rightarrow> nat \<Rightarrow> 'c capture \<Rightarrow> 'c capture \<times> nat" where
  "frame_loop fullData offset c =
     (if offset < length fullData then
        (case parseFrameHeader fullData offset of
           None \<Rightarrow> (c, offset)
         | Some header \<Rightarrow>
             let frameEnd = offset + FRAME_HEADER_SIZE + fh_length header in
             if frameEnd > length fullData then (c, offset)
             else frame_loop fullData frameEnd
               (routeFrame (fh_streamId header) (js_slice offset frameEnd fullData) c))
      else (c, offset))"
  by pat_completeness auto
termination
  by (relation "measure (\<lambda>(d, k, c). length d - k)") (auto simp: FRAME_HEADER_SIZE_def)

declare frame_loop.simps [simp del]

definition processIncomingData :: "'c capture \<Rightarrow> bytes \<Rightarrow> 'c capture" where
  "processIncomingData c data =
     (let fullData = (if length (partialData c) > 0 then partialData c @ data else data);
          start = (if globalFrames c = [] \<and> length fullData \<ge> length HTTP2_PREFACE
                     \<and> take (length HTTP2_PREFACE) fullData = HTTP2_PREFACE
                   then length HTTP2_PREFACE else 0)
      in case frame_loop fullData start c of
           (c', offset) \<Rightarrow>
             c'\<lparr>partialData := (if offset < length fullData then drop offset fullData else [])\<rparr>)"

section \<open>Cutting bytes into frames\<close>

text \<open>The specification of the loop: the complete frames at the front, and what is left.\<close>

definition first_frame :: "bytes \<Rightarrow> (nat \<times> nat) option" where
  "first_frame data =
     (case parseFrameHeader data 0 of
        None \<Rightarrow> None
      | Some h \<Rightarrow>
          if FRAME_HEADER_SIZE + fh_length h > length data then None
          else Some (fh_streamId h, FRAME_HEADER_SIZE + fh_length h))"

lemma first_frame_bounds: "first_frame data = Some (s, n) \<Longrightarrow> 9 \<le> n \<and> n \<le> length data"
  by (auto simp: first_frame_def FRAME_HEADER_SIZE_def split: option.splits if_splits)

function split_frames :: "bytes \<Rightarrow> (nat \<times> bytes) list \<times> bytes" where
  "split_frames data =
     (case first_frame data of
        None \<Rightarrow> ([], data)
      | Some (s, n) \<Rightarrow> ((s, take n data) # fst (split_frames (drop n data)), snd (split_frames (drop n data))))"
  by pat_completeness auto
termination
  by (relation "measure length") (auto dest: first_frame_bounds)

declare split_frames.simps [simp del]

lemma first_frame_append:
  "first_frame data = Some x \<Longrightarrow> first_frame (data @ extra) = Some x"
  by (auto simp: first_frame_def parseFrameHeader_def FRAME_HEADER_SIZE_def nth_append
      split: if_splits)

lemma parseFrameHeader_drop:
  "k \<le> length data \<Longrightarrow> parseFrameHeader data k = parseFrameHeader (drop k data) 0"
  by (simp add: parseFrameHeader_def FRAME_HEADER_SIZE_def) linarith

lemma split_frames_rest: "first_frame (snd (split_frames data)) = None"
proof (induction data rule: split_frames.induct)
  case (1 data)
  then show ?case by (auto simp: split_frames.simps [of data] split: option.splits)
qed

lemma split_frames_concat:
  "concat (map snd (fst (split_frames data))) @ snd (split_frames data) = data"
proof (induction data rule: split_frames.induct)
  case (1 data)
  then show ?case by (auto simp: split_frames.simps [of data] split: option.splits)
qed

lemma split_frames_None: "first_frame data = None \<Longrightarrow> split_frames data = ([], data)"
  by (simp add: split_frames.simps)

lemma split_frames_append:
  "split_frames (a @ b) =
     (fst (split_frames a) @ fst (split_frames (snd (split_frames a) @ b)),
      snd (split_frames (snd (split_frames a) @ b)))"
proof (induction a rule: split_frames.induct)
  case (1 a)
  show ?case
  proof (cases "first_frame a")
    case None
    then show ?thesis by (simp add: split_frames_None)
  next
    case (Some x)
    obtain s n where x: "x = (s, n)" by force
    have n: "n \<le> length a" using Some x first_frame_bounds by blast
    show ?thesis
      using 1 [OF Some x [symmetric]] Some x n first_frame_append [OF Some, of b]
      by (simp add: split_frames.simps [of a] split_frames.simps [of "a @ b"])
  qed
qed

definition route_all :: "(nat \<times> bytes) list \<Rightarrow> 'c capture \<Rightarrow> 'c capture" where
  "route_all fs c = fold (\<lambda>(s, f). routeFrame s f) fs c"

lemma route_all_simps [simp]:
  "route_all [] c = c"
  "route_all ((s, f) # fs) c = route_all fs (routeFrame s f c)"
  "route_all (fs @ gs) c = route_all gs (route_all fs c)"
  by (simp_all add: route_all_def)

lemma frame_loop_eq:
  "k \<le> length data \<Longrightarrow>
   frame_loop data k c =
     (route_all (fst (split_frames (drop k data))) c,
      length data - length (snd (split_frames (drop k data))))"
proof (induction data k c rule: frame_loop.induct)
  case (1 data k c)
  show ?case
  proof (cases "first_frame (drop k data)")
    case None
    have "frame_loop data k c = (c, k)"
    proof (cases "parseFrameHeader data k")
      case None
      then show ?thesis by (simp add: frame_loop.simps [of data k c])
    next
      case (Some h)
      then have "length data < k + FRAME_HEADER_SIZE + fh_length h"
        using None 1(2) by (auto simp: first_frame_def parseFrameHeader_drop [OF 1(2)] split: if_splits)
      then show ?thesis using Some by (simp add: frame_loop.simps [of data k c])
    qed
    then show ?thesis using 1(2) None by (simp add: split_frames_None)
  next
    case (Some x)
    then obtain h where h: "parseFrameHeader (drop k data) 0 = Some h"
      and x: "x = (fh_streamId h, 9 + fh_length h)"
      and le: "9 + fh_length h \<le> length (drop k data)"
      by (auto simp: first_frame_def FRAME_HEADER_SIZE_def split: option.splits if_splits)
    define e where "e = k + 9 + fh_length h"
    have lt: "k < length data" and e: "e \<le> length data" using le by (auto simp: e_def)
    have hk: "parseFrameHeader data k = Some h" using h parseFrameHeader_drop [OF 1(2)] by simp
    have "frame_loop data k c = frame_loop data e (routeFrame (fh_streamId h) (js_slice k e data) c)"
      using lt hk e by (simp add: frame_loop.simps [of data k c] FRAME_HEADER_SIZE_def e_def Let_def)
    also have "\<dots> = (route_all (fst (split_frames (drop e data))) (routeFrame (fh_streamId h) (js_slice k e data) c),
        length data - length (snd (split_frames (drop e data))))"
      using 1(1) [OF lt hk] e by (simp add: FRAME_HEADER_SIZE_def e_def)
    finally show ?thesis
      using Some x by (simp add: split_frames.simps [of "drop k data"] js_slice_def e_def add.commute add.left_commute)
  qed
qed

definition preface_start :: "'c capture \<Rightarrow> bytes \<Rightarrow> bytes" where
  "preface_start c d =
     (if globalFrames c = [] \<and> starts_with d HTTP2_PREFACE then drop (length HTTP2_PREFACE) d else d)"

lemma process_eq:
  "processIncomingData c data =
     (let fr = split_frames (preface_start c (partialData c @ data)) in
      (route_all (fst fr) c)\<lparr>partialData := snd fr\<rparr>)"
proof -
  define full where "full = partialData c @ data"
  have full: "(if length (partialData c) > 0 then partialData c @ data else data) = full"
    by (simp add: full_def)
  define k where "k = (if globalFrames c = [] \<and> length full \<ge> length HTTP2_PREFACE
      \<and> take (length HTTP2_PREFACE) full = HTTP2_PREFACE then length HTTP2_PREFACE else 0)"
  have k: "k \<le> length full" by (auto simp: k_def)
  have "starts_with full HTTP2_PREFACE \<Longrightarrow> length HTTP2_PREFACE \<le> length full"
    by (auto simp: starts_with_iff)
  then have dk: "drop k full = preface_start c full"
    by (auto simp: k_def preface_start_def starts_with_def)
  define r where "r = snd (split_frames (drop k full))"
  have suf: "r = drop (length full - length r) full"
  proof -
    have "length full \<ge> length r" using split_frames_concat [of "drop k full"]
      by (metis length_append length_drop le_add2 diff_le_self order_trans r_def)
    moreover have "drop k full = concat (map snd (fst (split_frames (drop k full)))) @ r"
      using split_frames_concat [of "drop k full"] by (simp add: r_def)
    then have "full = (take k full @ concat (map snd (fst (split_frames (drop k full))))) @ r"
      by (metis append.assoc append_take_drop_id)
    ultimately show ?thesis by (metis append_eq_conv_conj diff_diff_cancel length_append add_diff_cancel_right')
  qed
  have "processIncomingData c data =
     (route_all (fst (split_frames (drop k full))) c)
       \<lparr>partialData := (if length full - length r < length full then drop (length full - length r) full else [])\<rparr>"
    unfolding processIncomingData_def full k_def [symmetric] Let_def
    by (simp add: frame_loop_eq [OF k] r_def)
  moreover have "(if length full - length r < length full then drop (length full - length r) full else []) = r"
    using suf by (metis length_0_conv diff_zero drop_all not_less order_refl diff_less gr0I length_greater_0_conv)
  ultimately show ?thesis
    by (simp add: Let_def r_def dk flip: full_def)
qed

section \<open>Segmentation\<close>

lemma routeFrame_partial [simp]:
  "routeFrame s f (c\<lparr>partialData := p\<rparr>) = (routeFrame s f c)\<lparr>partialData := p\<rparr>"
  by (auto simp: routeFrame_def Let_def split: option.splits)

lemma route_all_partial [simp]:
  "route_all fs (c\<lparr>partialData := p\<rparr>) = (route_all fs c)\<lparr>partialData := p\<rparr>"
  by (induction fs arbitrary: c) auto

lemma globalFrames_routeFrame:
  "globalFrames (routeFrame s f c) = globalFrames c @ (if s = 0 then [f] else [])"
  by (auto simp: routeFrame_def Let_def split: option.splits)

lemma globalFrames_route_all:
  "globalFrames (route_all fs c) = globalFrames c @ map snd (filter (\<lambda>(s, f). s = 0) fs)"
  by (induction fs arbitrary: c) (auto simp: globalFrames_routeFrame)

lemma process_partial:
  "processIncomingData (c\<lparr>partialData := p\<rparr>) d = processIncomingData (c\<lparr>partialData := []\<rparr>) (p @ d)"
  by (simp add: process_eq preface_start_def Let_def)

lemma process_resume:
  "globalFrames c \<noteq> [] \<or> \<not> starts_with (r @ d) HTTP2_PREFACE \<Longrightarrow>
   processIncomingData (c\<lparr>partialData := r\<rparr>) d =
     (route_all (fst (split_frames (r @ d))) c)\<lparr>partialData := snd (split_frames (r @ d))\<rparr>"
  by (auto simp: process_eq preface_start_def Let_def)

lemma process_started:
  assumes "globalFrames c \<noteq> []"
  shows "processIncomingData (processIncomingData c a) b = processIncomingData c (a @ b)"
proof -
  define fr where "fr = split_frames (partialData c @ a)"
  have g: "globalFrames (route_all fs c) \<noteq> []" for fs
    using assms by (simp add: globalFrames_route_all)
  show ?thesis
    using assms split_frames_append [of "partialData c @ a" b]
    by (simp add: process_eq preface_start_def Let_def g flip: fr_def)
qed

lemma length_preface [simp]: "length HTTP2_PREFACE = 24"
  by (simp add: HTTP2_PREFACE_def)

lemma preface_nth:
  "take 9 HTTP2_PREFACE = [0x50, 0x52, 0x49, 0x20, 0x2A, 0x20, 0x48, 0x54, 0x54]"
  by (simp add: HTTP2_PREFACE_def buffer_of_def byte_of_def)

text \<open>The preface read as a frame header: a length it cannot have, and not stream 0.\<close>

lemma first_frame_preface:
  assumes "take 9 d = take 9 HTTP2_PREFACE"
  shows "first_frame d = Some (s, n) \<Longrightarrow> n = 5263954 \<and> s \<noteq> 0"
proof -
  assume f: "first_frame d = Some (s, n)"
  then have l: "9 \<le> length d" using first_frame_bounds by fastforce
  have d: "d ! i = [0x50, 0x52, 0x49, 0x20, 0x2A, 0x20, 0x48, 0x54, 0x54] ! i" if "i < 9" for i
    using assms that l nth_take [of i 9 d] by (simp add: preface_nth)
  have "unat (be24 0x50 0x52 0x49) = 5263945" by (simp add: unat_be24)
  moreover have "unat (be31 0x20 0x48 0x54 0x54) \<noteq> 0"
    by (simp add: be31_def)
  ultimately show "n = 5263954 \<and> s \<noteq> 0"
    using f l d [of 0] d [of 1] d [of 2] d [of 5] d [of 6] d [of 7] d [of 8]
    by (auto simp: first_frame_def parseFrameHeader_def FRAME_HEADER_SIZE_def
        simp flip: numeral_2_eq_2 split: if_splits)
qed

lemma first_frame_prefix:
  assumes "first_frame (q @ t) = Some (s, n)" and "length q < n"
  shows "first_frame q = None"
proof (rule ccontr)
  assume "first_frame q \<noteq> None"
  then obtain x where x: "first_frame q = Some x" by blast
  then have "x = (s, n)" using first_frame_append [OF x, of t] assms(1) by simp
  then show False using x first_frame_bounds [of q s n] assms(2) by simp
qed

definition seen :: "bytes \<Rightarrow> 'c capture" where
  "seen p = (if length p < 24 then new_capture\<lparr>partialData := p\<rparr> else processIncomingData new_capture p)"

lemma process_seen:
  fixes sf :: bytes and N :: "'c capture"
  defines "N \<equiv> new_capture"
  assumes bytes: "p @ d @ t = HTTP2_PREFACE @ sf @ rest" and sf: "first_frame sf = Some (0, length sf)"
  shows "processIncomingData (seen p) d = (seen (p @ d) :: 'c capture)"
proof -
  have seen_N: "seen p = (if length p < 24 then N\<lparr>partialData := p\<rparr> else processIncomingData N p)" for p
    by (simp add: seen_def N_def)
  have np: "partialData N = []" "globalFrames N = []"
    by (simp_all add: N_def new_capture_def)
  consider "length (p @ d) < 24" | "length p < 24" "24 \<le> length (p @ d)" | "24 \<le> length p"
    by linarith
  then show ?thesis
  proof cases
    case 1
    have pre: "p @ d = take (length (p @ d)) HTTP2_PREFACE"
      using bytes 1 by (metis append.assoc append_eq_conv_conj length_preface less_or_eq_imp_le take_append
          diff_is_0_eq' take_0 append_Nil2)
    have "first_frame (p @ d) = None"
    proof (cases "9 \<le> length (p @ d)")
      case True
      then have "take 9 (p @ d) = take 9 HTTP2_PREFACE" by (subst pre) (simp add: min_def)
      then show ?thesis
        using first_frame_preface [of "p @ d"] first_frame_bounds [of "p @ d"] 1
        by (cases "first_frame (p @ d)") fastforce+
    next
      case False
      then show ?thesis by (simp add: first_frame_def parseFrameHeader_def FRAME_HEADER_SIZE_def)
    qed
    moreover have "\<not> starts_with (p @ d) HTTP2_PREFACE"
    proof
      assume "starts_with (p @ d) HTTP2_PREFACE"
      then obtain r where r: "p @ d = HTTP2_PREFACE @ r" by (auto simp: starts_with_iff)
      have "length (p @ d) = 24 + length r" unfolding r by simp
      then show False using 1 by simp
    qed
    ultimately show ?thesis
      using 1 by (simp add: seen_N process_eq [of "N\<lparr>partialData := p\<rparr>"]
          preface_start_def split_frames_None Let_def)
  next
    case 2
    have "N\<lparr>partialData := []\<rparr> = N"
      by (simp add: N_def new_capture_def)
    then show ?thesis
      using 2 process_partial [where c = N and p = p and d = d] by (simp add: seen_N)
  next
    case 3
    define q where "q = drop 24 p"
    have p: "p = HTTP2_PREFACE @ q"
      using bytes 3 by (metis append_eq_conv_conj append_take_drop_id length_preface q_def take_append
          diff_is_0_eq' take_0 append_Nil2)
    then have q: "q @ d @ t = sf @ rest" using bytes by simp
    have st: "processIncomingData N (HTTP2_PREFACE @ q @ e) =
        (route_all (fst (split_frames (q @ e))) N)\<lparr>partialData := snd (split_frames (q @ e))\<rparr>"
      for e :: bytes
      by (simp add: process_eq preface_start_def np Let_def)
    have "processIncomingData (processIncomingData N p) d = processIncomingData N (p @ d)"
    proof (cases "globalFrames (processIncomingData N p) = []")
      case False
      have "processIncomingData (processIncomingData N p) d =
          (route_all (fst (split_frames (snd (split_frames q) @ d))) (route_all (fst (split_frames q)) N))
             \<lparr>partialData := snd (split_frames (snd (split_frames q) @ d))\<rparr>"
        using False st [of "[]"] process_resume [of "route_all (fst (split_frames q)) N"]
        by (simp add: p)
      also have "\<dots> = processIncomingData N (p @ d)"
        using st [of d] split_frames_append [of q d] by (simp add: p)
      finally show ?thesis .
    next
      case True
      have short: "length q < length sf"
      proof (rule ccontr)
        assume "\<not> length q < length sf"
        then have "q = sf @ drop (length sf) q"
          using q by (metis append_eq_append_conv_if append_eq_conv_conj append_take_drop_id not_less)
        then have "first_frame q = Some (0, length sf)" using first_frame_append [OF sf] by metis
        then have "globalFrames (processIncomingData N p) \<noteq> []"
          using st [of "[]"] by (simp add: p globalFrames_route_all globalFrames_routeFrame split_frames.simps [of q])
        with True show False by simp
      qed
      have whole: "first_frame (sf @ rest) = Some (0, length sf)" using first_frame_append [OF sf] .
      then have "first_frame q = None"
        using first_frame_prefix [of q "d @ t"] short q by simp
      then have pq: "processIncomingData N p = N\<lparr>partialData := q\<rparr>"
        using st [of "[]"] by (simp add: p split_frames_None)
      have "\<not> starts_with (q @ d) HTTP2_PREFACE"
      proof
        assume "starts_with (q @ d) HTTP2_PREFACE"
        then have "starts_with (sf @ rest) HTTP2_PREFACE"
          using q starts_with_extend [of "q @ d" HTTP2_PREFACE t] by simp
        then obtain r where r: "sf @ rest = HTTP2_PREFACE @ r" by (auto simp: starts_with_iff)
        have "take 9 (sf @ rest) = take 9 HTTP2_PREFACE" unfolding r by simp
        with whole show False using first_frame_preface by blast
      qed
      then show ?thesis
        unfolding pq using st [of d] process_resume [of N q d] by (simp add: p)
    qed
    then show ?thesis using 3 by (simp add: seen_N)
  qed
qed

lemma capture_run:
  assumes "concat chunks @ t = HTTP2_PREFACE @ sf @ rest" and "first_frame sf = Some (0, length sf)"
  shows "foldl processIncomingData (new_capture :: 'c capture) chunks = seen (concat chunks)"
  using assms(1)
proof (induction chunks arbitrary: t rule: rev_induct)
  case Nil
  then show ?case by (simp add: seen_def new_capture_def)
next
  case (snoc d chunks)
  have "foldl processIncomingData (new_capture :: 'c capture) chunks = seen (concat chunks)"
    using snoc.IH [of "d @ t"] snoc.prems by simp
  then show ?case
    using process_seen [of "concat chunks" d t sf rest] snoc.prems assms(2) by simp
qed

section \<open>Buffers and callbacks\<close>

text \<open>A stream holds frames only while nobody listens and capturing is on.\<close>

definition stream_ok :: "'c stream_state \<Rightarrow> bool" where
  "stream_ok st \<longleftrightarrow>
     (callback st \<noteq> None \<longrightarrow> buffer st = [] \<and> \<not> stopped st) \<and> (stopped st \<longrightarrow> buffer st = [])"

definition capture_ok :: "'c capture \<Rightarrow> bool" where
  "capture_ok c \<longleftrightarrow>
     distinct (map fst (streams c)) \<and> first_frame (partialData c) = None \<and>
     (\<forall>s st. map_of (streams c) s = Some st \<longrightarrow> stream_ok st)"

text \<open>Everything that can happen to a capture: data arrives, the request handler stops it, the
  echo endpoint adds or removes its callback.\<close>

inductive capture_step :: "'c capture \<Rightarrow> 'c capture \<Rightarrow> bool" where
  data: "capture_step c (processIncomingData c d)"
| stop: "capture_step c (stopCapturingStream s c)"
| add: "capture_step c (snd (addStreamCallback s cb c))"
| remove: "capture_step c (removeStreamCallback s c)"

inductive capture_reachable :: "'c capture \<Rightarrow> bool" where
  init: "capture_reachable new_capture"
| step: "capture_reachable c \<Longrightarrow> capture_step c c' \<Longrightarrow> capture_reachable c'"

inductive_cases capture_stepE: "capture_step c c'"

lemmas alist_map = update_conv' delete_conv' distinct_update distinct_delete

lemma stream_ok_new [simp]: "stream_ok new_stream"
  by (simp add: stream_ok_def new_stream_def)

lemma partialData_routeFrame [simp]: "partialData (routeFrame s f c) = partialData c"
  by (auto simp: routeFrame_def Let_def split: option.splits)

lemma routeFrame_ok: "capture_ok c \<Longrightarrow> capture_ok (routeFrame s f c)"
  by (auto simp: capture_ok_def routeFrame_def Let_def alist_map stream_ok_def new_stream_def
      split: option.splits if_splits)

lemma route_all_ok: "capture_ok c \<Longrightarrow> capture_ok (route_all fs c)"
  by (induction fs arbitrary: c) (auto simp: routeFrame_ok)

lemma process_ok: "capture_ok c \<Longrightarrow> capture_ok (processIncomingData c d)"
  using route_all_ok [of c] split_frames_rest
  by (fastforce simp: process_eq Let_def capture_ok_def)

lemma stop_ok: "capture_ok c \<Longrightarrow> capture_ok (stopCapturingStream s c)"
  by (auto simp: capture_ok_def stopCapturingStream_def alist_map stream_ok_def
      split: option.splits if_splits)

lemma add_ok: "capture_ok c \<Longrightarrow> capture_ok (snd (addStreamCallback s cb c))"
  by (auto simp: capture_ok_def addStreamCallback_def Let_def alist_map stream_ok_def
      split: option.splits if_splits)

lemma remove_ok: "capture_ok c \<Longrightarrow> capture_ok (removeStreamCallback s c)"
  by (auto simp: capture_ok_def removeStreamCallback_def alist_map split: if_splits)

lemma new_capture_ok: "capture_ok new_capture"
  by (simp add: capture_ok_def new_capture_def first_frame_def parseFrameHeader_def FRAME_HEADER_SIZE_def)

lemma capture_step_ok: "capture_step c c' \<Longrightarrow> capture_ok c \<Longrightarrow> capture_ok c'"
  by (auto elim!: capture_stepE intro: process_ok stop_ok add_ok remove_ok)

section \<open>Delivery to a callback\<close>

datatype 'c cap_op = Frame nat bytes | Stop nat | Add nat 'c | Remove nat

fun cap_step :: "'c cap_op \<Rightarrow> 'c capture \<Rightarrow> 'c capture" where
  "cap_step (Frame s f) c = routeFrame s f c"
| "cap_step (Stop s) c = stopCapturingStream s c"
| "cap_step (Add s cb) c = snd (addStreamCallback s cb c)"
| "cap_step (Remove s) c = removeStreamCallback s c"

definition cap_run :: "'c cap_op list \<Rightarrow> 'c capture \<Rightarrow> 'c capture" where
  "cap_run = fold cap_step"

text \<open>Operations that leave the capture state of stream \<open>s\<close> and the callback \<open>cb\<close> alone.\<close>

fun spares :: "nat \<Rightarrow> 'c \<Rightarrow> 'c cap_op \<Rightarrow> bool" where
  "spares s cb (Frame t f) \<longleftrightarrow> True"
| "spares s cb (Stop t) \<longleftrightarrow> t \<noteq> s"
| "spares s cb (Add t k) \<longleftrightarrow> t \<noteq> s \<and> k \<noteq> cb"
| "spares s cb (Remove t) \<longleftrightarrow> t \<noteq> s"

text \<open>The frames of a run that belong to one of the streams in \<open>S\<close>.\<close>

fun op_frames :: "nat set \<Rightarrow> 'c cap_op \<Rightarrow> bytes list" where
  "op_frames S (Frame t f) = (if t \<in> S then [f] else [])"
| "op_frames S (Stop t) = []"
| "op_frames S (Add t k) = []"
| "op_frames S (Remove t) = []"

definition frames_on :: "nat set \<Rightarrow> 'c cap_op list \<Rightarrow> bytes list" where
  "frames_on S ops = concat (map (op_frames S) ops)"

definition deliveries_to :: "'c \<Rightarrow> 'c capture \<Rightarrow> bytes list" where
  "deliveries_to cb c = map snd (filter (\<lambda>(k, f). k = cb) (delivered c))"

definition nobody :: "'c \<Rightarrow> 'c capture \<Rightarrow> bool" where
  "nobody cb c \<longleftrightarrow> (\<forall>s st. map_of (streams c) s = Some st \<longrightarrow> callback st \<noteq> Some cb)"

definition only_at :: "nat \<Rightarrow> 'c \<Rightarrow> 'c capture \<Rightarrow> bool" where
  "only_at s cb c \<longleftrightarrow>
     (\<exists>st. map_of (streams c) s = Some st \<and> callback st = Some cb) \<and>
     (\<forall>t st. map_of (streams c) t = Some st \<longrightarrow> t \<noteq> s \<longrightarrow> callback st \<noteq> Some cb)"

definition keys_ok :: "'c capture \<Rightarrow> bool" where
  "keys_ok c \<longleftrightarrow> distinct (map fst (streams c))"

lemma broadcast_nobody:
  "distinct (map fst ss) \<Longrightarrow> (\<forall>s st. map_of ss s = Some st \<longrightarrow> callback st \<noteq> Some cb) \<Longrightarrow>
   filter (\<lambda>(k, f). k = cb) (broadcast f ss) = []"
proof (induction ss)
  case (Cons p ss)
  obtain i st where p: "p = (i, st)" by force
  have "\<forall>s st. map_of ss s = Some st \<longrightarrow> callback st \<noteq> Some cb"
    using Cons.prems p by (auto dest: map_of_SomeD split: if_splits) (metis fst_conv image_eqI map_of_SomeD)
  moreover have "callback st \<noteq> Some cb"
    using Cons.prems(2) [rule_format, of i st] p by simp
  ultimately show ?case
    using Cons p by (auto simp: broadcast_def split: option.splits)
qed (simp add: broadcast_def)

lemma broadcast_only:
  "distinct (map fst ss) \<Longrightarrow> map_of ss s = Some st \<Longrightarrow> callback st = Some cb \<Longrightarrow>
   (\<forall>t st. map_of ss t = Some st \<longrightarrow> t \<noteq> s \<longrightarrow> callback st \<noteq> Some cb) \<Longrightarrow>
   map snd (filter (\<lambda>(k, f). k = cb) (broadcast f ss)) = [f]"
proof (induction ss)
  case (Cons p ss)
  obtain i u where p: "p = (i, u)" by force
  have tail: "map_of ss t = Some v \<Longrightarrow> t \<noteq> i" for t v
    using Cons.prems(1) p by (force dest: map_of_SomeD)
  show ?case
  proof (cases "i = s")
    case True
    have "filter (\<lambda>(k, f). k = cb) (broadcast f ss) = []"
      using Cons.prems p True tail by (intro broadcast_nobody) (auto split: if_splits)
    then show ?thesis using Cons.prems p True by (simp add: broadcast_def)
  next
    case False
    then have "callback u \<noteq> Some cb" using Cons.prems p by (auto split: if_splits)
    then have "filter (\<lambda>(k, f). k = cb) (broadcast f (p # ss)) = filter (\<lambda>(k, f). k = cb) (broadcast f ss)"
      using p by (simp add: broadcast_def split: option.splits)
    moreover have "map snd (filter (\<lambda>(k, f). k = cb) (broadcast f ss)) = [f]"
      using Cons p False tail by (intro Cons.IH) (auto split: if_splits)
    ultimately show ?thesis by simp
  qed
qed simp

lemma keys_ok_step: "keys_ok c \<Longrightarrow> keys_ok (cap_step op c)"
  by (cases op)
    (auto simp: keys_ok_def routeFrame_def stopCapturingStream_def addStreamCallback_def
      removeStreamCallback_def Let_def alist_map split: option.splits)

text \<open>While the callback is registered it receives every frame of its stream and of stream 0.\<close>

lemma only_at_step:
  assumes "only_at s cb c" "keys_ok c" "spares s cb op" "s \<noteq> 0"
  shows "only_at s cb (cap_step op c)"
  using assms
  by (cases op)
    (auto simp: only_at_def routeFrame_def stopCapturingStream_def addStreamCallback_def
      removeStreamCallback_def Let_def alist_map new_stream_def keys_ok_def
      split: option.splits if_splits)

lemma deliveries_step:
  assumes "only_at s cb c" "keys_ok c" "spares s cb op" "s \<noteq> 0"
  shows "deliveries_to cb (cap_step op c) = deliveries_to cb c @ op_frames {0, s} op"
proof (cases op)
  case (Frame t f)
  obtain st where st: "map_of (streams c) s = Some st" "callback st = Some cb"
    and others: "\<forall>t st. map_of (streams c) t = Some st \<longrightarrow> t \<noteq> s \<longrightarrow> callback st \<noteq> Some cb"
    using assms by (auto simp: only_at_def)
  have "map snd (filter (\<lambda>(k, f). k = cb) (broadcast f (streams c))) = [f]"
    using assms st others by (intro broadcast_only) (auto simp: keys_ok_def)
  then show ?thesis
    using Frame assms st others
    by (auto simp: deliveries_to_def routeFrame_def Let_def new_stream_def split: option.splits)
qed (auto simp: deliveries_to_def stopCapturingStream_def addStreamCallback_def
      removeStreamCallback_def Let_def split: option.splits)

lemma deliveries_run:
  "only_at s cb c \<Longrightarrow> keys_ok c \<Longrightarrow> s \<noteq> 0 \<Longrightarrow> list_all (spares s cb) ops \<Longrightarrow>
   deliveries_to cb (cap_run ops c) = deliveries_to cb c @ frames_on {0, s} ops"
proof (induction ops arbitrary: c)
  case (Cons op ops)
  then show ?case
    using deliveries_step [of s cb c op] only_at_step [of s cb c op] keys_ok_step [of c op]
    by (simp add: cap_run_def frames_on_def)
qed (simp add: cap_run_def frames_on_def)

text \<open>Before the callback is registered, the frames wait in the buffer of the stream.\<close>

definition waiting :: "nat \<Rightarrow> 'c \<Rightarrow> 'c capture \<Rightarrow> bool" where
  "waiting s cb c \<longleftrightarrow>
     nobody cb c \<and> keys_ok c \<and>
     (\<forall>st. map_of (streams c) s = Some st \<longrightarrow> callback st = None \<and> \<not> stopped st)"

definition buffered :: "nat \<Rightarrow> 'c capture \<Rightarrow> bytes list" where
  "buffered s c = (case map_of (streams c) s of None \<Rightarrow> [] | Some st \<Rightarrow> buffer st)"

lemma waiting_step:
  assumes "waiting s cb c" "spares s cb op"
  shows "waiting s cb (cap_step op c)"
  using assms keys_ok_step [of c op]
  by (cases op)
    (auto simp: waiting_def nobody_def routeFrame_def stopCapturingStream_def addStreamCallback_def
      removeStreamCallback_def Let_def alist_map new_stream_def keys_ok_def
      split: option.splits if_splits)

lemma buffered_step:
  assumes "waiting s cb c" "spares s cb op" "s \<noteq> 0"
  shows "buffered s (cap_step op c) = buffered s c @ op_frames {s} op"
    and "globalFrames (cap_step op c) = globalFrames c @ op_frames {0} op"
    and "deliveries_to cb (cap_step op c) = deliveries_to cb c"
proof -
  show "buffered s (cap_step op c) = buffered s c @ op_frames {s} op"
    using assms
    by (cases op)
      (auto simp: waiting_def buffered_def routeFrame_def stopCapturingStream_def addStreamCallback_def
        removeStreamCallback_def Let_def alist_map new_stream_def keys_ok_def
        split: option.splits if_splits)
  show "globalFrames (cap_step op c) = globalFrames c @ op_frames {0} op"
    by (cases op)
      (auto simp: globalFrames_routeFrame stopCapturingStream_def addStreamCallback_def
        removeStreamCallback_def Let_def split: option.splits)
  have "filter (\<lambda>(k, f). k = cb) (broadcast f (streams c)) = []" for f
    using assms by (intro broadcast_nobody) (auto simp: waiting_def nobody_def keys_ok_def)
  then show "deliveries_to cb (cap_step op c) = deliveries_to cb c"
    using assms
    by (cases op)
      (auto simp: waiting_def nobody_def deliveries_to_def routeFrame_def stopCapturingStream_def
        addStreamCallback_def removeStreamCallback_def Let_def new_stream_def
        split: option.splits if_splits)
qed

lemma waiting_run:
  "waiting s cb c \<Longrightarrow> s \<noteq> 0 \<Longrightarrow> list_all (spares s cb) ops \<Longrightarrow>
   waiting s cb (cap_run ops c) \<and> buffered s (cap_run ops c) = buffered s c @ frames_on {s} ops \<and>
   globalFrames (cap_run ops c) = globalFrames c @ frames_on {0} ops \<and>
   deliveries_to cb (cap_run ops c) = deliveries_to cb c"
proof (induction ops arbitrary: c)
  case (Cons op ops)
  then show ?case
    using buffered_step [of s cb c op] waiting_step [of s cb c op]
    by (simp add: cap_run_def frames_on_def)
qed (simp add: cap_run_def frames_on_def)

lemma add_callback:
  assumes "waiting s cb c"
  shows "only_at s cb (snd (addStreamCallback s cb c))" "keys_ok (snd (addStreamCallback s cb c))"
    "fst (addStreamCallback s cb c) = (globalFrames c, buffered s c)"
    "deliveries_to cb (snd (addStreamCallback s cb c)) = deliveries_to cb c"
  using assms
  by (auto simp: waiting_def nobody_def only_at_def keys_ok_def addStreamCallback_def Let_def
      alist_map buffered_def deliveries_to_def new_stream_def split: option.splits if_splits)

section \<open>Properties\<close>

text \<open>
  C4: for a connection that opens as HTTP/2 demands (the preface, then a frame of stream 0),
  however its bytes are cut into chunks, the capture ends in the same state: the frames of
  the bytes after the preface have been routed in order, the incomplete tail is kept, and
  frames and tail together are exactly those bytes.
\<close>

theorem capture_segmentation:
  assumes "concat chunks = HTTP2_PREFACE @ settings @ rest"
    and "first_frame settings = Some (0, length settings)"
  shows "foldl processIncomingData (new_capture :: 'c capture) chunks =
      (route_all (fst (split_frames (settings @ rest))) new_capture)
        \<lparr>partialData := snd (split_frames (settings @ rest))\<rparr>
    \<and> concat (map snd (fst (split_frames (settings @ rest)))) @ snd (split_frames (settings @ rest))
      = settings @ rest"
proof
  have "foldl processIncomingData (new_capture :: 'c capture) chunks = seen (concat chunks)"
    using capture_run [of chunks "[]" settings rest] assms by simp
  also have "\<dots> = (route_all (fst (split_frames (settings @ rest))) new_capture)
      \<lparr>partialData := snd (split_frames (settings @ rest))\<rparr>"
    by (simp add: assms(1) seen_def process_eq preface_start_def Let_def)
      (simp add: new_capture_def)
  finally show "foldl processIncomingData (new_capture :: 'c capture) chunks = \<dots>" .
qed (rule split_frames_concat)

theorem capture_segmentation_witness:
  "foldl processIncomingData (new_capture :: nat capture)
     [take 5 HTTP2_PREFACE, drop 5 HTTP2_PREFACE @ [0, 0], [0, 4, 0, 0, 0], [0, 0, 7]] =
   new_capture\<lparr>globalFrames := [[0, 0, 0, 4, 0, 0, 0, 0, 0]], partialData := [7]\<rparr>"
proof -
  define sf :: bytes where "sf = [0, 0, 0, 4, 0, 0, 0, 0, 0]"
  have f: "first_frame sf = Some (0, length sf)" unfolding sf_def by code_simp
  have fs: "split_frames (sf @ [7]) = ([(0, sf)], [7])"
    using f first_frame_append [OF f, of "[7]"]
    by (simp add: split_frames.simps [of "sf @ [7]"] split_frames_None first_frame_def
        parseFrameHeader_def FRAME_HEADER_SIZE_def)
  have "concat [take 5 HTTP2_PREFACE, drop 5 HTTP2_PREFACE @ [0, 0], [0, 4, 0, 0, 0], [0, 0, 7]] =
      HTTP2_PREFACE @ sf @ [7]"
    by (simp add: sf_def)
  from capture_segmentation [OF this f, where 'c = nat] show ?thesis
    unfolding fs by (simp add: routeFrame_def new_capture_def broadcast_def sf_def)
qed

text \<open>
  in every reachable capture, a stream with a callback or with capturing stopped buffers
  no frames, no stream is both listened to and stopped, each stream has one entry, and what
  is kept of the input is less than one frame.
\<close>

theorem capture_invariant: "capture_reachable c \<Longrightarrow> capture_ok c"
  by (induction rule: capture_reachable.induct) (auto intro: capture_step_ok new_capture_ok)

theorem capture_invariant_witness:
  "capture_ok (snd (addStreamCallback 1 (0::nat) (stopCapturingStream 1 new_capture)))"
  by (rule capture_invariant, rule capture_reachable.step [OF _ capture_step.add],
      rule capture_reachable.step [OF capture_reachable.init capture_step.stop])

text \<open>
  C20: frames that arrive on a request's stream and on stream 0 before its callback is added
  are returned by \<open>addStreamCallback\<close>, and all that arrive afterwards are delivered to the
  callback: together every frame once, in order of arrival, whatever happens on other streams.
\<close>

theorem callback_sees_every_frame:
  assumes "s \<noteq> 0" and "list_all (spares s cb) before" and "list_all (spares s cb) after"
    and "addStreamCallback s cb (cap_run before new_capture) = ((globals, mine), c)"
  shows "globals = frames_on {0} before \<and> mine = frames_on {s} before
    \<and> deliveries_to cb (cap_run after c) = frames_on {0, s} after"
proof -
  have w: "waiting s cb (new_capture :: 'a capture)"
    by (simp add: waiting_def nobody_def keys_ok_def new_capture_def)
  define c1 where "c1 = cap_run before new_capture"
  have c1: "waiting s cb c1" "buffered s c1 = frames_on {s} before" "globalFrames c1 = frames_on {0} before"
    "deliveries_to cb c1 = []"
    using waiting_run [OF w assms(1,2)] by (auto simp: c1_def new_capture_def buffered_def deliveries_to_def)
  have c: "c = snd (addStreamCallback s cb c1)" and gm: "(globals, mine) = fst (addStreamCallback s cb c1)"
    using assms(4) by (simp_all add: c1_def)
  note add = add_callback [OF c1(1)]
  then show ?thesis
    using deliveries_run [of s cb c after] assms(1,3) c1 gm c by auto
qed

theorem callback_sees_every_frame_witness:
  "frames_on {0} [Frame 0 [4], Frame 3 [1], Frame 1 [2] :: nat cap_op] = [[4]] \<and>
   frames_on {1} [Frame 0 [4], Frame 3 [1], Frame 1 [2] :: nat cap_op] = [[2]] \<and>
   deliveries_to 9 (cap_run [Frame 1 [5], Stop 3, Frame 0 [6]]
     (snd (addStreamCallback 1 (9::nat) (cap_run [Frame 0 [4], Frame 3 [1], Frame 1 [2]] new_capture))))
     = [[5], [6]]"
proof -
  obtain g m c where r: "addStreamCallback 1 (9::nat)
      (cap_run [Frame 0 [4], Frame 3 [1], Frame 1 [2]] new_capture) = ((g, m), c)"
    by (metis prod.exhaust)
  have "g = frames_on {0} [Frame 0 [4], Frame 3 [1], Frame 1 [2] :: nat cap_op]
    \<and> m = frames_on {1} [Frame 0 [4], Frame 3 [1], Frame 1 [2] :: nat cap_op]
    \<and> deliveries_to 9 (cap_run [Frame 1 [5], Stop 3, Frame 0 [6]] c) =
      frames_on {0, 1} [Frame 1 [5], Stop 3, Frame 0 [6] :: nat cap_op]"
    by (rule callback_sees_every_frame [OF _ _ _ r]) simp_all
  then show ?thesis unfolding r by (simp add: frames_on_def)
qed

end
