(* ===== verification/Connection.thy ===== *)
theory Connection
  imports Proxy_Protocol Frame_Capture
begin

text \<open>
  The connection processor of \<^verbatim>\<open>src/process-connection.ts\<close> (\<open>ConnectionProcessor\<close>): it
  strips a PROXY header when it trusts one, sniffs the protocol from the first bytes and
  hands the connection to the TLS, HTTP/2 or HTTP/1 handler. The processor is driven by
  \<open>readable\<close> events; \<open>connection.read()\<close> returns what the stream has buffered. The laws
  are: header removal does not depend on segmentation, waiting is bounded, and when the
  sniffing is right.
\<close>

section \<open>Protocol sniffing\<close>

definition TLS_HANDSHAKE_BYTE :: byte where
  "TLS_HANDSHAKE_BYTE = 0x16"

definition isTLS :: "bytes \<Rightarrow> bool" where
  "isTLS data = (case data of [] \<Rightarrow> False | b # _ \<Rightarrow> b = TLS_HANDSHAKE_BYTE)"

definition isHTTP2 :: "bytes \<Rightarrow> bool" where
  "isHTTP2 data =
     (let n = min (length HTTP2_PREFACE) (length data) in take n data = take n HTTP2_PREFACE)"

text \<open>The methods of Node's \<open>http.METHODS\<close>.\<close>

definition http_METHODS :: "string list" where
  "http_METHODS =
    [''ACL'', ''BIND'', ''CHECKOUT'', ''CONNECT'', ''COPY'', ''DELETE'', ''GET'', ''HEAD'', ''LINK'',
     ''LOCK'', ''M-SEARCH'', ''MERGE'', ''MKACTIVITY'', ''MKCALENDAR'', ''MKCOL'', ''MOVE'', ''NOTIFY'',
     ''OPTIONS'', ''PATCH'', ''POST'', ''PROPFIND'', ''PROPPATCH'', ''PURGE'', ''PUT'', ''QUERY'',
     ''REBIND'', ''REPORT'', ''SEARCH'', ''SOURCE'', ''SUBSCRIBE'', ''TRACE'', ''UNBIND'', ''UNLINK'',
     ''UNLOCK'', ''UNSUBSCRIBE'']"

definition METHOD_PREFIXES :: "bytes list" where
  "METHOD_PREFIXES = map (\<lambda>m. buffer_of (m @ '' '')) http_METHODS"

definition LONGEST_PREFIX :: nat where
  "LONGEST_PREFIX = foldr max (map length METHOD_PREFIXES) 0"

text \<open>
  The code compares decoded text. Method names are ASCII and any other byte decodes to
  something outside ASCII at the position of the first such byte, so comparing the bytes is
  the same test.
\<close>

definition couldBeHttp :: "bytes \<Rightarrow> bool" where
  "couldBeHttp data =
     (let initial = take LONGEST_PREFIX data in
      list_ex (\<lambda>m. let n = min (length m) (length initial) in take n initial = take n m)
        METHOD_PREFIXES)"

datatype route = TlsRoute | Http2Route | Http1Route | RejectRoute

definition sniff :: "bytes \<Rightarrow> route" where
  "sniff data =
     (if isTLS data then TlsRoute
      else if isHTTP2 data then Http2Route
      else if couldBeHttp data then Http1Route
      else RejectRoute)"

section \<open>The processor\<close>

text \<open>
  What the processor is waiting for. \<open>AwaitSkip\<close> is the inner \<open>once('readable')\<close> that is
  registered after a null read: it calls \<open>processProtocolData\<close> on an empty buffer, which
  registers the next listener without reading.
\<close>

datatype phase =
    AwaitProxy bytes
  | AwaitData
  | AwaitSkip
  | Routed route bytes
  | Destroyed

record conn =
  pending :: bytes
  phase :: phase
  proxyInfo :: "proxy_data option"
  receivedData :: "bytes list option"

definition new_conn :: conn where
  "new_conn = \<lparr>pending = [], phase = AwaitData, proxyInfo = None, receivedData = None\<rparr>"

definition conn_read :: "conn \<Rightarrow> bytes option \<times> conn" where
  "conn_read c = (if pending c = [] then (None, c) else (Some (pending c), c\<lparr>pending := []\<rparr>))"

text \<open>
  \<open>unshift\<close> puts the bytes back for the handler (TLS and HTTP/1); the HTTP/2 wrapper takes
  them as its initial data. \<open>Routed r d\<close> records the handler called and the bytes it sees
  first. An unrecognised connection is destroyed.
\<close>

definition processProtocolData :: "conn \<Rightarrow> bytes \<Rightarrow> conn" where
  "processProtocolData c initial =
     (if length initial = 0 then c\<lparr>phase := AwaitData\<rparr>
      else if isTLS initial then
        c\<lparr>pending := initial @ pending c, phase := Routed TlsRoute initial\<rparr>
      else if isHTTP2 initial then
        c\<lparr>phase := Routed Http2Route initial\<rparr>
      else if couldBeHttp initial then
        c\<lparr>pending := initial @ pending c, receivedData := Some [], phase := Routed Http1Route initial\<rparr>
      else c\<lparr>phase := Destroyed\<rparr>)"

definition PROXY_SNIFF_LIMIT :: nat where
  "PROXY_SNIFF_LIMIT = 256"

definition PROXY_HEADER_LIMIT :: nat where
  "PROXY_HEADER_LIMIT = 512"

definition parseProxyProtocolHeader :: "conn \<Rightarrow> bytes \<Rightarrow> conn" where
  "parseProxyProtocolHeader c0 bufferedData =
     (case conn_read c0 of
        (chunk, c) \<Rightarrow>
          let data = (case chunk of Some d \<Rightarrow> bufferedData @ d | None \<Rightarrow> bufferedData) in
          if length data = 0 then c\<lparr>phase := AwaitProxy data\<rparr>
          else
            let type = detectProxyProtocol data in
            if type = Incomplete then
              (if length data > PROXY_SNIFF_LIMIT then processProtocolData c data
               else c\<lparr>phase := AwaitProxy data\<rparr>)
            else if type = NoProxy then processProtocolData c data
            else
              case parseProxyProtocol data of
                None \<Rightarrow>
                  if length data > PROXY_HEADER_LIMIT then c\<lparr>phase := Destroyed\<rparr>
                  else c\<lparr>phase := AwaitProxy data\<rparr>
              | Some result \<Rightarrow>
                  let c' = (if sourceAddress result \<noteq> None \<and> sourceAddress result \<noteq> Some []
                            then c\<lparr>proxyInfo := Some (proxy_data.truncate result)\<rparr> else c)
                  in processProtocolData c' (remainingData result))"

definition processInitialConnection :: "bool \<Rightarrow> conn \<Rightarrow> conn" where
  "processInitialConnection trustProxyProtocol c =
     (if trustProxyProtocol then parseProxyProtocolHeader c [] else processProtocolData c [])"

definition processConnection :: "conn \<Rightarrow> conn" where
  "processConnection c = processProtocolData c []"

text \<open>
  A \<open>readable\<close> event, after the bytes \<open>d\<close> have been added to the stream's buffer; \<open>d = []\<close>
  is an event without new data. The listener registered in the current phase runs; once the
  connection has been handed over, its bytes belong to the handler.
\<close>

definition on_readable :: "conn \<Rightarrow> bytes \<Rightarrow> conn" where
  "on_readable c0 d =
     (let c = c0\<lparr>pending := pending c0 @ d\<rparr> in
      case phase c of
        AwaitProxy buf \<Rightarrow> parseProxyProtocolHeader c buf
      | AwaitData \<Rightarrow>
          (case conn_read c of
             (None, c') \<Rightarrow> c'\<lparr>phase := AwaitSkip\<rparr>
           | (Some data, c') \<Rightarrow> processProtocolData c' data)
      | AwaitSkip \<Rightarrow> processProtocolData c []
      | Routed r i \<Rightarrow> c
      | Destroyed \<Rightarrow> c0)"

definition feed :: "conn \<Rightarrow> bytes list \<Rightarrow> conn" where
  "feed = foldl on_readable"

section \<open>Laws of the sniffing\<close>

text \<open>The connection state after the first bytes \<open>p\<close> have been looked at.\<close>

definition route_phase :: "bytes \<Rightarrow> phase" where
  "route_phase p = (case sniff p of RejectRoute \<Rightarrow> Destroyed | r \<Rightarrow> Routed r p)"

lemma processProtocolData_phase:
  "phase (processProtocolData c d) = (if d = [] then AwaitData else route_phase d)"
  by (simp add: processProtocolData_def route_phase_def sniff_def)

lemma processProtocolData_proxyInfo [simp]: "proxyInfo (processProtocolData c d) = proxyInfo c"
  by (simp add: processProtocolData_def)

lemma method_prefixes_not_PRI:
  "list_all (\<lambda>m. take 3 m \<noteq> buffer_of ''PRI'' \<and> 4 \<le> length m \<and> length m \<le> 12
     \<and> hd m \<noteq> 0x16) METHOD_PREFIXES"
  by (simp add: METHOD_PREFIXES_def http_METHODS_def buffer_of_def byte_of_def)

lemma LONGEST_PREFIX_eq [simp]: "LONGEST_PREFIX = 12"
  by (simp add: LONGEST_PREFIX_def METHOD_PREFIXES_def http_METHODS_def)

lemma couldBeHttp_prefix:
  assumes "m \<in> set METHOD_PREFIXES" and "p @ q = m @ rest"
  shows "couldBeHttp p"
proof -
  have "length m \<le> 12" using assms(1) method_prefixes_not_PRI by (auto simp: list_all_iff)
  let ?n = "min (length m) (length (take 12 p))"
  have "take ?n (take 12 p) = take ?n (p @ q)" by (simp add: min_def)
  also have "\<dots> = take ?n m" unfolding assms(2) by simp
  finally show ?thesis using assms(1) by (auto simp: couldBeHttp_def list_ex_iff Let_def)
qed

lemma isHTTP2_iff:
  "isHTTP2 p \<longleftrightarrow> starts_with p HTTP2_PREFACE \<or> starts_with HTTP2_PREFACE p"
  by (auto simp: isHTTP2_def starts_with_def Let_def min_def)

lemma isHTTP2_take3:
  assumes "isHTTP2 p" and "3 \<le> length p"
  shows "take 3 p = buffer_of ''PRI''"
proof -
  have pre: "take 3 HTTP2_PREFACE = buffer_of ''PRI''"
    by (simp add: HTTP2_PREFACE_def buffer_of_def)
  show ?thesis
    using assms pre unfolding isHTTP2_iff starts_with_iff
    by (auto) (metis append_take_drop_id append_eq_conv_conj take_append take_take min_def diff_is_0_eq' take_0 append_Nil2)
qed

lemma isHTTP2_short:
  assumes "length p < 3"
  shows "isHTTP2 p \<longleftrightarrow> p = take (length p) (buffer_of ''PR'')"
proof -
  have "take 2 HTTP2_PREFACE = buffer_of ''PR''" by (simp add: HTTP2_PREFACE_def buffer_of_def)
  then have "take (length p) HTTP2_PREFACE = take (length p) (buffer_of ''PR'')"
    using assms by (metis Suc_leI eval_nat_numeral(3) less_Suc_eq_le min.absorb1 take_take)
  moreover have "min 24 (length p) = length p" using assms by simp
  ultimately show ?thesis by (simp add: isHTTP2_def Let_def)
qed

section \<open>Laws of the processor\<close>

lemma new_conn_simps [simp]:
  "pending new_conn = []" "phase new_conn = AwaitData" "proxyInfo new_conn = None"
  by (simp_all add: new_conn_def)

lemma initial_trusting:
  "processInitialConnection True new_conn = new_conn\<lparr>phase := AwaitProxy []\<rparr>"
  by (simp add: processInitialConnection_def parseProxyProtocolHeader_def conn_read_def)

lemma header_waits:
  assumes "pending c = []" "d \<noteq> []" "parseProxyProtocol (x @ d) = None" "length (x @ d) \<le> 512"
    and "phase c = AwaitProxy x"
  shows "on_readable c d = c\<lparr>phase := AwaitProxy (x @ d)\<rparr>"
proof -
  have "detectProxyProtocol (x @ d) \<noteq> NoProxy"
    using assms(3) by (auto simp: parseProxyProtocol_def)
  moreover have "detectProxyProtocol (x @ d) = Incomplete \<Longrightarrow> \<not> 256 < length (x @ d)"
    using detect_incomplete_short [of "x @ d"] by simp
  ultimately show ?thesis
    using assms
    by (auto simp: on_readable_def parseProxyProtocolHeader_def conn_read_def Let_def
        PROXY_SNIFF_LIMIT_def PROXY_HEADER_LIMIT_def)
qed

lemma header_destroys:
  assumes "pending c = []" "d \<noteq> []" "parseProxyProtocol (x @ d) = None" "length (x @ d) > 512"
    and "phase c = AwaitProxy x"
  shows "phase (on_readable c d) = Destroyed"
proof -
  have "detectProxyProtocol (x @ d) \<noteq> NoProxy"
    using assms(3) by (auto simp: parseProxyProtocol_def)
  moreover have "detectProxyProtocol (x @ d) \<noteq> Incomplete"
    using detect_incomplete_short [of "x @ d"] assms(4) by linarith
  ultimately show ?thesis
    using assms
    by (auto simp: on_readable_def parseProxyProtocolHeader_def conn_read_def Let_def
        PROXY_SNIFF_LIMIT_def PROXY_HEADER_LIMIT_def)
qed

definition recorded :: "proxy_result \<Rightarrow> proxy_data option" where
  "recorded r = (if sourceAddress r = None then None else Some (proxy_data.truncate r))"

lemma header_done:
  assumes "pending c = []" "d \<noteq> []" "parseProxyProtocol (x @ d) = Some r"
    and "phase c = AwaitProxy x" "proxyInfo c = None"
  shows "proxyInfo (on_readable c d) = recorded r"
    and "phase (on_readable c d) = (if remainingData r = [] then AwaitData else route_phase (remainingData r))"
    and "remainingData r = [] \<Longrightarrow> pending (on_readable c d) = []"
proof -
  have ok: "endpoints_ok r" using assms(3) by (rule parse_ok)
  have read: "conn_read (c\<lparr>pending := d\<rparr>) = (Some d, c)"
    using assms(1,2) by (simp add: conn_read_def)
  have inc: "detectProxyProtocol (x @ d) \<noteq> Incomplete"
    using assms(3) by (auto simp: parseProxyProtocol_def)
  have set: "sourceAddress r \<noteq> None \<and> sourceAddress r \<noteq> Some [] \<longleftrightarrow> sourceAddress r \<noteq> None"
    using ok by (auto simp: endpoints_ok_def)
  have eq: "on_readable c d =
      processProtocolData (if sourceAddress r \<noteq> None then c\<lparr>proxyInfo := Some (proxy_data.truncate r)\<rparr> else c)
        (remainingData r)"
  proof (cases "detectProxyProtocol (x @ d) = NoProxy")
    case True
    then have "r = only_remaining (x @ d)" using assms(3) by (simp add: parseProxyProtocol_def)
    then show ?thesis
      using assms(1,2,4) read True by (simp add: on_readable_def parseProxyProtocolHeader_def)
  next
    case False
    then show ?thesis
      using assms(1-4) read inc set by (simp add: on_readable_def parseProxyProtocolHeader_def)
  qed
  show "proxyInfo (on_readable c d) = recorded r"
    unfolding eq using assms(5) by (simp add: recorded_def)
  show "phase (on_readable c d) = (if remainingData r = [] then AwaitData else route_phase (remainingData r))"
    unfolding eq by (simp add: processProtocolData_phase)
  show "remainingData r = [] \<Longrightarrow> pending (on_readable c d) = []"
    unfolding eq using assms(1) by (simp add: processProtocolData_def)
qed

text \<open>Once routed or destroyed, later data changes neither the phase nor the recorded endpoint.\<close>

lemma feed_settled:
  "phase c = Destroyed \<or> (\<exists>r p. phase c = Routed r p) \<Longrightarrow>
   phase (feed c ds) = phase c \<and> proxyInfo (feed c ds) = proxyInfo c"
proof (induction ds arbitrary: c)
  case (Cons d ds)
  have "phase (on_readable c d) = phase c \<and> proxyInfo (on_readable c d) = proxyInfo c"
    using Cons.prems by (auto simp: on_readable_def)
  then show ?case using Cons by (auto simp: feed_def)
qed (simp add: feed_def)

lemma route_phase_settled: "route_phase p = Destroyed \<or> (\<exists>r q. route_phase p = Routed r q)"
  by (cases "sniff p") (simp_all add: route_phase_def)

lemma feed_await_data:
  assumes "phase c = AwaitData" "pending c = []" "ds \<noteq> []" "[] \<notin> set ds"
  shows "phase (feed c ds) = route_phase (hd ds) \<and> proxyInfo (feed c ds) = proxyInfo c"
proof -
  obtain d es where ds: "ds = d # es" "d \<noteq> []" using assms by (cases ds) auto
  have c1: "phase (on_readable c d) = route_phase d" "proxyInfo (on_readable c d) = proxyInfo c"
    using assms ds by (simp_all add: on_readable_def conn_read_def processProtocolData_phase Let_def)
  then show ?thesis
    using feed_settled [of "on_readable c d" es] route_phase_settled [of d] ds by (simp add: feed_def)
qed

text \<open>
  A complete header, cut anywhere: \<open>x\<close> is what has been buffered so far. The first bytes the
  handler sees are a non-empty prefix of what follows the header.
\<close>

lemma feed_header:
  assumes hdr: "parseProxyProtocol hdr = Some r" "remainingData r = []"
    and "concat ds = e @ payload" "x @ e = hdr" "e \<noteq> []" "payload \<noteq> []" "[] \<notin> set ds"
    and "phase c = AwaitProxy x" "pending c = []" "proxyInfo c = None"
  shows "\<exists>p. p \<noteq> [] \<and> starts_with payload p \<and> phase (feed c ds) = route_phase p
     \<and> proxyInfo (feed c ds) = recorded r"
  using assms(3-)
proof (induction ds arbitrary: c x e)
  case Nil
  then show ?case by simp
next
  case (Cons d ds)
  have d: "d \<noteq> []" using Cons.prems by auto
  show ?case
  proof (cases "length d < length e")
    case True
    then obtain f where f: "e = d @ f" "f \<noteq> []" "concat ds = f @ payload"
      using Cons.prems(1) by (auto simp: append_eq_append_conv2)
    have none: "parseProxyProtocol (x @ d) = None"
    proof (rule ccontr)
      assume "parseProxyProtocol (x @ d) \<noteq> None"
      then obtain r' where "parseProxyProtocol (x @ d) = Some r'" by auto
      from parse_extend [OF this, of f] show False using hdr f Cons.prems(2) by auto
    qed
    have "\<not> v2_malformed (x @ d)"
      using v2_malformed_stuck [of "x @ d" f] hdr(1) f Cons.prems(2) by auto
    then have "length (x @ d) \<le> 512" using parse_None_bound [OF none] by linarith
    then have "on_readable c d = c\<lparr>phase := AwaitProxy (x @ d)\<rparr>"
      using header_waits d none Cons.prems by blast
    then show ?thesis
      using Cons.IH [of f "x @ d" "on_readable c d"] f Cons.prems by (simp add: feed_def)
  next
    case False
    then obtain g where g: "d = e @ g" "payload = g @ concat ds"
      using Cons.prems(1) by (auto simp: append_eq_append_conv2)
    have parsed: "parseProxyProtocol (x @ d) = Some (r\<lparr>remainingData := g\<rparr>)"
      using parse_extend [OF hdr(1), of g] hdr(2) g Cons.prems(2) by auto
    note fin = header_done [OF Cons.prems(7) d parsed Cons.prems(6,8)]
    have rec: "recorded (r\<lparr>remainingData := g\<rparr>) = recorded r"
      by (simp add: recorded_def proxy_data.truncate_def)
    show ?thesis
    proof (cases "g = []")
      case True
      then have ds: "ds \<noteq> []" "[] \<notin> set ds" "payload = concat ds" using g Cons.prems by auto
      then have "hd ds \<noteq> []" "starts_with payload (hd ds)"
        by (cases ds; auto)+
      then show ?thesis
        using feed_await_data [of "on_readable c d" ds] fin rec True ds by (auto simp: feed_def)
    next
      case False
      then show ?thesis
        using feed_settled [of "on_readable c d" ds] route_phase_settled [of g] fin rec g(2)
        by (auto simp: feed_def intro!: exI [of _ g])
    qed
  qed
qed

lemma feed_malformed:
  assumes "v2_malformed x" and "phase c = AwaitProxy x" "pending c = []" "length x \<le> 512" "[] \<notin> set ds"
  shows "phase (feed c ds) =
    (if length (x @ concat ds) \<le> 512 then AwaitProxy (x @ concat ds) else Destroyed)"
  using assms
proof (induction ds arbitrary: c x)
  case (Cons d ds)
  have none: "parseProxyProtocol (x @ d) = None" using v2_malformed_stuck Cons.prems(1) by blast
  have d: "d \<noteq> []" using Cons.prems by auto
  show ?case
  proof (cases "length (x @ d) \<le> 512")
    case True
    then have "on_readable c d = c\<lparr>phase := AwaitProxy (x @ d)\<rparr>"
      using header_waits d none Cons.prems by blast
    moreover have "v2_malformed (x @ d)"
      using Cons.prems(1) detect_extend [of x d] by (auto simp: v2_malformed_def nth_append)
    ultimately show ?thesis
      using Cons.IH [of "x @ d" "on_readable c d"] Cons.prems True by (auto simp: feed_def)
  next
    case False
    then have "phase (on_readable c d) = Destroyed"
      using header_destroys d none Cons.prems by (metis not_le)
    then show ?thesis using feed_settled [of "on_readable c d" ds] False by (simp add: feed_def)
  qed
qed (simp add: feed_def)

text \<open>While the processor waits for a header it holds at most 512 bytes.\<close>

lemma on_readable_bound:
  assumes "\<And>b. phase c = AwaitProxy b \<Longrightarrow> length b \<le> 512"
  shows "phase (on_readable c d) = AwaitProxy b \<Longrightarrow> length b \<le> 512"
proof -
  have pp: "phase (processProtocolData c' d') \<noteq> AwaitProxy b" for c' d'
    using route_phase_settled [of d'] by (auto simp: processProtocolData_phase)
  have hd: "phase (parseProxyProtocolHeader c' x) = AwaitProxy b \<Longrightarrow> length b \<le> 512" for c' x
    using pp by (auto simp: parseProxyProtocolHeader_def Let_def PROXY_SNIFF_LIMIT_def PROXY_HEADER_LIMIT_def
        split: prod.splits if_splits option.splits)
  show "phase (on_readable c d) = AwaitProxy b \<Longrightarrow> length b \<le> 512"
    using assms pp hd by (auto simp: on_readable_def Let_def split: phase.splits prod.splits option.splits)
qed

section \<open>Properties\<close>

text \<open>The state of the processor after a complete header and some data.\<close>

lemma proxy_header_settled:
  assumes "parseProxyProtocol hdr = Some r" and "remainingData r = []"
    and "concat chunks = hdr @ payload" and "payload \<noteq> []" and "[] \<notin> set chunks"
  shows "\<exists>p. p \<noteq> [] \<and> starts_with payload p \<and>
    phase (feed (processInitialConnection True new_conn) chunks) = route_phase p \<and>
    proxyInfo (feed (processInitialConnection True new_conn) chunks) = recorded r"
proof -
  have "hdr \<noteq> []"
  proof
    assume "hdr = []"
    then show False using assms(1) by (simp add: parseProxyProtocol_def detectProxyProtocol_def)
  qed
  then show ?thesis
    unfolding initial_trusting
    by (intro feed_header [OF assms(1,2,3)]) (use assms in simp_all)
qed

text \<open>
  when a complete PROXY header is followed by data, then however the bytes are cut into
  chunks, the processor ends up having recorded exactly the endpoint the header states (none
  if it states none) and having decided the protocol on a non-empty prefix of the data after
  the header; no byte of the header reaches a handler.
\<close>

theorem proxy_header_segmentation:
  assumes "parseProxyProtocol hdr = Some r" and "remainingData r = []"
    and "concat chunks = hdr @ payload" and "payload \<noteq> []" and "[] \<notin> set chunks"
  shows "\<exists>p. p \<noteq> [] \<and> starts_with payload p \<and>
    phase (feed (processInitialConnection True new_conn) chunks) = route_phase p \<and>
    proxyInfo (feed (processInitialConnection True new_conn) chunks) = recorded r"
  by (rule proxy_header_settled [OF assms])

theorem proxy_header_segmentation_witness:
  "\<exists>p. p \<noteq> [] \<and> starts_with (buffer_of ''GET'') p \<and>
    phase (feed (processInitialConnection True new_conn)
      [buffer_of ''PRO'', buffer_of ''XY UNKNOWN'' @ [0x0D], [0x0A, 0x47], buffer_of ''ET'']) = route_phase p \<and>
    proxyInfo (feed (processInitialConnection True new_conn)
      [buffer_of ''PRO'', buffer_of ''XY UNKNOWN'' @ [0x0D], [0x0A, 0x47], buffer_of ''ET'']) =
      recorded (only_remaining [])"
proof -
  have "parseProxyProtocol (buffer_of ''PROXY UNKNOWN'' @ [0x0D, 0x0A]) = Some (only_remaining [])"
    by code_simp
  then show ?thesis
    by (rule proxy_header_segmentation) (simp_all add: buffer_of_def byte_of_def)
qed

text \<open>
  a version 2 header with a wrong version or an oversized address block is never resolved:
  the connection is held, without being routed, until more than 512 bytes have arrived, and is
  then destroyed.
\<close>

theorem malformed_v2_held:
  assumes "v2_malformed h" and "length h \<le> 512" and "[] \<notin> set chunks"
  shows "phase (feed (processInitialConnection True new_conn) (h # chunks)) =
    (if length (h @ concat chunks) \<le> 512 then AwaitProxy (h @ concat chunks) else Destroyed)"
proof -
  have none: "parseProxyProtocol h = None" using v2_malformed_stuck [OF assms(1), of "[]"] by simp
  have "h \<noteq> []" using assms(1) by (auto simp: v2_malformed_def)
  then have "on_readable (new_conn\<lparr>phase := AwaitProxy []\<rparr>) h = new_conn\<lparr>phase := AwaitProxy h\<rparr>"
    using header_waits [of "new_conn\<lparr>phase := AwaitProxy []\<rparr>" h "[]"] none assms(2) by simp
  then show ?thesis
    using feed_malformed [OF assms(1), of "new_conn\<lparr>phase := AwaitProxy h\<rparr>" chunks] assms(2,3)
    by (simp add: initial_trusting feed_def)
qed

theorem malformed_v2_held_witness:
  "phase (feed (processInitialConnection True new_conn)
     ((V2_SIGNATURE @ [0x11, 0x11, 0, 12]) # [replicate 200 0x47])) =
   AwaitProxy ((V2_SIGNATURE @ [0x11, 0x11, 0, 12]) @ concat [replicate 200 0x47])"
proof -
  have m: "v2_malformed (V2_SIGNATURE @ [0x11, 0x11, 0, 12])" by code_simp
  then show ?thesis
    using malformed_v2_held [OF m, of "[replicate 200 0x47]"] by (simp add: V2_SIGNATURE_def)
qed

text \<open>
  C31: whatever arrives, in whatever chunks, a processor that is still waiting for a PROXY
  header holds at most 512 bytes.
\<close>

theorem proxy_wait_bounded:
  "phase (feed (processInitialConnection trust new_conn) chunks) = AwaitProxy b \<Longrightarrow> length b \<le> 512"
proof (induction chunks arbitrary: b rule: rev_induct)
  case Nil
  then show ?case
    by (cases trust)
      (auto simp: feed_def initial_trusting processInitialConnection_def [of False] processProtocolData_def)
next
  case (snoc d chunks)
  then show ?case
    using on_readable_bound [of "feed (processInitialConnection trust new_conn) chunks" d b]
    by (auto simp: feed_def)
qed

theorem proxy_wait_bounded_witness:
  "length (buffer_of ''PRO'') \<le> 512 \<and>
   phase (feed (processInitialConnection True new_conn) [buffer_of ''PRO'']) = AwaitProxy (buffer_of ''PRO'')"
proof -
  have p: "phase (feed (processInitialConnection True new_conn) [buffer_of ''PRO'']) =
      AwaitProxy (buffer_of ''PRO'')"
    by code_simp
  from proxy_wait_bounded [OF p] p show ?thesis by blast
qed

text \<open>
  the first bytes of an HTTP/1 request with a known method are routed to HTTP/1, with one
  exception: when only \<open>P\<close> or \<open>PR\<close> has arrived, the connection is taken for HTTP/2.
\<close>

theorem sniff_http1_request:
  assumes "m \<in> set http_METHODS" and "p @ q = buffer_of (m @ '' '') @ rest" and "p \<noteq> []"
  shows "sniff p = (if p = buffer_of ''P'' \<or> p = buffer_of ''PR'' then Http2Route else Http1Route)"
proof -
  define mp where "mp = buffer_of (m @ '' '')"
  have mp: "mp \<in> set METHOD_PREFIXES" using assms(1) by (auto simp: METHOD_PREFIXES_def mp_def)
  have ok: "take 3 mp \<noteq> buffer_of ''PRI''" "4 \<le> length mp" "hd mp \<noteq> 0x16"
    using mp method_prefixes_not_PRI by (auto simp: list_all_iff)
  have pq: "p @ q = mp @ rest" using assms(2) by (simp add: mp_def)
  have "hd p = hd mp" using pq ok(2) assms(3) by (metis hd_append2 list.size(3) not_numeral_le_zero)
  then have tls: "\<not> isTLS p" using ok(3) assms(3) by (auto simp: isTLS_def TLS_HANDSHAKE_BYTE_def neq_Nil_conv)
  have http: "couldBeHttp p" using couldBeHttp_prefix mp pq by blast
  have "isHTTP2 p \<longleftrightarrow> p = buffer_of ''P'' \<or> p = buffer_of ''PR''"
  proof (cases "length p < 3")
    case True
    then show ?thesis
      using assms(3) isHTTP2_short [OF True] by (auto simp: buffer_of_def less_Suc_eq numeral_3_eq_3)
  next
    case False
    have "take 3 p = take 3 mp"
    proof -
      have "take 3 (p @ q) = take 3 (mp @ rest)" unfolding pq ..
      then show ?thesis using False ok(2) by simp
    qed
    then have "\<not> isHTTP2 p" using isHTTP2_take3 [of p] ok(1) False by force
    moreover have "p \<noteq> buffer_of ''P''" "p \<noteq> buffer_of ''PR''" using False by auto
    ultimately show ?thesis by simp
  qed
  then show ?thesis using tls http by (auto simp: sniff_def)
qed

theorem sniff_http1_request_witness:
  "sniff (buffer_of ''P'') = Http2Route \<and> sniff (buffer_of ''POS'') = Http1Route"
  using sniff_http1_request [of "''POST''" "buffer_of ''P''" "buffer_of ''OST ''" "[]"]
    sniff_http1_request [of "''POST''" "buffer_of ''POS''" "buffer_of ''T ''" "[]"]
  by (simp add: http_METHODS_def buffer_of_def byte_of_def)

text \<open>
  C30: a TLS record and an HTTP/2 preface are recognised from any non-empty prefix, so how the
  first bytes are cut never changes where such a connection goes.
\<close>

theorem sniff_tls_http2:
  assumes "p @ q = x @ rest" and "p \<noteq> []" and "x = [0x16] \<or> x = HTTP2_PREFACE"
  shows "sniff p = (if x = [0x16] then TlsRoute else Http2Route)"
proof (cases "x = [0x16]")
  case True
  then have "hd p = 0x16" using assms(1,2) by (cases p) auto
  then show ?thesis using True assms(2) by (cases p) (auto simp: sniff_def isTLS_def TLS_HANDSHAKE_BYTE_def)
next
  case False
  then have x: "x = HTTP2_PREFACE" using assms(3) by simp
  have "hd p = hd HTTP2_PREFACE"
    using assms(1,2) x by (metis hd_append2 length_preface list.size(3) zero_neq_numeral)
  then have "hd p = 0x50" by (simp add: HTTP2_PREFACE_def buffer_of_def byte_of_def)
  then have "\<not> isTLS p" using assms(2) by (cases p) (auto simp: isTLS_def TLS_HANDSHAKE_BYTE_def)
  moreover have "isHTTP2 p"
    using assms(1) x by (metis append_eq_append_conv2 isHTTP2_iff starts_with_append)
  ultimately show ?thesis using False by (simp add: sniff_def)
qed

theorem sniff_tls_http2_witness:
  "sniff [0x16] = TlsRoute \<and> sniff (take 7 HTTP2_PREFACE) = Http2Route"
proof -
  have "length HTTP2_PREFACE \<noteq> length [0x16 :: byte]" by simp
  then have "HTTP2_PREFACE \<noteq> [0x16]" by metis
  moreover have "take 7 HTTP2_PREFACE \<noteq> []" by (simp flip: length_0_conv)
  ultimately show ?thesis
    using sniff_tls_http2 [of "[0x16]" "[]" "[0x16]" "[]"]
      sniff_tls_http2 [of "take 7 HTTP2_PREFACE" "drop 7 HTTP2_PREFACE" HTTP2_PREFACE "[]"]
    by simp
qed

end
