(* ===== verification/Tls_Merge.thy ===== *)
theory Tls_Merge
  imports Js_Number
begin

text \<open>
  Merging of endpoint options, \<^verbatim>\<open>src/endpoints/tls-merge.ts\<close>. An options object is an
  association list in insertion order (property assignment is \<open>AList.update\<close>, \<open>delete\<close> is
  \<open>AList.delete\<close>); a property that is absent or holds \<open>OUndef\<close> reads as \<open>undefined\<close>. The
  main law gives the outcome of a whole sequence of merges: it succeeds exactly when no
  exclusive field is given two values, and then every field has its combined value.
\<close>

section \<open>Options\<close>

datatype tls_version = TLSv1 | TLSv1_1 | TLSv1_2 | TLSv1_3

definition VERSION_ORDER :: "tls_version list" where
  "VERSION_ORDER = [TLSv1, TLSv1_1, TLSv1_2, TLSv1_3]"

fun version_str :: "tls_version \<Rightarrow> string" where
  "version_str TLSv1 = ''TLSv1''"
| "version_str TLSv1_1 = ''TLSv1.1''"
| "version_str TLSv1_2 = ''TLSv1.2''"
| "version_str TLSv1_3 = ''TLSv1.3''"

text \<open>The order of the versions is their position in \<^const>\<open>VERSION_ORDER\<close>.\<close>

fun version_rank :: "tls_version \<Rightarrow> nat" where
  "version_rank TLSv1 = 0"
| "version_rank TLSv1_1 = 1"
| "version_rank TLSv1_2 = 2"
| "version_rank TLSv1_3 = 3"

instantiation tls_version :: linorder
begin

definition less_eq_tls_version :: "tls_version \<Rightarrow> tls_version \<Rightarrow> bool" where
  "v \<le> w \<longleftrightarrow> version_rank v \<le> version_rank w"

definition less_tls_version :: "tls_version \<Rightarrow> tls_version \<Rightarrow> bool" where
  "v < w \<longleftrightarrow> version_rank v < version_rank w"

instance
proof
  fix v w :: tls_version
  show "v \<le> w \<Longrightarrow> w \<le> v \<Longrightarrow> v = w"
    by (cases v; cases w) (simp_all add: less_eq_tls_version_def)
qed (auto simp: less_eq_tls_version_def less_tls_version_def)

end

text \<open>OpenSSL's \<open>SSL_OP_NO_TLSv1*\<close> options (\<open>crypto.constants\<close>).\<close>

fun VERSION_DISABLE_FLAGS :: "tls_version \<Rightarrow> 32 word" where
  "VERSION_DISABLE_FLAGS TLSv1 = 0x04000000"
| "VERSION_DISABLE_FLAGS TLSv1_1 = 0x10000000"
| "VERSION_DISABLE_FLAGS TLSv1_2 = 0x08000000"
| "VERSION_DISABLE_FLAGS TLSv1_3 = 0x20000000"

datatype optval =
    OUndef
  | OBool bool
  | ONum int
  | OStr string
  | OFlags "32 word"
  | OVersion tls_version
  | OVersions "tls_version list"

type_synonym options = "(string \<times> optval) list"

definition get :: "options \<Rightarrow> string \<Rightarrow> optval" where
  "get acc key = (case map_of acc key of None \<Rightarrow> OUndef | Some v \<Rightarrow> v)"

text \<open>JSON text of an option value; string escapes cover what PEM data and names contain.\<close>

definition json_char :: "char \<Rightarrow> string" where
  "json_char c =
     (if c = CHR 0x22 then [CHR 0x5C, CHR 0x22]
      else if c = CHR 0x5C then [CHR 0x5C, CHR 0x5C]
      else if c = CHR 0x0A then [CHR 0x5C, CHR ''n'']
      else if c = CHR 0x0D then [CHR 0x5C, CHR ''r'']
      else if c = CHR 0x09 then [CHR 0x5C, CHR ''t'']
      else if c = CHR 0x08 then [CHR 0x5C, CHR ''b'']
      else if c = CHR 0x0C then [CHR 0x5C, CHR ''f'']
      else if (of_char c :: nat) < 32 then
        CHR 0x5C # ''u00'' @ [digit_char (of_char c div 16), digit_char (of_char c mod 16)]
      else [c])"

definition json_str :: "string \<Rightarrow> string" where
  "json_str s = [CHR 0x22] @ concat (map json_char s) @ [CHR 0x22]"

fun json_opt :: "optval \<Rightarrow> string" where
  "json_opt OUndef = ''undefined''"
| "json_opt (OBool b) = (if b then ''true'' else ''false'')"
| "json_opt (ONum n) = int_str n"
| "json_opt (OStr s) = json_str s"
| "json_opt (OFlags w) = nat_str (unat w)"
| "json_opt (OVersion v) = json_str (version_str v)"
| "json_opt (OVersions vs) = ''['' @ join '','' (map (\<lambda>v. json_str (version_str v)) vs) @ '']''"

section \<open>Merging\<close>

text \<open>
  \<open>FIELD_COMBINERS\<close>: the result is \<open>None\<close> for an exclusive field. The two combiners are only
  ever given the types their fields are declared with; anything else is an error here.
\<close>

definition type_error :: js_exn where
  "type_error = JsError ''option value of the wrong type''"

fun combine_versions :: "optval \<Rightarrow> optval \<Rightarrow> optval fallible" where
  "combine_versions (OVersions a) (OVersions b) = Inr (OVersions (a @ b))"
| "combine_versions _ _ = Inl type_error"

fun combine_level :: "optval \<Rightarrow> optval \<Rightarrow> optval fallible" where
  "combine_level (ONum a) (ONum b) = Inr (ONum (min a b))"
| "combine_level _ _ = Inl type_error"

definition FIELD_COMBINERS :: "string \<Rightarrow> (optval \<Rightarrow> optval \<Rightarrow> optval fallible) option" where
  "FIELD_COMBINERS key =
     (if key = ''enabledVersions'' then Some combine_versions
      else if key = ''securityLevel'' then Some combine_level
      else None)"

definition conflict_error :: "string \<Rightarrow> optval \<Rightarrow> optval \<Rightarrow> js_exn" where
  "conflict_error key old new =
     JsError (''Conflicting endpoint options: '' @ [CHR 0x27] @ key @ [CHR 0x27] @ '' is set to both '' @
       json_opt old @ '' and '' @ json_opt new)"

fun merge_entries :: "options \<Rightarrow> options \<Rightarrow> options fallible" where
  "merge_entries acc [] = Inr acc"
| "merge_entries acc ((key, value) # rest) =
     (if value = OUndef then merge_entries acc rest
      else if get acc key = OUndef then merge_entries (AList.update key value acc) rest
      else
        case FIELD_COMBINERS key of
          Some combine \<Rightarrow>
            (case combine (get acc key) value of
               Inl e \<Rightarrow> Inl e
             | Inr v \<Rightarrow> merge_entries (AList.update key v acc) rest)
        | None \<Rightarrow>
            if get acc key \<noteq> value then Inl (conflict_error key (get acc key) value)
            else merge_entries acc rest)"

definition mergeContribution :: "options \<Rightarrow> options option \<Rightarrow> options fallible" where
  "mergeContribution acc contribution =
     (case contribution of None \<Rightarrow> Inr acc | Some entries \<Rightarrow> merge_entries acc entries)"

section \<open>Resolution\<close>

definition flags_of :: "optval \<Rightarrow> 32 word" where
  "flags_of v = (case v of OFlags w \<Rightarrow> w | _ \<Rightarrow> 0)"

definition resolveEnabledVersions :: "options \<Rightarrow> options" where
  "resolveEnabledVersions tlsOptions =
     (case get tlsOptions ''enabledVersions'' of
        OVersions enabled \<Rightarrow>
          let opts = AList.delete ''enabledVersions'' tlsOptions;
              secure = foldl (\<lambda>so v. if v \<notin> set enabled then or so (VERSION_DISABLE_FLAGS v) else so)
                (flags_of (get opts ''secureOptions'')) VERSION_ORDER;
              opts = AList.update ''secureOptions'' (OFlags secure) opts;
              lowest = find (\<lambda>v. v \<in> set enabled) VERSION_ORDER;
              opts = (case lowest of None \<Rightarrow> opts
                      | Some v \<Rightarrow> AList.update ''minVersion'' (OVersion v) opts)
          in
          if lowest = Some TLSv1 \<or> lowest = Some TLSv1_1 then
            AList.update ''securityLevel''
              (ONum (case get opts ''securityLevel'' of ONum n \<Rightarrow> min n 0 | _ \<Rightarrow> 0)) opts
          else opts
      | _ \<Rightarrow> tlsOptions)"

text \<open>\<open>s.replace(/@SECLEVEL=\d+/g, '')\<close>.\<close>

function strip_seclevel :: "string \<Rightarrow> string" where
  "strip_seclevel s =
     (if s = [] then []
      else
        let r = drop 10 s in
        if starts_with s ''@SECLEVEL='' \<and> takeWhile is_digit r \<noteq> []
        then strip_seclevel (dropWhile is_digit r)
        else hd s # strip_seclevel (tl s))"
  by pat_completeness auto
termination
proof (relation "measure length", goal_cases)
  case (2 s r)
  have "length (dropWhile is_digit r) \<le> length r" by (simp add: length_dropWhile_le)
  then show ?case using 2 by (cases s) auto
qed auto

declare strip_seclevel.simps [simp del]

definition resolveSecurityLevel :: "options \<Rightarrow> options" where
  "resolveSecurityLevel tlsOptions =
     (case get tlsOptions ''securityLevel'' of
        ONum level \<Rightarrow>
          let opts = AList.delete ''securityLevel'' tlsOptions;
              base = strip_seclevel (case get opts ''ciphers'' of OStr c \<Rightarrow> c | _ \<Rightarrow> ''DEFAULT'')
          in AList.update ''ciphers'' (OStr (base @ ''@SECLEVEL='' @ int_str level)) opts
      | _ \<Rightarrow> tlsOptions)"

section \<open>The outcome of a sequence of merges\<close>

lemma get_update [simp]: "get (AList.update k v acc) k' = (if k' = k then v else get acc k')"
  by (simp add: get_def update_conv')

lemma get_delete [simp]: "get (AList.delete k acc) k' = (if k' = k then OUndef else get acc k')"
  by (simp add: get_def delete_conv')

lemma get_Nil [simp]: "get [] k = OUndef"
  by (simp add: get_def)

lemma merge_entries_append:
  "merge_entries acc (xs @ ys) =
     (case merge_entries acc xs of Inl e \<Rightarrow> Inl e | Inr acc' \<Rightarrow> merge_entries acc' ys)"
  by (induction acc xs rule: merge_entries.induct) (auto split: option.splits sum.splits)

text \<open>The values given to a field, and what they combine to.\<close>

definition field_values :: "string \<Rightarrow> options \<Rightarrow> optval list" where
  "field_values key cs = map snd (filter (\<lambda>(k, v). k = key \<and> v \<noteq> OUndef) cs)"

definition versions_in :: "optval list \<Rightarrow> tls_version list" where
  "versions_in vs = concat (map (\<lambda>v. case v of OVersions l \<Rightarrow> l | _ \<Rightarrow> []) vs)"

definition levels_in :: "optval list \<Rightarrow> int list" where
  "levels_in vs = concat (map (\<lambda>v. case v of ONum n \<Rightarrow> [n] | _ \<Rightarrow> []) vs)"

definition combined :: "string \<Rightarrow> optval list \<Rightarrow> optval" where
  "combined key vs =
     (if vs = [] then OUndef
      else if key = ''enabledVersions'' then OVersions (versions_in vs)
      else if key = ''securityLevel'' then ONum (Min (set (levels_in vs)))
      else hd vs)"

definition well_typed :: "options \<Rightarrow> bool" where
  "well_typed cs \<longleftrightarrow>
     list_all (\<lambda>(k, v). (k = ''enabledVersions'' \<longrightarrow> (case v of OVersions l \<Rightarrow> True | _ \<Rightarrow> False)) \<and>
       (k = ''securityLevel'' \<longrightarrow> (case v of ONum n \<Rightarrow> True | _ \<Rightarrow> False))) cs"

definition exclusive :: "string \<Rightarrow> bool" where
  "exclusive key \<longleftrightarrow> key \<noteq> ''enabledVersions'' \<and> key \<noteq> ''securityLevel''"

text \<open>No exclusive field is given two different values.\<close>

definition agree :: "options \<Rightarrow> bool" where
  "agree cs \<longleftrightarrow>
     (\<forall>key v w. exclusive key \<longrightarrow> v \<in> set (field_values key cs) \<longrightarrow> w \<in> set (field_values key cs) \<longrightarrow> v = w)"

lemma field_values_snoc:
  "field_values key (cs @ [(k, v)]) = field_values key cs @ (if k = key \<and> v \<noteq> OUndef then [v] else [])"
  by (simp add: field_values_def)

lemma field_values_append: "field_values key (cs @ ds) = field_values key cs @ field_values key ds"
  by (simp add: field_values_def)

lemma field_values_not_undef: "OUndef \<notin> set (field_values key cs)"
  by (auto simp: field_values_def)

lemma field_values_iff: "v \<in> set (field_values key cs) \<longleftrightarrow> (key, v) \<in> set cs \<and> v \<noteq> OUndef"
  by (auto simp: field_values_def image_iff)

lemma field_values_typed:
  assumes "well_typed cs"
  shows "v \<in> set (field_values ''enabledVersions'' cs) \<Longrightarrow> \<exists>l. v = OVersions l"
    and "v \<in> set (field_values ''securityLevel'' cs) \<Longrightarrow> \<exists>n. v = ONum n"
proof -
  show "\<exists>l. v = OVersions l" if "v \<in> set (field_values ''enabledVersions'' cs)"
  proof -
    have "(''enabledVersions'', v) \<in> set cs" using that by (simp add: field_values_iff)
    then show ?thesis using assms by (cases v) (auto simp: well_typed_def list_all_iff)
  qed
  show "\<exists>n. v = ONum n" if "v \<in> set (field_values ''securityLevel'' cs)"
  proof -
    have "(''securityLevel'', v) \<in> set cs" using that by (simp add: field_values_iff)
    then show ?thesis using assms by (cases v) (auto simp: well_typed_def list_all_iff)
  qed
qed

lemma combined_single:
  assumes "well_typed [(k, v)]"
  shows "combined k [v] = v"
  using assms by (cases v) (auto simp: combined_def versions_in_def levels_in_def well_typed_def)

lemma combined_undef:
  "combined key (field_values key cs) = OUndef \<longleftrightarrow> field_values key cs = []"
proof (cases "field_values key cs")
  case (Cons v vs)
  then have "v \<noteq> OUndef" using field_values_not_undef [of key cs] by auto
  then show ?thesis by (simp add: combined_def Cons)
qed (simp add: combined_def)

lemma combined_snoc_level:
  assumes "well_typed cs" "field_values ''securityLevel'' cs \<noteq> []"
  shows "ONum (min (Min (set (levels_in (field_values ''securityLevel'' cs)))) n) =
    combined ''securityLevel'' (field_values ''securityLevel'' cs @ [ONum n])"
proof -
  define vs where "vs = field_values ''securityLevel'' cs"
  obtain m ms where "vs = ONum m # ms"
    using assms field_values_typed(2) [OF assms(1)] by (cases vs) (auto simp: vs_def)
  then have ne: "levels_in vs \<noteq> []" by (simp add: levels_in_def)
  have "set (levels_in (vs @ [ONum n])) = insert n (set (levels_in vs))"
    by (simp add: levels_in_def)
  then have "Min (set (levels_in (vs @ [ONum n]))) = min (Min (set (levels_in vs))) n"
    using ne by (simp add: min.commute)
  then show ?thesis by (simp add: combined_def flip: vs_def)
qed

lemma merge_entries_spec:
  assumes "well_typed cs"
  shows "case merge_entries [] cs of
      Inl e \<Rightarrow> \<not> agree cs
    | Inr acc \<Rightarrow> agree cs \<and> (\<forall>key. get acc key = combined key (field_values key cs))"
  using assms
proof (induction cs rule: rev_induct)
  case Nil
  then show ?case by (simp add: agree_def field_values_def combined_def)
next
  case (snoc c cs)
  obtain k v where c: "c = (k, v)" by force
  have typed: "well_typed cs" using snoc.prems by (simp add: well_typed_def)
  show ?case
  proof (cases "merge_entries [] cs")
    case (Inl e)
    then have "\<not> agree cs" using snoc.IH typed by simp
    then have "\<not> agree (cs @ [c])" unfolding agree_def field_values_append by auto
    then show ?thesis by (simp add: merge_entries_append Inl)
  next
    case (Inr acc)
    then have ag: "agree cs" and acc: "get acc key = combined key (field_values key cs)" for key
      using snoc.IH typed by auto
    have agree_other: "agree (cs @ [(k, v)])" if "v = OUndef \<or> \<not> exclusive k \<or> field_values k cs = []
        \<or> hd (field_values k cs) = v"
      using that ag unfolding agree_def field_values_snoc
      by (auto split: if_splits) (metis hd_in_set empty_iff empty_set)+
    show ?thesis
    proof (cases "v = OUndef \<or> field_values k cs = []")
      case True
      have "well_typed [(k, v)]" using snoc.prems c by (simp add: well_typed_def)
      moreover have "get acc k = OUndef" if "field_values k cs = []"
        using acc [of k] combined_undef [of k cs] that by simp
      ultimately have added: "case merge_entries acc [(k, v)] of Inl e \<Rightarrow> False
          | Inr acc' \<Rightarrow> (\<forall>key. get acc' key = combined key (field_values key (cs @ [(k, v)])))"
        using True acc combined_single [of k v] by (cases "v = OUndef") (auto simp: field_values_snoc)
      have "agree (cs @ [(k, v)])" using agree_other True by blast
      then show ?thesis
        using added by (cases "merge_entries acc [(k, v)]") (simp_all add: merge_entries_append Inr c)
    next
      case False
      then have set: "get acc k \<noteq> OUndef" using acc combined_undef by simp
      show ?thesis
      proof (cases "exclusive k")
        case True
        then have comb: "FIELD_COMBINERS k = None" by (simp add: FIELD_COMBINERS_def exclusive_def)
        have old: "get acc k = hd (field_values k cs)"
          using True False acc by (simp add: combined_def exclusive_def)
        have "\<not> agree (cs @ [(k, v)])" if "hd (field_values k cs) \<noteq> v"
          using True False that unfolding agree_def field_values_snoc by (auto intro!: exI [of _ k]) (metis hd_in_set)
        then show ?thesis
          using agree_other comb set False old acc True
          by (auto simp: merge_entries_append Inr c field_values_snoc combined_def exclusive_def)
      next
        case other: False
        then consider "k = ''enabledVersions''" | "k = ''securityLevel''" by (auto simp: exclusive_def)
        then show ?thesis
        proof cases
          case 1
          then obtain l where v: "v = OVersions l"
            using snoc.prems c by (auto simp: well_typed_def split: optval.splits)
          then show ?thesis
            using 1 other agree_other set False acc
            by (auto simp: merge_entries_append Inr c field_values_snoc combined_def FIELD_COMBINERS_def
                versions_in_def)
        next
          case 2
          then obtain n where v: "v = ONum n"
            using snoc.prems c by (auto simp: well_typed_def split: optval.splits)
          then show ?thesis
            using 2 other agree_other set False acc combined_snoc_level [OF typed, of n]
            by (auto simp: merge_entries_append Inr c field_values_snoc FIELD_COMBINERS_def combined_def)
        qed
      qed
    qed
  qed
qed

end
