(* ===== verification/Endpoint_Meta.thy ===== *)
theory Endpoint_Meta
  imports Prelude
begin

text \<open>
  The documentation data of \<^verbatim>\<open>src/endpoints/groups.ts\<close>: groups of endpoints, the metadata an
  endpoint carries, and the order of the groups on the documentation page.
\<close>

record endpoint_group =
  g_id :: string
  g_name :: string
  g_description :: "string option"

record endpoint_meta =
  m_path :: string
  m_description :: string
  m_examples :: "string list"
  m_group :: "endpoint_group option"

definition httpRequestInspection :: endpoint_group where
  "httpRequestInspection = \<lparr>g_id = ''request-inspection'', g_name = ''Request Inspection'',
     g_description = None\<rparr>"

definition httpCustomResponses :: endpoint_group where
  "httpCustomResponses = \<lparr>g_id = ''custom-responses'', g_name = ''Custom Responses'',
     g_description = None\<rparr>"

definition httpRedirects :: endpoint_group where
  "httpRedirects = \<lparr>g_id = ''redirects'', g_name = ''Redirects'',
     g_description = None\<rparr>"

definition httpCaching :: endpoint_group where
  "httpCaching = \<lparr>g_id = ''caching'', g_name = ''Caching'',
     g_description = None\<rparr>"

definition httpAuthentication :: endpoint_group where
  "httpAuthentication = \<lparr>g_id = ''authentication'', g_name = ''Authentication'',
     g_description = None\<rparr>"

definition httpCookies :: endpoint_group where
  "httpCookies = \<lparr>g_id = ''cookies'', g_name = ''Cookies'',
     g_description = None\<rparr>"

definition httpResponseFormats :: endpoint_group where
  "httpResponseFormats = \<lparr>g_id = ''response-formats'', g_name = ''Response Formats'',
     g_description = None\<rparr>"

definition httpResponseEncoding :: endpoint_group where
  "httpResponseEncoding = \<lparr>g_id = ''response-encoding'', g_name = ''Response Encoding'',
     g_description = None\<rparr>"

definition httpDynamicData :: endpoint_group where
  "httpDynamicData = \<lparr>g_id = ''dynamic-data'', g_name = ''Dynamic Data'',
     g_description = None\<rparr>"

definition httpTls :: endpoint_group where
  "httpTls = \<lparr>g_id = ''tls'', g_name = ''TLS'',
     g_description = None\<rparr>"

definition httpErrors :: endpoint_group where
  "httpErrors = \<lparr>g_id = ''errors'', g_name = ''Errors'',
     g_description = None\<rparr>"

definition wsMessaging :: endpoint_group where
  "wsMessaging = \<lparr>g_id = ''messaging'', g_name = ''Messaging'',
     g_description = None\<rparr>"

definition wsConnection :: endpoint_group where
  "wsConnection = \<lparr>g_id = ''connection'', g_name = ''Connection'',
     g_description = None\<rparr>"

definition wsTiming :: endpoint_group where
  "wsTiming = \<lparr>g_id = ''timing'', g_name = ''Timing'',
     g_description = None\<rparr>"

definition wsErrors :: endpoint_group where
  "wsErrors = \<lparr>g_id = ''errors'', g_name = ''Errors'',
     g_description = None\<rparr>"

definition tlsCertificateModes :: endpoint_group where
  "tlsCertificateModes = \<lparr>g_id = ''certificate-modes'', g_name = ''Certificate Modes'',
     g_description = None\<rparr>"

definition tlsProtocolNegotiation :: endpoint_group where
  "tlsProtocolNegotiation = \<lparr>g_id = ''protocol-negotiation'', g_name = ''Protocol Negotiation'',
     g_description = Some ''Endpoints that negotiate specific protocols via ALPN. These can be used together, to simulate a server supporting specific combinations of protocols, in the preference order specified.''\<rparr>"

definition tlsVersions :: endpoint_group where
  "tlsVersions = \<lparr>g_id = ''versions'', g_name = ''TLS Versions'',
     g_description = Some ''Endpoints that only accept specific TLS versions. These can be used together, to simulate a server supporting any specific combination of versions.''\<rparr>"

definition tlsCiphers :: endpoint_group where
  "tlsCiphers = \<lparr>g_id = ''ciphers'', g_name = ''Cipher Suites'',
     g_description = Some ''Endpoints that offer only a specific weak or legacy cipher suite (over TLS 1.2), to test how your client handles it. A well-configured client should refuse to connect.''\<rparr>"

definition tlsKeySizes :: endpoint_group where
  "tlsKeySizes = \<lparr>g_id = ''key-sizes'', g_name = ''Key Sizes'',
     g_description = Some ''Endpoints serving certificates with RSA keys of a specific size. Small keys should be rejected by secure implementations.''\<rparr>"

definition tlsClientAuth :: endpoint_group where
  "tlsClientAuth = \<lparr>g_id = ''client-auth'', g_name = ''Client Authentication'',
     g_description = Some ''Endpoints that require the client to present a certificate (mutual TLS).''\<rparr>"

definition httpGroupOrder :: "endpoint_group list" where
  "httpGroupOrder =
    [httpRequestInspection, httpCustomResponses, httpRedirects, httpCaching, httpAuthentication, httpCookies, httpResponseFormats, httpResponseEncoding, httpDynamicData, httpTls, httpErrors]"

definition wsGroupOrder :: "endpoint_group list" where
  "wsGroupOrder =
    [wsMessaging, wsConnection, wsTiming, wsErrors]"

definition tlsGroupOrder :: "endpoint_group list" where
  "tlsGroupOrder =
    [tlsCertificateModes, tlsProtocolNegotiation, tlsVersions, tlsCiphers, tlsKeySizes, tlsClientAuth]"

lemmas group_defs =
  httpRequestInspection_def
  httpCustomResponses_def
  httpRedirects_def
  httpCaching_def
  httpAuthentication_def
  httpCookies_def
  httpResponseFormats_def
  httpResponseEncoding_def
  httpDynamicData_def
  httpTls_def
  httpErrors_def
  wsMessaging_def
  wsConnection_def
  wsTiming_def
  wsErrors_def
  tlsCertificateModes_def
  tlsProtocolNegotiation_def
  tlsVersions_def
  tlsCiphers_def
  tlsKeySizes_def
  tlsClientAuth_def

end
