(* ===== verification/Tls_Endpoints.thy ===== *)
theory Tls_Endpoints
  imports Tls_Merge Endpoint_Meta
begin

text \<open>
  The TLS endpoints, \<^verbatim>\<open>src/endpoints/tls/*.ts\<close>, and \<open>tlsEndpoints\<close> of
  \<^verbatim>\<open>endpoint-index.ts\<close>: the values of the module namespace of \<^verbatim>\<open>tls-index.ts\<close>, which
  JavaScript orders by export name. A method the endpoint object does not define is \<open>None\<close>.
\<close>

record tls_endpoint =
  sniPart :: string
  plainTextAllowed :: bool
  configureCertOptions :: "options option"
  configureTlsOptions :: "options option"
  configureAlpnPreferences :: "(string list \<Rightarrow> string list) option"
  e_meta :: endpoint_meta

section \<open>Certificate modes\<close>

definition expired :: tls_endpoint where
  "expired =
    \<lparr>sniPart = ''expired'', plainTextAllowed = False,
     configureCertOptions = Some [(''expired'', OBool True)],
     configureTlsOptions = None,
     configureAlpnPreferences = None,
     e_meta = \<lparr>m_path = ''expired'',
       m_description = ''Serves an expired TLS certificate.'',
       m_examples = [''https://expired.testserver.host/''], m_group = Some tlsCertificateModes\<rparr>\<rparr>"

definition revoked :: tls_endpoint where
  "revoked =
    \<lparr>sniPart = ''revoked'', plainTextAllowed = False,
     configureCertOptions = Some [(''revoked'', OBool True)],
     configureTlsOptions = None,
     configureAlpnPreferences = None,
     e_meta = \<lparr>m_path = ''revoked'',
       m_description = ''Serves a revoked TLS certificate (by stapled OCSP for local root, or CRL for public root).'',
       m_examples = [''https://revoked.testserver.host/''], m_group = Some tlsCertificateModes\<rparr>\<rparr>"

definition selfSigned :: tls_endpoint where
  "selfSigned =
    \<lparr>sniPart = ''self-signed'', plainTextAllowed = False,
     configureCertOptions = Some [(''requiredType'', OStr ''local''),
       (''selfSigned'', OBool True)],
     configureTlsOptions = None,
     configureAlpnPreferences = None,
     e_meta = \<lparr>m_path = ''self-signed'',
       m_description = ''Serves a self-signed TLS certificate.'',
       m_examples = [''https://self-signed.testserver.host/''], m_group = Some tlsCertificateModes\<rparr>\<rparr>"

definition untrustedRoot :: tls_endpoint where
  "untrustedRoot =
    \<lparr>sniPart = ''untrusted-root'', plainTextAllowed = False,
     configureCertOptions = Some [(''requiredType'', OStr ''local''),
       (''selfSigned'', OBool False)],
     configureTlsOptions = None,
     configureAlpnPreferences = None,
     e_meta = \<lparr>m_path = ''untrusted-root'',
       m_description = ''Serves a TLS certificate signed by an untrusted root CA.'',
       m_examples = [''https://untrusted-root.testserver.host/''], m_group = Some tlsCertificateModes\<rparr>\<rparr>"

definition noCommonName :: tls_endpoint where
  "noCommonName =
    \<lparr>sniPart = ''no-common-name'', plainTextAllowed = False,
     configureCertOptions = Some [(''requiredType'', OStr ''local''),
       (''noCommonName'', OBool True)],
     configureTlsOptions = None,
     configureAlpnPreferences = None,
     e_meta = \<lparr>m_path = ''no-common-name'',
       m_description = ''Serves a TLS certificate with no Common Name (Subject Alternative Name only). Local CA only.'',
       m_examples = [''https://no-common-name.testserver.host/''], m_group = Some tlsCertificateModes\<rparr>\<rparr>"

definition incompleteChain :: tls_endpoint where
  "incompleteChain =
    \<lparr>sniPart = ''incomplete-chain'', plainTextAllowed = False,
     configureCertOptions = Some [(''incompleteChain'', OBool True),
       (''selfSigned'', OBool False)],
     configureTlsOptions = None,
     configureAlpnPreferences = None,
     e_meta = \<lparr>m_path = ''incomplete-chain'',
       m_description = ''Serves a TLS certificate without the required intermediate certificate.'',
       m_examples = [''https://incomplete-chain.testserver.host/''], m_group = Some tlsCertificateModes\<rparr>\<rparr>"

definition sha1Sig :: tls_endpoint where
  "sha1Sig =
    \<lparr>sniPart = ''sha1-sig'', plainTextAllowed = False,
     configureCertOptions = Some [(''requiredType'', OStr ''local''),
       (''sha1Signature'', OBool True)],
     configureTlsOptions = Some [(''securityLevel'', ONum 0)],
     configureAlpnPreferences = None,
     e_meta = \<lparr>m_path = ''sha1-sig'',
       m_description = ''Serves a certificate signed with SHA-1 (insecure).'',
       m_examples = [''https://sha1-sig.testserver.host/''], m_group = Some tlsCertificateModes\<rparr>\<rparr>"

definition wrongHost :: tls_endpoint where
  "wrongHost =
    \<lparr>sniPart = ''wrong-host'', plainTextAllowed = False,
     configureCertOptions = Some [(''overridePrefix'', OStr ''example'')],
     configureTlsOptions = None,
     configureAlpnPreferences = None,
     e_meta = \<lparr>m_path = ''wrong-host'',
       m_description = ''Serves a TLS certificate for a different hostname.'',
       m_examples = [''https://wrong-host.testserver.host/''], m_group = Some tlsCertificateModes\<rparr>\<rparr>"

section \<open>Ciphers\<close>

definition DH_1024_PARAMS :: string where
  "DH_1024_PARAMS =
     (''-----BEGIN DH PARAMETERS-----'' @ [CHR 0x0A] @
     ''MIGHAoGBAPwIcVZU2Dt7WtCI8hhI8wECGgMidZpXASdKXwAQReA+739EGI4HUmM4'' @ [CHR 0x0A] @
     ''qkm2vyhAReLHc4UALQI8SKV5G7WDHKIAZi0sDofR3qitV2Z44aVk0u4Z3M8S1NA9'' @ [CHR 0x0A] @
     ''aSgcv6Iz0BQPADQkEq28bRT0i3/A+K6DuHbC98RtnhqF+OuaHXJ/AgEC'' @ [CHR 0x0A] @
     ''-----END DH PARAMETERS-----'')"

definition DH_2048_PARAMS :: string where
  "DH_2048_PARAMS =
     (''-----BEGIN DH PARAMETERS-----'' @ [CHR 0x0A] @
     ''MIIBCAKCAQEAhEM9PY7cnvVzkOwE37JFRQCwoEa3sXoxbvLy5sHkPPwpu8/jM4wZ'' @ [CHR 0x0A] @
     ''C0v7T1EOf6Kk94NZDAnghUC8t0PGV9Dfel/QOG7F/fBiiGyqyMHg99+aLxsbY5i3'' @ [CHR 0x0A] @
     ''Y6eIwZj7JeuEIgrIS2NQ67Pn8tPEr7yDZHscJruyY+97K56h3h16Oyjgp8YLeglJ'' @ [CHR 0x0A] @
     ''iMLZxVVqLNY0bI9is9Prhf9+QRgepuGK3eBaSybJYpdXv3ztWF5l8wgy+GxkZJB9'' @ [CHR 0x0A] @
     ''aI/FRfUQi5FLOLv7p8v2LOvHVsoZZoMZh4DcH7BbNfyf2SYbz/tPcSDm2sZd57WK'' @ [CHR 0x0A] @
     ''oBMuASJHcaqiTS7Al86HkBdup48Xe4jGjwIBAg=='' @ [CHR 0x0A] @
     ''-----END DH PARAMETERS-----'')"

definition staticRsa :: tls_endpoint where
  "staticRsa =
    \<lparr>sniPart = ''static-rsa'', plainTextAllowed = False,
     configureCertOptions = None,
     configureTlsOptions = Some [(''ciphers'', OStr ''AES128-GCM-SHA256:AES256-GCM-SHA384:AES128-SHA:AES256-SHA''),
       (''securityLevel'', ONum 0),
       (''maxVersion'', OVersion TLSv1_2)],
     configureAlpnPreferences = None,
     e_meta = \<lparr>m_path = ''static-rsa'',
       m_description = ''Uses RSA key exchange only, so the connection has no forward secrecy.'',
       m_examples = [''https://static-rsa.testserver.host/''], m_group = Some tlsCiphers\<rparr>\<rparr>"

definition cbc :: tls_endpoint where
  "cbc =
    \<lparr>sniPart = ''cbc'', plainTextAllowed = False,
     configureCertOptions = None,
     configureTlsOptions = Some [(''ciphers'', OStr ''ECDHE-RSA-AES128-SHA:AES128-SHA''),
       (''securityLevel'', ONum 0),
       (''maxVersion'', OVersion TLSv1_2)],
     configureAlpnPreferences = None,
     e_meta = \<lparr>m_path = ''cbc'',
       m_description = ''Uses a CBC-mode cipher suite.'',
       m_examples = [''https://cbc.testserver.host/''], m_group = Some tlsCiphers\<rparr>\<rparr>"

definition nullCipher :: tls_endpoint where
  "nullCipher =
    \<lparr>sniPart = ''null-cipher'', plainTextAllowed = False,
     configureCertOptions = None,
     configureTlsOptions = Some [(''ciphers'', OStr ''NULL-SHA:NULL-SHA256''),
       (''securityLevel'', ONum 0),
       (''maxVersion'', OVersion TLSv1_2)],
     configureAlpnPreferences = None,
     e_meta = \<lparr>m_path = ''null-cipher'',
       m_description = ''Uses a NULL cipher: the handshake is authenticated but application data is unencrypted.'',
       m_examples = [''https://null-cipher.testserver.host/''], m_group = Some tlsCiphers\<rparr>\<rparr>"

definition dh1024 :: tls_endpoint where
  "dh1024 =
    \<lparr>sniPart = ''dh1024'', plainTextAllowed = False,
     configureCertOptions = None,
     configureTlsOptions = Some [(''ciphers'', OStr ''DHE-RSA-AES128-SHA:DHE-RSA-AES256-SHA''),
       (''securityLevel'', ONum 0),
       (''maxVersion'', OVersion TLSv1_2),
       (''dhparam'', OStr DH_1024_PARAMS)],
     configureAlpnPreferences = None,
     e_meta = \<lparr>m_path = ''dh1024'',
       m_description = ''Uses ephemeral Diffie-Hellman key exchange with a weak 1024-bit group.'',
       m_examples = [''https://dh1024.testserver.host/''], m_group = Some tlsCiphers\<rparr>\<rparr>"

definition dh2048 :: tls_endpoint where
  "dh2048 =
    \<lparr>sniPart = ''dh2048'', plainTextAllowed = False,
     configureCertOptions = None,
     configureTlsOptions = Some [(''ciphers'', OStr ''DHE-RSA-AES128-SHA:DHE-RSA-AES256-SHA''),
       (''securityLevel'', ONum 0),
       (''maxVersion'', OVersion TLSv1_2),
       (''dhparam'', OStr DH_2048_PARAMS)],
     configureAlpnPreferences = None,
     e_meta = \<lparr>m_path = ''dh2048'',
       m_description = ''Uses ephemeral Diffie-Hellman key exchange with a 2048-bit group.'',
       m_examples = [''https://dh2048.testserver.host/''], m_group = Some tlsCiphers\<rparr>\<rparr>"

section \<open>Client certificates\<close>

definition clientCert :: tls_endpoint where
  "clientCert =
    \<lparr>sniPart = ''client-cert'', plainTextAllowed = False,
     configureCertOptions = None,
     configureTlsOptions = Some [(''requireClientCert'', OBool True)],
     configureAlpnPreferences = None,
     e_meta = \<lparr>m_path = ''client-cert'',
       m_description = (''Requires the client to present a certificate (mutual TLS). The handshake is rejected unless the client presents a certificate issued by this server'' @ [CHR 0x27] @ ''s dedicated client-auth CA. Download one to use from /tls/certs/client-cert.''),
       m_examples = [''https://client-cert.testserver.host/''], m_group = Some tlsClientAuth\<rparr>\<rparr>"

section \<open>Plain pages\<close>

definition example :: tls_endpoint where
  "example =
    \<lparr>sniPart = ''example'', plainTextAllowed = True,
     configureCertOptions = None,
     configureTlsOptions = None,
     configureAlpnPreferences = None,
     e_meta = \<lparr>m_path = ''example'',
       m_description = ''An example subdomain that serves an exact copy of the classic example.com page as the root page (instead of these docs).'',
       m_examples = [''https://example.testserver.host/''], m_group = None\<rparr>\<rparr>"

section \<open>Key sizes\<close>

definition rsa512 :: tls_endpoint where
  "rsa512 =
    \<lparr>sniPart = ''rsa512'', plainTextAllowed = False,
     configureCertOptions = Some [(''requiredType'', OStr ''local''),
       (''keyBits'', ONum 512)],
     configureTlsOptions = Some [(''ciphers'', OStr ''AES128-SHA''),
       (''securityLevel'', ONum 0),
       (''maxVersion'', OVersion TLSv1_2)],
     configureAlpnPreferences = None,
     e_meta = \<lparr>m_path = ''rsa512'',
       m_description = ''Serves a certificate with a 512-bit RSA key, below the 1024-bit floor.'',
       m_examples = [''https://rsa512.testserver.host/''], m_group = Some tlsKeySizes\<rparr>\<rparr>"

definition rsa1024 :: tls_endpoint where
  "rsa1024 =
    \<lparr>sniPart = ''rsa1024'', plainTextAllowed = False,
     configureCertOptions = Some [(''requiredType'', OStr ''local''),
       (''keyBits'', ONum 1024)],
     configureTlsOptions = Some [(''securityLevel'', ONum 1)],
     configureAlpnPreferences = None,
     e_meta = \<lparr>m_path = ''rsa1024'',
       m_description = ''Serves a certificate with a 1024-bit RSA key.'',
       m_examples = [''https://rsa1024.testserver.host/''], m_group = Some tlsKeySizes\<rparr>\<rparr>"

definition rsa2048 :: tls_endpoint where
  "rsa2048 =
    \<lparr>sniPart = ''rsa2048'', plainTextAllowed = False,
     configureCertOptions = Some [(''requiredType'', OStr ''local''),
       (''keyBits'', ONum 2048)],
     configureTlsOptions = None,
     configureAlpnPreferences = None,
     e_meta = \<lparr>m_path = ''rsa2048'',
       m_description = ''Serves a certificate with a 2048-bit RSA key.'',
       m_examples = [''https://rsa2048.testserver.host/''], m_group = Some tlsKeySizes\<rparr>\<rparr>"

definition rsa4096 :: tls_endpoint where
  "rsa4096 =
    \<lparr>sniPart = ''rsa4096'', plainTextAllowed = False,
     configureCertOptions = Some [(''requiredType'', OStr ''local''),
       (''keyBits'', ONum 4096)],
     configureTlsOptions = None,
     configureAlpnPreferences = None,
     e_meta = \<lparr>m_path = ''rsa4096'',
       m_description = ''Serves a certificate with a 4096-bit RSA key.'',
       m_examples = [''https://rsa4096.testserver.host/''], m_group = Some tlsKeySizes\<rparr>\<rparr>"

definition rsa8192 :: tls_endpoint where
  "rsa8192 =
    \<lparr>sniPart = ''rsa8192'', plainTextAllowed = False,
     configureCertOptions = Some [(''requiredType'', OStr ''local''),
       (''keyBits'', ONum 8192)],
     configureTlsOptions = None,
     configureAlpnPreferences = None,
     e_meta = \<lparr>m_path = ''rsa8192'',
       m_description = ''Serves a certificate with an 8192-bit RSA key.'',
       m_examples = [''https://rsa8192.testserver.host/''], m_group = Some tlsKeySizes\<rparr>\<rparr>"

section \<open>No TLS\<close>

definition noTls :: tls_endpoint where
  "noTls =
    \<lparr>sniPart = ''no-tls'', plainTextAllowed = True,
     configureCertOptions = None,
     configureTlsOptions = Some [(''rejectTls'', OBool True)],
     configureAlpnPreferences = None,
     e_meta = \<lparr>m_path = ''no-tls'',
       m_description = ''Rejects the TLS handshake with a connection reset, simulating a server that does not support TLS.'',
       m_examples = [''https://no-tls.testserver.host/''], m_group = None\<rparr>\<rparr>"

section \<open>TLS versions\<close>

definition tlsV1 :: tls_endpoint where
  "tlsV1 =
    \<lparr>sniPart = ''tls-v1-0'', plainTextAllowed = False,
     configureCertOptions = None,
     configureTlsOptions = Some [(''enabledVersions'', OVersions [TLSv1])],
     configureAlpnPreferences = None,
     e_meta = \<lparr>m_path = ''tls-v1-0'',
       m_description = ''Accepts only TLS 1.0 connections.'',
       m_examples = [''https://tls-v1-0.testserver.host/''], m_group = Some tlsVersions\<rparr>\<rparr>"

definition tlsV1_1 :: tls_endpoint where
  "tlsV1_1 =
    \<lparr>sniPart = ''tls-v1-1'', plainTextAllowed = False,
     configureCertOptions = None,
     configureTlsOptions = Some [(''enabledVersions'', OVersions [TLSv1_1])],
     configureAlpnPreferences = None,
     e_meta = \<lparr>m_path = ''tls-v1-1'',
       m_description = ''Accepts only TLS 1.1 connections.'',
       m_examples = [''https://tls-v1-1.testserver.host/''], m_group = Some tlsVersions\<rparr>\<rparr>"

definition tlsV1_2 :: tls_endpoint where
  "tlsV1_2 =
    \<lparr>sniPart = ''tls-v1-2'', plainTextAllowed = False,
     configureCertOptions = None,
     configureTlsOptions = Some [(''enabledVersions'', OVersions [TLSv1_2])],
     configureAlpnPreferences = None,
     e_meta = \<lparr>m_path = ''tls-v1-2'',
       m_description = ''Accepts only TLS 1.2 connections.'',
       m_examples = [''https://tls-v1-2.testserver.host/''], m_group = Some tlsVersions\<rparr>\<rparr>"

definition tlsV1_3 :: tls_endpoint where
  "tlsV1_3 =
    \<lparr>sniPart = ''tls-v1-3'', plainTextAllowed = False,
     configureCertOptions = None,
     configureTlsOptions = Some [(''enabledVersions'', OVersions [TLSv1_3])],
     configureAlpnPreferences = None,
     e_meta = \<lparr>m_path = ''tls-v1-3'',
       m_description = ''Accepts only TLS 1.3 connections.'',
       m_examples = [''https://tls-v1-3.testserver.host/''], m_group = Some tlsVersions\<rparr>\<rparr>"

section \<open>ALPN\<close>

definition http2 :: tls_endpoint where
  "http2 =
    \<lparr>sniPart = ''http2'', plainTextAllowed = False,
     configureCertOptions = None,
     configureTlsOptions = None,
     configureAlpnPreferences = Some (\<lambda>alpnList. alpnList @ [''h2'']),
     e_meta = \<lparr>m_path = ''http2'',
       m_description = ''Forces HTTP/2 protocol via ALPN negotiation.'',
       m_examples = [''https://http2.testserver.host/''], m_group = Some tlsProtocolNegotiation\<rparr>\<rparr>"

definition http1 :: tls_endpoint where
  "http1 =
    \<lparr>sniPart = ''http1'', plainTextAllowed = False,
     configureCertOptions = None,
     configureTlsOptions = None,
     configureAlpnPreferences = Some (\<lambda>alpnList. alpnList @ [''http/1.1'']),
     e_meta = \<lparr>m_path = ''http1'',
       m_description = ''Forces HTTP/1.1 protocol via ALPN negotiation.'',
       m_examples = [''https://http1.testserver.host/''], m_group = Some tlsProtocolNegotiation\<rparr>\<rparr>"

section \<open>The endpoint list\<close>

definition tlsEndpoints :: "tls_endpoint list" where
  "tlsEndpoints =
    [cbc, clientCert, dh1024, dh2048, example, expired, http1, http2, incompleteChain,
     noCommonName, noTls, nullCipher, revoked, rsa1024, rsa2048, rsa4096, rsa512, rsa8192,
     selfSigned, sha1Sig, staticRsa, tlsV1, tlsV1_1, tlsV1_2, tlsV1_3, untrustedRoot,
     wrongHost]"

lemmas tls_endpoint_defs =
  cbc_def clientCert_def dh1024_def dh2048_def example_def expired_def http1_def
  http2_def incompleteChain_def noCommonName_def noTls_def nullCipher_def revoked_def
  rsa1024_def rsa2048_def rsa4096_def rsa512_def rsa8192_def selfSigned_def sha1Sig_def
  staticRsa_def tlsV1_def tlsV1_1_def tlsV1_2_def tlsV1_3_def untrustedRoot_def
  wrongHost_def

lemma sniPart_simps [simp]:
  "sniPart cbc = ''cbc''"
  "sniPart clientCert = ''client-cert''"
  "sniPart dh1024 = ''dh1024''"
  "sniPart dh2048 = ''dh2048''"
  "sniPart example = ''example''"
  "sniPart expired = ''expired''"
  "sniPart http1 = ''http1''"
  "sniPart http2 = ''http2''"
  "sniPart incompleteChain = ''incomplete-chain''"
  "sniPart noCommonName = ''no-common-name''"
  "sniPart noTls = ''no-tls''"
  "sniPart nullCipher = ''null-cipher''"
  "sniPart revoked = ''revoked''"
  "sniPart rsa1024 = ''rsa1024''"
  "sniPart rsa2048 = ''rsa2048''"
  "sniPart rsa4096 = ''rsa4096''"
  "sniPart rsa512 = ''rsa512''"
  "sniPart rsa8192 = ''rsa8192''"
  "sniPart selfSigned = ''self-signed''"
  "sniPart sha1Sig = ''sha1-sig''"
  "sniPart staticRsa = ''static-rsa''"
  "sniPart tlsV1 = ''tls-v1-0''"
  "sniPart tlsV1_1 = ''tls-v1-1''"
  "sniPart tlsV1_2 = ''tls-v1-2''"
  "sniPart tlsV1_3 = ''tls-v1-3''"
  "sniPart untrustedRoot = ''untrusted-root''"
  "sniPart wrongHost = ''wrong-host''"
  by (simp_all add: tls_endpoint_defs)

end
