(* ===== verification/Endpoint_Chain.thy ===== *)
theory Endpoint_Chain
  imports Js_Number Endpoint_Meta
begin

text \<open>
  \<^verbatim>\<open>src/endpoint-chain.ts\<close>: a path is resolved to a chain of endpoints, each of which
  leaves the rest of the path to the next one. The specification is the relation \<open>routes\<close>,
  and resolution implements it up to the depth bound. The locale \<open>chainable\<close> is what the
  endpoint lists promise (every step uses up part of the path); the HTTP and the WebSocket
  endpoint lists interpret it.
\<close>

section \<open>The code\<close>

text \<open>
  A matcher may throw; a hostname prefix is \<open>None\<close> when undefined; \<open>getRemainingPath\<close> of an
  endpoint that does not define it is constantly \<open>None\<close>.
\<close>

record 'h endpoint =
  ep_name :: string
  matchPath :: "string \<Rightarrow> string option \<Rightarrow> bool fallible"
  getRemainingPath :: "string \<Rightarrow> string option"
  handle :: 'h
  ep_meta :: "endpoint_meta option"

definition MAX_CHAIN_DEPTH :: nat where
  "MAX_CHAIN_DEPTH = 10"

text \<open>\<open>endpoints.find(\<dots>)\<close>: a matcher that throws stops the search.\<close>

fun find_endpoint :: "('h, 'z) endpoint_scheme list \<Rightarrow> string \<Rightarrow> string option
    \<Rightarrow> ('h, 'z) endpoint_scheme option fallible" where
  "find_endpoint [] path hostnamePrefix = Inr None"
| "find_endpoint (ep # eps) path hostnamePrefix =
     (case matchPath ep path hostnamePrefix of
        Inl e \<Rightarrow> Inl e
      | Inr True \<Rightarrow> Inr (Some ep)
      | Inr False \<Rightarrow> find_endpoint eps path hostnamePrefix)"

definition not_found :: "string \<Rightarrow> string option \<Rightarrow> js_exn" where
  "not_found initialPath hostnamePrefix =
     StatusError 404 (''Could not match endpoint for '' @ initialPath @
       (case hostnamePrefix of Some h \<Rightarrow> if h = [] then [] else '' ('' @ h @ '')'' | None \<Rightarrow> []))"

definition too_deep :: "string \<Rightarrow> js_exn" where
  "too_deep initialPath = StatusError 400 (''Endpoint chain exceeded maximum depth for '' @ initialPath)"

text \<open>The \<open>while\<close> loop; the empty path and \<open>undefined\<close> are both falsy.\<close>

definition present :: "string option \<Rightarrow> bool" where
  "present path \<longleftrightarrow> path \<noteq> None \<and> path \<noteq> Some []"

function chain_loop :: "('h, 'z) endpoint_scheme list \<Rightarrow> string \<Rightarrow> string option
    \<Rightarrow> (('h, 'z) endpoint_scheme \<times> string) list \<Rightarrow> string option
    \<Rightarrow> (('h, 'z) endpoint_scheme \<times> string) list fallible" where
  "chain_loop eps initialPath hostnamePrefix entries path =
     (if present path \<and> length entries \<le> MAX_CHAIN_DEPTH then
        (case find_endpoint eps (the path) hostnamePrefix of
           Inl e \<Rightarrow> Inl e
         | Inr None \<Rightarrow> Inl (not_found initialPath hostnamePrefix)
         | Inr (Some ep) \<Rightarrow>
             chain_loop eps initialPath hostnamePrefix (entries @ [(ep, the path)]) (getRemainingPath ep (the path)))
      else if present path then Inl (too_deep initialPath)
      else Inr entries)"
  by pat_completeness auto
termination
  by (relation "measure (\<lambda>(_, _, _, entries, _). Suc MAX_CHAIN_DEPTH - length entries)") auto

declare chain_loop.simps [simp del]

definition resolveEndpointChain :: "('h, 'z) endpoint_scheme list \<Rightarrow> string \<Rightarrow> string option
    \<Rightarrow> (('h, 'z) endpoint_scheme \<times> string) list fallible" where
  "resolveEndpointChain eps initialPath hostnamePrefix =
     chain_loop eps initialPath hostnamePrefix [] (Some initialPath)"

section \<open>Specification\<close>

text \<open>
  \<open>routes eps h path es\<close>: starting from \<open>path\<close>, each entry is the endpoint that claims what
  is left of the path, until nothing is left.
\<close>

inductive routes :: "('h, 'z) endpoint_scheme list \<Rightarrow> string option \<Rightarrow> string option
    \<Rightarrow> (('h, 'z) endpoint_scheme \<times> string) list \<Rightarrow> bool"
  for eps h where
  stop: "\<not> present path \<Longrightarrow> routes eps h path []"
| step: "present path \<Longrightarrow> find_endpoint eps (the path) h = Inr (Some ep) \<Longrightarrow>
    routes eps h (getRemainingPath ep (the path)) es \<Longrightarrow> routes eps h path ((ep, the path) # es)"

inductive_cases routes_NilE: "routes eps h path []"
inductive_cases routes_ConsE: "routes eps h path (e # es)"
inductive_simps routes_Nil: "routes eps h path []"
inductive_simps routes_Cons: "routes eps h path (e # es)"

lemma routes_unique: "routes eps h path es \<Longrightarrow> routes eps h path es' \<Longrightarrow> es = es'"
proof (induction arbitrary: es' rule: routes.induct)
  case (stop path)
  then show ?case by (auto elim: routes.cases)
next
  case (step path ep es)
  then obtain es1 where "es' = (ep, the path) # es1" "routes eps h (getRemainingPath ep (the path)) es1"
    by (auto elim: routes.cases)
  with step.IH show ?case by simp
qed

lemma chain_loop_Inr:
  assumes "length entries \<le> Suc MAX_CHAIN_DEPTH"
  shows "chain_loop eps i h entries path = Inr es \<longleftrightarrow>
    (\<exists>es'. routes eps h path es' \<and> es = entries @ es' \<and> length es \<le> Suc MAX_CHAIN_DEPTH)"
  using assms
proof (induction eps i h entries path rule: chain_loop.induct)
  case (1 eps i h entries path)
  show ?case
  proof (cases "present path \<and> length entries \<le> MAX_CHAIN_DEPTH")
    case False
    have "\<not> present path \<or> length entries = Suc MAX_CHAIN_DEPTH" using False 1(2) by auto
    then show ?thesis
    proof
      assume "\<not> present path"
      then have "routes eps h path es' \<longleftrightarrow> es' = []" for es'
        by (auto elim: routes.cases intro: routes.stop)
      then show ?thesis
        using \<open>\<not> present path\<close> 1(2) by (auto simp: chain_loop.simps [of eps i h entries path])
    next
      assume "length entries = Suc MAX_CHAIN_DEPTH"
      then show ?thesis
        by (cases "present path") (auto simp: chain_loop.simps [of eps i h entries path] elim: routes.cases intro: routes.stop)
    qed
  next
    case True
    show ?thesis
    proof (cases "find_endpoint eps (the path) h")
      case (Inl e)
      then show ?thesis
        using True by (auto simp: chain_loop.simps [of eps i h entries path] elim: routes.cases)
    next
      case (Inr r)
      show ?thesis
      proof (cases r)
        case None
        then show ?thesis
          using True Inr by (auto simp: chain_loop.simps [of eps i h entries path] elim: routes.cases)
      next
        case (Some ep)
        have found: "find_endpoint eps (the path) h = Inr (Some ep)" using Inr Some by simp
        have "routes eps h path es' \<longleftrightarrow>
            (\<exists>es1. es' = (ep, the path) # es1 \<and> routes eps h (getRemainingPath ep (the path)) es1)" for es'
          using True found by (auto elim: routes.cases intro: routes.step)
        then show ?thesis
          using 1(1) [OF True Inr Some] True found by (auto simp: chain_loop.simps [of eps i h entries path])
      qed
    qed
  qed
qed

text \<open>
  C6: Resolving a path gives the chain of endpoints that the routing relation describes,
  exactly when there is one with at most eleven entries (one more than \<open>MAX_CHAIN_DEPTH\<close>);
  otherwise it is an error.
\<close>

theorem chain_resolution:
  "resolveEndpointChain eps path h = Inr es \<longleftrightarrow>
     routes eps h (Some path) es \<and> length es \<le> Suc MAX_CHAIN_DEPTH"
  using chain_loop_Inr [of "[]" eps path h "Some path" es] by (simp add: resolveEndpointChain_def)

section \<open>Chains use up the path\<close>

lemma find_endpoint_mem:
  "find_endpoint eps path h = Inr (Some ep) \<Longrightarrow> ep \<in> set eps \<and> matchPath ep path h = Inr True"
  by (induction eps) (auto split: sum.splits bool.splits)

lemma routes_mem: "routes eps h path es \<Longrightarrow> \<forall>(ep, p) \<in> set es. ep \<in> set eps"
  by (induction rule: routes.induct) (auto dest: find_endpoint_mem)

text \<open>When at most one endpoint claims a path (matches it or throws), the order of the list is immaterial.\<close>

definition claims :: "('h, 'z) endpoint_scheme \<Rightarrow> string \<Rightarrow> string option \<Rightarrow> bool" where
  "claims ep path h \<longleftrightarrow> matchPath ep path h \<noteq> Inr False"

lemma starts_with_same: "starts_with s p \<Longrightarrow> starts_with s q \<Longrightarrow> starts_with p q \<or> starts_with q p"
  using starts_with_both by (metis nat_le_linear)

lemma find_endpoint_unique:
  assumes "ep \<in> set eps" and "matchPath ep path h = Inr True"
    and "\<And>ep'. ep' \<in> set eps \<Longrightarrow> ep' \<noteq> ep \<Longrightarrow> \<not> claims ep' path h"
  shows "find_endpoint eps path h = Inr (Some ep)"
  using assms
proof (induction eps)
  case (Cons e eps)
  show ?case
  proof (cases "e = ep")
    case True
    then show ?thesis using Cons.prems(2) by simp
  next
    case False
    then have "matchPath e path h = Inr False" using Cons.prems(3) by (auto simp: claims_def)
    then show ?thesis using Cons False by auto
  qed
qed simp

locale chainable =
  fixes eps :: "('h, 'z) endpoint_scheme list" and used :: nat
  assumes used_pos: "0 < used"
    and uses_up: "ep \<in> set eps \<Longrightarrow> matchPath ep path h = Inr True \<Longrightarrow>
      getRemainingPath ep path = Some rest \<Longrightarrow> rest = [] \<or> length rest + used \<le> length path"
begin

lemma step_shorter:
  assumes "find_endpoint eps path h = Inr (Some ep)" and "getRemainingPath ep path = Some rest" and "rest \<noteq> []"
  shows "length rest + used \<le> length path"
  using find_endpoint_mem [OF assms(1)] uses_up assms(2,3) by blast

lemma chain_length:
  "routes eps h path es \<Longrightarrow> es \<noteq> [] \<Longrightarrow> used * (length es - 1) < length (the path)"
proof (induction rule: routes.induct)
  case (step path ep es)
  show ?case
  proof (cases es)
    case Nil
    then show ?thesis using step.hyps(1) by (cases path) (auto simp: present_def)
  next
    case (Cons e es')
    then have "present (getRemainingPath ep (the path))"
      using step.hyps(3) by (auto elim: routes.cases)
    then obtain rest where rest: "getRemainingPath ep (the path) = Some rest" "rest \<noteq> []"
      by (cases "getRemainingPath ep (the path)") (auto simp: present_def)
    have "length rest + used \<le> length (the path)" by (rule step_shorter [OF step.hyps(2) rest])
    moreover have "used * length es' < length rest" using step.IH Cons rest by simp
    ultimately show ?thesis using Cons by simp
  qed
qed simp

text \<open>Without any bound on the depth, every path has a chain or meets an error.\<close>

lemma chain_total:
  assumes "present path"
  shows "(\<exists>es. routes eps h path es) \<or>
    (\<exists>p. p \<noteq> [] \<and> length p \<le> length (the path) \<and> (\<forall>ep. find_endpoint eps p h \<noteq> Inr (Some ep)))"
  using assms
proof (induction "length (the path)" arbitrary: path rule: less_induct)
  case less
  show ?case
  proof (cases "\<exists>ep. find_endpoint eps (the path) h = Inr (Some ep)")
    case False
    then show ?thesis using less.prems by (cases path) (auto simp: present_def)
  next
    case True
    then obtain ep where ep: "find_endpoint eps (the path) h = Inr (Some ep)" ..
    show ?thesis
    proof (cases "present (getRemainingPath ep (the path))")
      case False
      then show ?thesis using routes.step [OF less.prems ep routes.stop] by blast
    next
      case True
      then obtain rest where rest: "getRemainingPath ep (the path) = Some rest" "rest \<noteq> []"
        by (cases "getRemainingPath ep (the path)") (auto simp: present_def)
      have "length rest < length (the path)" using step_shorter [OF ep rest] used_pos by simp
      then show ?thesis
        using less.hyps [of "Some rest"] True rest routes.step [OF less.prems ep]
        by (auto simp: present_def)
    qed
  qed
qed

lemma resolve_short:
  assumes "length path \<le> used * Suc MAX_CHAIN_DEPTH"
  shows "resolveEndpointChain eps path h = Inr es \<longleftrightarrow> routes eps h (Some path) es"
proof -
  have "length es \<le> Suc MAX_CHAIN_DEPTH" if r: "routes eps h (Some path) es"
  proof (cases "es = []")
    case False
    have "used * (length es - 1) < used * Suc MAX_CHAIN_DEPTH"
      using chain_length [OF r False] assms by simp
    then have "length es - 1 < Suc MAX_CHAIN_DEPTH" using used_pos mult_less_cancel1 by blast
    then show ?thesis by simp
  qed simp
  then show ?thesis
    using chain_loop_Inr [of "[]" eps path h "Some path" es] by (auto simp: resolveEndpointChain_def)
qed

end

end
