(* ===== verification/Endpoint_Config.thy ===== *)
theory Endpoint_Config
  imports Tls_Endpoints Endpoint_Chain "HOL-Library.Multiset"
begin

text \<open>
  \<^verbatim>\<open>src/endpoints/endpoint-config.ts\<close>: from the server name of a connection to the
  certificate, TLS and ALPN options of its endpoint parts. The properties: every combination
  of endpoints has a name that selects it, a combination is valid exactly when it is small
  enough and its endpoints are compatible in pairs, the resulting options do not depend on
  the order of the parts, and the version endpoints enable exactly the versions they name.
\<close>

section \<open>The code\<close>

definition MAX_SNI_PARTS :: nat where
  "MAX_SNI_PARTS = 4"

text \<open>\<open>s.slice(0, -n)\<close> is empty when \<open>n\<close> exceeds the length, as \<^const>\<open>slice_off_end\<close> is.\<close>

definition getSNIPrefixParts :: "string \<Rightarrow> string \<Rightarrow> string list" where
  "getSNIPrefixParts servername rootDomain =
     (let serverNamePrefix =
        (if ends_with servername rootDomain then slice_off_end (length rootDomain + 1) servername
         else servername) in
      if serverNamePrefix = [] then []
      else if includes_sub serverNamePrefix ''--'' then split_seq ''--'' serverNamePrefix
      else split_seq ''.'' serverNamePrefix)"

text \<open>The prefix that both request handlers compute from the host of the URL.\<close>

definition hostnamePrefix :: "string \<Rightarrow> string \<Rightarrow> string option" where
  "hostnamePrefix host rootDomain =
     (if ends_with host rootDomain then Some (slice_off_end (length rootDomain + 1) host) else None)"

record endpoint_config =
  certOptions :: options
  tlsOptions :: options
  alpnPreferences :: "string list"
  rejectTls :: bool
  requireClientCert :: bool

definition find_tls_endpoint :: "string \<Rightarrow> tls_endpoint option" where
  "find_tls_endpoint part = find (\<lambda>e. sniPart e = part) tlsEndpoints"

definition quote :: "string \<Rightarrow> string" where
  "quote s = [CHR 0x27] @ s @ [CHR 0x27]"

fun config_loop :: "options \<Rightarrow> options \<Rightarrow> string list \<Rightarrow> string list
    \<Rightarrow> (options \<times> options \<times> string list) fallible" where
  "config_loop cert tls alpn [] = Inr (cert, tls, alpn)"
| "config_loop cert tls alpn (part # parts) =
     (case find_tls_endpoint part of
        None \<Rightarrow> Inl (JsError (''Unknown endpoint '' @ quote part))
      | Some endpoint \<Rightarrow>
          case mergeContribution cert (configureCertOptions endpoint) of Inl e \<Rightarrow> Inl e | Inr cert' \<Rightarrow>
          case mergeContribution tls (configureTlsOptions endpoint) of Inl e \<Rightarrow> Inl e | Inr tls' \<Rightarrow>
            config_loop cert' tls'
              (case configureAlpnPreferences endpoint of None \<Rightarrow> alpn | Some f \<Rightarrow> f alpn) parts)"

definition getEndpointConfig :: "string list \<Rightarrow> endpoint_config fallible" where
  "getEndpointConfig serverNameParts =
     (if length serverNameParts > MAX_SNI_PARTS then
        Inl (JsError (''Too many endpoint parts ('' @ nat_str (length serverNameParts) @ '', max '' @
          nat_str MAX_SNI_PARTS @ '')''))
      else if card (set serverNameParts) \<noteq> length serverNameParts then
        Inl (JsError (''Duplicate endpoint parts in '' @ quote (join ''--'' serverNameParts)))
      else
        case config_loop [] [] [] serverNameParts of
          Inl e \<Rightarrow> Inl e
        | Inr (cert, tls, alpn) \<Rightarrow>
            let tls = resolveSecurityLevel (resolveEnabledVersions tls);
                reject = (get tls ''rejectTls'' = OBool True);
                tls = AList.delete ''rejectTls'' tls;
                require = (get tls ''requireClientCert'' = OBool True);
                tls = AList.delete ''requireClientCert'' tls
            in
            if reject \<and> length serverNameParts > 1 then
              Inl (JsError (quote ''no-tls'' @ '' can'' @ [CHR 0x27] @ ''t be combined with other endpoints in '' @
                quote (join ''--'' serverNameParts)))
            else
              Inr \<lparr>certOptions = cert, tlsOptions = tls, alpnPreferences = alpn,
                rejectTls = reject, requireClientCert = require\<rparr>)"

text \<open>\<open>e instanceof Error ? e.message : String(e)\<close>: everything thrown here is an \<open>Error\<close>.\<close>

fun error_message :: "js_exn \<Rightarrow> string" where
  "error_message (StatusError status msg) = msg"
| "error_message (JsError msg) = msg"
| "error_message UriError = ''URI malformed''"

definition validateEndpointParts :: "string list \<Rightarrow> string option" where
  "validateEndpointParts serverNameParts =
     (case getEndpointConfig serverNameParts of Inl e \<Rightarrow> Some (error_message e) | Inr c \<Rightarrow> None)"

section \<open>Messages\<close>

text \<open>A combination that is not valid is refused with a message.\<close>

lemma combiner_error: "FIELD_COMBINERS key = Some combine \<Longrightarrow> combine a b = Inl e \<Longrightarrow> e = type_error"
  by (auto simp: FIELD_COMBINERS_def elim: combine_versions.elims combine_level.elims split: if_splits)

lemma merge_error_message: "merge_entries acc xs = Inl e \<Longrightarrow> error_message e \<noteq> []"
  by (induction acc xs rule: merge_entries.induct)
    (auto simp: conflict_error_def type_error_def dest!: combiner_error split: if_splits option.splits sum.splits)

lemma config_error_message: "config_loop cert tls alpn parts = Inl e \<Longrightarrow> error_message e \<noteq> []"
  by (induction cert tls alpn parts rule: config_loop.induct)
    (auto simp: mergeContribution_def dest: merge_error_message split: option.splits sum.splits)

lemma validate_present [simp]: "present (validateEndpointParts parts) \<longleftrightarrow> validateEndpointParts parts \<noteq> None"
  by (auto simp: validateEndpointParts_def getEndpointConfig_def present_def Let_def dest: config_error_message
      split: sum.splits prod.splits if_splits)

section \<open>Facts about the endpoint list\<close>

definition opt_entries :: "options option \<Rightarrow> options" where
  "opt_entries c = (case c of None \<Rightarrow> [] | Some es \<Rightarrow> es)"

definition cert_entries :: "string list \<Rightarrow> options" where
  "cert_entries parts =
     concat (map (\<lambda>p. opt_entries (Option.bind (find_tls_endpoint p) configureCertOptions)) parts)"

definition tls_entries :: "string list \<Rightarrow> options" where
  "tls_entries parts =
     concat (map (\<lambda>p. opt_entries (Option.bind (find_tls_endpoint p) configureTlsOptions)) parts)"

definition known :: "string \<Rightarrow> bool" where
  "known part \<longleftrightarrow> find_tls_endpoint part \<noteq> None"

definition sni_names :: "string list" where
  "sni_names = map sniPart tlsEndpoints"

lemma known_iff: "known part \<longleftrightarrow> part \<in> set sni_names"
  by (auto simp: known_def find_tls_endpoint_def sni_names_def find_None_iff)

lemma find_tls_endpoint_mem: "find_tls_endpoint p = Some e \<Longrightarrow> e \<in> set tlsEndpoints \<and> sniPart e = p"
  by (auto simp: find_tls_endpoint_def find_Some_iff)

lemma endpoint_options_typed:
  "e \<in> set tlsEndpoints \<Longrightarrow>
    well_typed (opt_entries (configureTlsOptions e)) \<and> well_typed (opt_entries (configureCertOptions e))"
  by (auto simp: tlsEndpoints_def opt_entries_def well_typed_def tls_endpoint_defs)

lemma well_typed_concat: "well_typed (concat css) \<longleftrightarrow> (\<forall>cs \<in> set css. well_typed cs)"
  by (induction css) (auto simp: well_typed_def)

lemma opt_entries_simps [simp]: "opt_entries None = []" "opt_entries (Some es) = es"
  by (simp_all add: opt_entries_def)

lemma well_typed_Nil [simp]: "well_typed []"
  by (simp add: well_typed_def)

lemma entries_typed [simp]: "well_typed (tls_entries parts)" "well_typed (cert_entries parts)"
  using endpoint_options_typed find_tls_endpoint_mem
  by (auto simp: tls_entries_def cert_entries_def well_typed_concat split: Option.bind_splits)

lemma entries_Nil [simp]: "tls_entries [] = []" "cert_entries [] = []"
  by (simp_all add: tls_entries_def cert_entries_def)

lemma entries_Cons:
  "tls_entries (p # ps) = tls_entries [p] @ tls_entries ps"
  "cert_entries (p # ps) = cert_entries [p] @ cert_entries ps"
  by (simp_all add: tls_entries_def cert_entries_def)

lemma mergeContribution_entries: "mergeContribution acc c = merge_entries acc (opt_entries c)"
  by (simp add: mergeContribution_def opt_entries_def split: option.splits)

definition alpn_of :: "string list \<Rightarrow> string list \<Rightarrow> string list" where
  "alpn_of = foldl (\<lambda>alpn p. case Option.bind (find_tls_endpoint p) configureAlpnPreferences of
     None \<Rightarrow> alpn | Some f \<Rightarrow> f alpn)"

lemma config_loop_Inr:
  "config_loop cert tls alpn parts = Inr (cert', tls', alpn') \<longleftrightarrow>
     list_all known parts \<and> merge_entries cert (cert_entries parts) = Inr cert' \<and>
     merge_entries tls (tls_entries parts) = Inr tls' \<and> alpn' = alpn_of alpn parts"
proof (induction cert tls alpn parts rule: config_loop.induct)
  case (1 cert tls alpn)
  then show ?case by (auto simp: alpn_of_def)
next
  case (2 cert tls alpn part parts)
  show ?case
  proof (cases "find_tls_endpoint part")
    case None
    then show ?thesis by (simp add: known_def)
  next
    case (Some e)
    have ents: "cert_entries [part] = opt_entries (configureCertOptions e)"
      "tls_entries [part] = opt_entries (configureTlsOptions e)"
      using Some by (simp_all add: cert_entries_def tls_entries_def)
    show ?thesis
    proof (cases "merge_entries cert (opt_entries (configureCertOptions e))")
      case (Inl x)
      then show ?thesis
        by (simp add: Some mergeContribution_entries entries_Cons(2) [of part parts] ents merge_entries_append)
    next
      case cert: (Inr cert1)
      show ?thesis
      proof (cases "merge_entries tls (opt_entries (configureTlsOptions e))")
        case (Inl x)
        then show ?thesis
          by (simp add: Some cert mergeContribution_entries entries_Cons(1) [of part parts] ents merge_entries_append)
      next
        case (Inr tls1)
        then show ?thesis
          using 2 [OF Some, of cert1 tls1]
          by (simp add: Some cert Inr mergeContribution_entries entries_Cons [of part parts] ents
              merge_entries_append known_def alpn_of_def)
      qed
    qed
  qed
qed

lemma merge_entries_Inr_iff:
  assumes "well_typed cs"
  shows "(\<exists>acc. merge_entries [] cs = Inr acc) \<longleftrightarrow> agree cs"
  using merge_entries_spec [OF assms] by (cases "merge_entries [] cs") auto

lemma merge_entries_get:
  "well_typed cs \<Longrightarrow> merge_entries [] cs = Inr acc \<Longrightarrow> get acc key = combined key (field_values key cs)"
  using merge_entries_spec [of cs] by simp

text \<open>Agreement is a matter of pairs, and of the set of parts only.\<close>

lemma agree_concat:
  "agree (concat css) \<longleftrightarrow> (\<forall>cs \<in> set css. \<forall>ds \<in> set css. agree (cs @ ds))"
proof
  assume *: "agree (concat css)"
  show "\<forall>cs \<in> set css. \<forall>ds \<in> set css. agree (cs @ ds)"
    using * unfolding agree_def field_values_iff by auto
next
  assume *: "\<forall>cs \<in> set css. \<forall>ds \<in> set css. agree (cs @ ds)"
  show "agree (concat css)"
    unfolding agree_def field_values_iff
  proof (intro allI impI)
    fix key v w
    assume ex: "exclusive key" and "(key, v) \<in> set (concat css) \<and> v \<noteq> OUndef"
      and "(key, w) \<in> set (concat css) \<and> w \<noteq> OUndef"
    then obtain cs ds where "cs \<in> set css" "ds \<in> set css" "(key, v) \<in> set cs" "(key, w) \<in> set ds"
      "v \<noteq> OUndef" "w \<noteq> OUndef" by auto
    with * ex show "v = w" unfolding agree_def field_values_iff by (metis Un_iff set_append)
  qed
qed

lemma agree_entries:
  "agree (tls_entries ps) \<longleftrightarrow> (\<forall>p \<in> set ps. \<forall>q \<in> set ps. agree (tls_entries [p, q]))"
  "agree (cert_entries ps) \<longleftrightarrow> (\<forall>p \<in> set ps. \<forall>q \<in> set ps. agree (cert_entries [p, q]))"
  unfolding tls_entries_def cert_entries_def by (simp_all add: agree_concat)

lemma agree_pair:
  "agree (tls_entries [p, p]) = agree (tls_entries [p])"
  "agree (cert_entries [p, p]) = agree (cert_entries [p])"
  by (simp_all add: agree_entries [of "[p]"])

section \<open>Which combinations are valid\<close>

lemma endpoint_rejectTls:
  "e \<in> set tlsEndpoints \<Longrightarrow>
    field_values ''rejectTls'' (opt_entries (configureTlsOptions e)) =
      (if sniPart e = ''no-tls'' then [OBool True] else [])"
  by (auto simp: tlsEndpoints_def field_values_def tls_endpoint_defs)

lemma field_values_concat:
  "field_values key (concat css) = concat (map (field_values key) css)"
  by (induction css) (simp_all add: field_values_append field_values_def)

lemma rejectTls_values:
  assumes "list_all known ps"
  shows "set (field_values ''rejectTls'' (tls_entries ps)) = (if ''no-tls'' \<in> set ps then {OBool True} else {})"
  using assms
proof (induction ps)
  case (Cons p ps)
  then obtain e where e: "find_tls_endpoint p = Some e" "e \<in> set tlsEndpoints" "sniPart e = p"
    using find_tls_endpoint_mem by (auto simp: known_def)
  have "field_values ''rejectTls'' (tls_entries [p]) = (if p = ''no-tls'' then [OBool True] else [])"
    using endpoint_rejectTls [OF e(2)] e by (simp add: tls_entries_def)
  then show ?case
    using Cons by (auto simp: entries_Cons(1) [of p ps] field_values_append)
qed (simp add: field_values_def)

text \<open>What the two resolution steps do to each field.\<close>

definition disable_flags :: "tls_version list \<Rightarrow> 32 word \<Rightarrow> 32 word" where
  "disable_flags enabled so =
     foldl (\<lambda>so v. if v \<notin> set enabled then or so (VERSION_DISABLE_FLAGS v) else so) so VERSION_ORDER"

definition lowest_version :: "tls_version list \<Rightarrow> tls_version option" where
  "lowest_version enabled = find (\<lambda>v. v \<in> set enabled) VERSION_ORDER"

definition level_of :: "optval \<Rightarrow> int" where
  "level_of v = (case v of ONum n \<Rightarrow> min n 0 | _ \<Rightarrow> 0)"

definition legacy :: "tls_version option \<Rightarrow> bool" where
  "legacy v \<longleftrightarrow> v = Some TLSv1 \<or> v = Some TLSv1_1"

lemma get_resolveEnabledVersions:
  "get (resolveEnabledVersions t) key =
     (case get t ''enabledVersions'' of
        OVersions en \<Rightarrow>
          if key = ''enabledVersions'' then OUndef
          else if key = ''secureOptions'' then OFlags (disable_flags en (flags_of (get t ''secureOptions'')))
          else if key = ''minVersion'' \<and> lowest_version en \<noteq> None then OVersion (the (lowest_version en))
          else if key = ''securityLevel'' \<and> legacy (lowest_version en)
          then ONum (level_of (get t ''securityLevel''))
          else get t key
      | _ \<Rightarrow> get t key)"
  by (cases "get t ''enabledVersions''")
    (auto simp: resolveEnabledVersions_def Let_def disable_flags_def lowest_version_def level_of_def
      legacy_def split: option.splits)

lemma get_resolveSecurityLevel:
  "get (resolveSecurityLevel t) key =
     (case get t ''securityLevel'' of
        ONum level \<Rightarrow>
          if key = ''securityLevel'' then OUndef
          else if key = ''ciphers'' then
            OStr (strip_seclevel (case get t ''ciphers'' of OStr c \<Rightarrow> c | _ \<Rightarrow> ''DEFAULT'') @
              ''@SECLEVEL='' @ int_str level)
          else get t key
      | _ \<Rightarrow> get t key)"
  by (cases "get t ''securityLevel''") (auto simp: resolveSecurityLevel_def Let_def)

definition resolved :: "options \<Rightarrow> options" where
  "resolved t = AList.delete ''requireClientCert''
     (AList.delete ''rejectTls'' (resolveSecurityLevel (resolveEnabledVersions t)))"

text \<open>A marker is a field that resolution does not touch.\<close>

lemma get_resolved_marker:
  assumes "key = ''rejectTls'' \<or> key = ''requireClientCert''"
  shows "get (resolveSecurityLevel (resolveEnabledVersions t)) key = get t key"
  using assms
  by (auto simp: get_resolveSecurityLevel get_resolveEnabledVersions split: optval.splits)

definition config_of :: "string list \<Rightarrow> options \<Rightarrow> options \<Rightarrow> endpoint_config" where
  "config_of parts cert tls =
     \<lparr>certOptions = cert, tlsOptions = resolved tls, alpnPreferences = alpn_of [] parts,
      rejectTls = (get tls ''rejectTls'' = OBool True),
      requireClientCert = (get tls ''requireClientCert'' = OBool True)\<rparr>"

lemma getEndpointConfig_Inr:
  "getEndpointConfig parts = Inr c \<longleftrightarrow>
     length parts \<le> MAX_SNI_PARTS \<and> distinct parts \<and> list_all known parts \<and>
     (\<exists>cert tls. merge_entries [] (cert_entries parts) = Inr cert \<and>
        merge_entries [] (tls_entries parts) = Inr tls \<and>
        \<not> (get tls ''rejectTls'' = OBool True \<and> length parts > 1) \<and> c = config_of parts cert tls)"
proof (cases "length parts \<le> MAX_SNI_PARTS \<and> distinct parts")
  case False
  then show ?thesis
    by (auto simp: getEndpointConfig_def dest: card_distinct)
next
  case True
  then have *: "\<not> MAX_SNI_PARTS < length parts" "card (set parts) = length parts"
    by (auto simp: distinct_card)
  show ?thesis
  proof (cases "config_loop [] [] [] parts")
    case (Inl e)
    then have "config_loop [] [] [] parts \<noteq> Inr (cert, tls, alpn_of [] parts)" for cert tls by simp
    then have "\<not> (list_all known parts \<and> merge_entries [] (cert_entries parts) = Inr cert \<and>
        merge_entries [] (tls_entries parts) = Inr tls)" for cert tls
      by (simp add: config_loop_Inr)
    then show ?thesis using * Inl by (auto simp: getEndpointConfig_def)
  next
    case (Inr r)
    obtain cert tls alpn where r: "r = (cert, tls, alpn)" by (metis prod_cases3)
    then have "list_all known parts" "merge_entries [] (cert_entries parts) = Inr cert"
      "merge_entries [] (tls_entries parts) = Inr tls" "alpn = alpn_of [] parts"
      using Inr by (simp_all add: config_loop_Inr)
    then show ?thesis
      using * True Inr r
      by (auto simp: getEndpointConfig_def Let_def get_resolved_marker config_of_def resolved_def)
  qed
qed

lemma valid_iff_config: "validateEndpointParts parts = None \<longleftrightarrow> (\<exists>c. getEndpointConfig parts = Inr c)"
  by (simp add: validateEndpointParts_def split: sum.splits)

lemma valid_iff:
  "validateEndpointParts parts = None \<longleftrightarrow>
     length parts \<le> MAX_SNI_PARTS \<and> distinct parts \<and> list_all known parts \<and>
     agree (cert_entries parts) \<and> agree (tls_entries parts) \<and> (''no-tls'' \<in> set parts \<longrightarrow> length parts \<le> 1)"
proof -
  have "get tls ''rejectTls'' = OBool True \<longleftrightarrow> ''no-tls'' \<in> set parts"
    if "list_all known parts" "merge_entries [] (tls_entries parts) = Inr tls" for tls
  proof -
    have set: "set (field_values ''rejectTls'' (tls_entries parts)) =
        (if ''no-tls'' \<in> set parts then {OBool True} else {})"
      by (rule rejectTls_values [OF that(1)])
    have "get tls ''rejectTls'' = combined ''rejectTls'' (field_values ''rejectTls'' (tls_entries parts))"
      by (rule merge_entries_get [OF entries_typed(1) that(2)])
    then show ?thesis
      using set by (cases "field_values ''rejectTls'' (tls_entries parts)")
        (auto simp: combined_def split: if_splits)
  qed
  note reject = this
  show ?thesis
    unfolding valid_iff_config getEndpointConfig_Inr
    using merge_entries_Inr_iff [OF entries_typed(1) [of parts]]
      merge_entries_Inr_iff [OF entries_typed(2) [of parts]] reject
    by (auto simp: not_less)
qed

text \<open>
  C3: A combination of endpoint parts is valid exactly when it has at most four parts, no part
  twice, each part is valid on its own and every two of them are valid together:
  compatibility of endpoints is a relation between pairs.
\<close>

theorem sni_validity_pairwise:
  "validateEndpointParts parts = None \<longleftrightarrow>
     length parts \<le> MAX_SNI_PARTS \<and> distinct parts \<and>
     (\<forall>p \<in> set parts. validateEndpointParts [p] = None) \<and>
     (\<forall>p \<in> set parts. \<forall>q \<in> set parts. p \<noteq> q \<longrightarrow> validateEndpointParts [p, q] = None)"
  (is "?valid \<longleftrightarrow> ?len \<and> ?dist \<and> ?each \<and> ?pairs")
proof
  assume v: ?valid
  then have notls: "\<not> (''no-tls'' \<in> {p, q})" if "p \<in> set parts" "q \<in> set parts" "p \<noteq> q" for p q
    using that by (cases parts) (auto simp: valid_iff)
  have pair: "agree (tls_entries [p, q]) \<and> agree (cert_entries [p, q])" if "p \<in> set parts" "q \<in> set parts" for p q
    using v that agree_entries [of parts] by (simp add: valid_iff)
  have "validateEndpointParts [p] = None" if "p \<in> set parts" for p
    using v that pair [of p p] by (simp add: valid_iff agree_pair list_all_iff MAX_SNI_PARTS_def)
  moreover have "validateEndpointParts [p, q] = None" if "p \<in> set parts" "q \<in> set parts" "p \<noteq> q" for p q
    using v that pair [of p q] notls [OF that] by (simp add: valid_iff list_all_iff MAX_SNI_PARTS_def)
  ultimately show "?len \<and> ?dist \<and> ?each \<and> ?pairs"
    using v by (simp add: valid_iff)
next
  assume *: "?len \<and> ?dist \<and> ?each \<and> ?pairs"
  have "agree (tls_entries [p, q]) \<and> agree (cert_entries [p, q])"
    if "p \<in> set parts" "q \<in> set parts" for p q
    using * that by (cases "p = q") (auto simp: valid_iff agree_pair)
  moreover have "length parts \<le> 1" if "''no-tls'' \<in> set parts"
  proof (rule ccontr)
    assume "\<not> length parts \<le> 1"
    then have "card (set parts) > 1" using * by (simp add: distinct_card)
    then have "\<not> set parts \<subseteq> {''no-tls''}" using card_mono [of "{''no-tls''}" "set parts"] by auto
    then obtain q where "q \<in> set parts" "q \<noteq> ''no-tls''" by auto
    then have "validateEndpointParts [''no-tls'', q] = None" using * that by auto
    then show False by (simp add: valid_iff)
  qed
  ultimately show ?valid
    using * agree_entries [of parts] by (simp add: valid_iff list_all_iff)
qed

lemma find_some_endpoints:
  "find_tls_endpoint ''http2'' = Some http2"
  "find_tls_endpoint ''expired'' = Some expired"
  "find_tls_endpoint ''cbc'' = Some cbc"
  "find_tls_endpoint ''tls-v1-1'' = Some tlsV1_1"
  "find_tls_endpoint ''tls-v1-2'' = Some tlsV1_2"
  by (simp_all add: find_tls_endpoint_def tlsEndpoints_def)

lemma some_entries:
  "tls_entries [''http2''] = []" "cert_entries [''http2''] = []"
  "tls_entries [''expired''] = []" "cert_entries [''expired''] = [(''expired'', OBool True)]"
  "tls_entries [''tls-v1-2''] = [(''enabledVersions'', OVersions [TLSv1_2])]" "cert_entries [''tls-v1-2''] = []"
  "tls_entries [''tls-v1-1''] = [(''enabledVersions'', OVersions [TLSv1_1])]" "cert_entries [''tls-v1-1''] = []"
  by (simp_all add: tls_entries_def cert_entries_def find_some_endpoints
      http2_def expired_def tlsV1_2_def tlsV1_1_def)

theorem sni_validity_pairwise_witness:
  "validateEndpointParts [''http2'', ''expired'', ''tls-v1-2''] = None"
proof -
  let ?parts = "[''http2'', ''expired'', ''tls-v1-2'']"
  have known: "known ''http2''" "known ''expired''" "known ''tls-v1-2''"
    by (simp_all add: known_def find_some_endpoints)
  have pair: "agree (tls_entries [p, q]) \<and> agree (cert_entries [p, q])"
    if "p \<in> set ?parts" "q \<in> set ?parts" for p q
    using that entries_Cons [of p "[q]"]
    by (auto simp: some_entries agree_def field_values_iff exclusive_def)
  have single: "validateEndpointParts [p] = None" if "p \<in> set ?parts" for p
    using that known pair [of p p] by (auto simp: valid_iff MAX_SNI_PARTS_def agree_pair)
  have "validateEndpointParts [p, q] = None" if "p \<in> set ?parts" "q \<in> set ?parts" "p \<noteq> q" for p q
    using that known pair [of p q] by (auto simp: valid_iff MAX_SNI_PARTS_def)
  then show ?thesis
    by (subst sni_validity_pairwise) (simp add: single MAX_SNI_PARTS_def)
qed

section \<open>The order of the parts\<close>

lemma set_entries:
  "set (tls_entries ps) = (\<Union>p \<in> set ps. set (tls_entries [p]))"
  "set (cert_entries ps) = (\<Union>p \<in> set ps. set (cert_entries [p]))"
  by (simp_all add: tls_entries_def cert_entries_def)

lemma set_field_values: "set (field_values key cs) = {v. (key, v) \<in> set cs \<and> v \<noteq> OUndef}"
  using field_values_iff by blast

lemma field_values_perm:
  assumes "set cs = set ds"
  shows "set (field_values key cs) = set (field_values key ds)"
  using assms by (simp add: set_field_values)

lemma combined_perm:
  assumes agree: "agree cs" and set: "set cs = set ds" and key: "key \<noteq> ''enabledVersions''"
  shows "combined key (field_values key cs) = combined key (field_values key ds)"
proof (cases "field_values key cs")
  case Nil
  then show ?thesis using field_values_perm [OF set, of key] by (simp add: combined_def)
next
  case (Cons v vs)
  then obtain w ws where ds: "field_values key ds = w # ws"
    using field_values_perm [OF set, of key] by (cases "field_values key ds") auto
  have "w \<in> set (field_values key cs)" using field_values_perm [OF set, of key] ds by simp
  then have "v = w" if "exclusive key" using agree that Cons by (simp add: agree_def)
  moreover have "set (levels_in (field_values key cs)) = set (levels_in (field_values key ds))"
    using field_values_perm [OF set, of key] by (simp add: levels_in_def)
  ultimately show ?thesis
    using Cons ds key by (auto simp: combined_def exclusive_def)
qed

lemma combined_versions_perm:
  assumes "set cs = set ds" "well_typed cs"
  shows "\<exists>en. combined ''enabledVersions'' (field_values ''enabledVersions'' cs) = en \<and>
    (case en of OVersions vs \<Rightarrow> \<exists>vs'. combined ''enabledVersions'' (field_values ''enabledVersions'' ds) = OVersions vs' \<and> set vs = set vs'
     | OUndef \<Rightarrow> combined ''enabledVersions'' (field_values ''enabledVersions'' ds) = OUndef
     | _ \<Rightarrow> False)"
  using field_values_perm [OF assms(1), of "''enabledVersions''"]
  by (auto simp: combined_def versions_in_def)

lemma disable_flags_cong: "set en = set en' \<Longrightarrow> disable_flags en so = disable_flags en' so"
  by (simp add: disable_flags_def)

lemma lowest_version_cong: "set en = set en' \<Longrightarrow> lowest_version en = lowest_version en'"
  by (simp add: lowest_version_def)

lemma resolveEnabledVersions_perm:
  assumes agree: "agree cs" and set: "set cs = set ds" and typed: "well_typed cs"
    and t: "\<And>key. get t key = combined key (field_values key cs)"
    and t': "\<And>key. get t' key = combined key (field_values key ds)"
  shows "get (resolveEnabledVersions t) key = get (resolveEnabledVersions t') key"
proof -
  have other: "get t key = get t' key" if "key \<noteq> ''enabledVersions''" for key
    unfolding t t' by (rule combined_perm [OF agree set that])
  obtain en where en: "get t ''enabledVersions'' = en" by simp
  consider "get t ''enabledVersions'' = OUndef" "get t' ''enabledVersions'' = OUndef"
    | vs vs' where "get t ''enabledVersions'' = OVersions vs" "get t' ''enabledVersions'' = OVersions vs'"
        "set vs = set vs'"
    using combined_versions_perm [OF set typed] unfolding t t' by (auto split: optval.splits)
  then show ?thesis
  proof cases
    case 1
    then show ?thesis using other by (cases "key = ''enabledVersions''") (simp_all add: get_resolveEnabledVersions)
  next
    case (2 vs vs')
    then show ?thesis
      using other disable_flags_cong [of vs vs'] lowest_version_cong [of vs vs']
      by (auto simp: get_resolveEnabledVersions)
  qed
qed

lemma endpoint_alpn:
  "e \<in> set tlsEndpoints \<Longrightarrow>
    (case configureAlpnPreferences e of None \<Rightarrow> al | Some f \<Rightarrow> f al) =
      al @ (case configureAlpnPreferences e of None \<Rightarrow> [] | Some f \<Rightarrow> f [])"
proof -
  have "list_all (\<lambda>e. configureAlpnPreferences e = None \<or> configureAlpnPreferences e = Some (\<lambda>l. l @ [''h2'']) \<or>
      configureAlpnPreferences e = Some (\<lambda>l. l @ [''http/1.1''])) tlsEndpoints"
    by (simp add: tlsEndpoints_def tls_endpoint_defs)
  moreover assume "e \<in> set tlsEndpoints"
  ultimately show ?thesis by (auto simp: list_all_iff)
qed

lemma alpn_of_mset:
  "mset (alpn_of alpn ps) = mset alpn + (\<Sum>p \<in># mset ps. mset (alpn_of [] [p]))"
proof (induction ps arbitrary: alpn)
  case Nil
  then show ?case by (simp add: alpn_of_def)
next
  case (Cons p ps)
  have alpn: "(case Option.bind (find_tls_endpoint p) configureAlpnPreferences of
      None \<Rightarrow> al | Some f \<Rightarrow> f al) = al @ alpn_of [] [p]" for al
  proof (cases "find_tls_endpoint p")
    case (Some e)
    then have e: "e \<in> set tlsEndpoints" using find_tls_endpoint_mem by blast
    show ?thesis
    proof (cases "configureAlpnPreferences e")
      case (Some f)
      have "f al = al @ f []" using endpoint_alpn [OF e, of al] by (simp only: Some option.case)
      moreover have "Option.bind (find_tls_endpoint p) configureAlpnPreferences = Some f"
        by (simp add: Some \<open>find_tls_endpoint p = Some e\<close>)
      moreover from this have "alpn_of [] [p] = f []" by (simp add: alpn_of_def)
      ultimately show ?thesis by simp
    qed (simp add: alpn_of_def Some)
  qed (simp add: alpn_of_def)
  have "alpn_of alpn (p # ps) = alpn_of (case Option.bind (find_tls_endpoint p) configureAlpnPreferences of
      None \<Rightarrow> alpn | Some f \<Rightarrow> f alpn) ps"
    by (simp add: alpn_of_def)
  then have "alpn_of alpn (p # ps) = alpn_of (alpn @ alpn_of [] [p]) ps" by (simp only: alpn)
  then show ?case using Cons.IH [of "alpn @ alpn_of [] [p]"] by (simp add: ac_simps)
qed

lemma endpoint_no_cert_versions:
  "e \<in> set tlsEndpoints \<Longrightarrow> field_values ''enabledVersions'' (opt_entries (configureCertOptions e)) = []"
  by (auto simp: tlsEndpoints_def field_values_def tls_endpoint_defs)

lemma no_cert_versions: "field_values ''enabledVersions'' (cert_entries ps) = []"
proof (induction ps)
  case (Cons p ps)
  have "field_values ''enabledVersions'' (cert_entries [p]) = []"
    using endpoint_no_cert_versions find_tls_endpoint_mem
    by (cases "find_tls_endpoint p") (auto simp: cert_entries_def field_values_def)
  then show ?case using Cons by (simp add: entries_Cons(2) [of p ps] field_values_append)
qed (simp add: field_values_def)

text \<open>
  C19: The options do not depend on the order of the parts in the host name: for any two
  orders of the same parts both are accepted or both rejected, and every certificate option,
  every TLS option and the two handshake markers agree; only the order of the ALPN
  preferences follows the name.
\<close>

theorem sni_order_independent:
  assumes perm: "mset parts = mset parts'" and c: "getEndpointConfig parts = Inr c"
  shows "\<exists>c'. getEndpointConfig parts' = Inr c' \<and>
    (\<forall>key. get (certOptions c') key = get (certOptions c) key) \<and>
    (\<forall>key. get (tlsOptions c') key = get (tlsOptions c) key) \<and>
    rejectTls c' = rejectTls c \<and> requireClientCert c' = requireClientCert c \<and>
    mset (alpnPreferences c') = mset (alpnPreferences c)"
proof -
  have set: "set parts = set parts'" using perm by (metis set_mset_mset)
  have valid: "validateEndpointParts parts = None" using c by (simp add: validateEndpointParts_def)
  then have valid': "validateEndpointParts parts' = None"
    using set mset_eq_length [OF perm] mset_eq_imp_distinct_iff [OF perm]
    by (simp add: valid_iff list_all_iff agree_entries [of parts] agree_entries [of parts'])
  then obtain c' where c': "getEndpointConfig parts' = Inr c'" by (auto simp: valid_iff_config)
  have sets: "set (tls_entries parts) = set (tls_entries parts')"
    "set (cert_entries parts) = set (cert_entries parts')"
    by (simp_all add: set set_entries [of parts] set_entries [of parts'])
  obtain cert tls where 1: "merge_entries [] (cert_entries parts) = Inr cert"
    "merge_entries [] (tls_entries parts) = Inr tls" "c = config_of parts cert tls"
    using c by (auto simp: getEndpointConfig_Inr)
  obtain cert' tls' where 2: "merge_entries [] (cert_entries parts') = Inr cert'"
    "merge_entries [] (tls_entries parts') = Inr tls'" "c' = config_of parts' cert' tls'"
    using c' by (auto simp: getEndpointConfig_Inr)
  have agree: "agree (tls_entries parts)" "agree (cert_entries parts)" using valid by (simp_all add: valid_iff)
  note get1 = merge_entries_get [OF entries_typed(1) 1(2)] merge_entries_get [OF entries_typed(2) 1(1)]
  note get2 = merge_entries_get [OF entries_typed(1) 2(2)] merge_entries_get [OF entries_typed(2) 2(1)]
  have mark: "get tls' key = get tls key" if "key \<noteq> ''enabledVersions''" for key
    using combined_perm [OF agree(1) sets(1) that] get1(1) get2(1) by simp
  have res: "get (resolveEnabledVersions tls) key = get (resolveEnabledVersions tls') key" for key
    using resolveEnabledVersions_perm [OF agree(1) sets(1) entries_typed(1)] get1(1) get2(1) by blast
  have tlsopt: "get (resolved tls') key = get (resolved tls) key" for key
    unfolding resolved_def get_delete get_resolveSecurityLevel res [symmetric] by simp
  have no_versions: "get cert ''enabledVersions'' = OUndef" "get cert' ''enabledVersions'' = OUndef"
    unfolding get1(2) get2(2) by (simp_all add: no_cert_versions combined_def)
  have cert: "get cert' key = get cert key" for key
    using combined_perm [OF agree(2) sets(2), of key] get1(2) get2(2) no_versions
    by (cases "key = ''enabledVersions''") simp_all
  show ?thesis
    using c' cert tlsopt mark perm alpn_of_mset [of "[]" parts] alpn_of_mset [of "[]" parts']
    by (simp add: 1(3) 2(3) config_of_def)
qed

lemma example_config:
  "\<exists>c. getEndpointConfig [''http2'', ''expired'', ''tls-v1-1''] = Inr c"
proof -
  let ?parts = "[''http2'', ''expired'', ''tls-v1-1'']"
  have known: "known ''http2''" "known ''expired''" "known ''tls-v1-1''"
    by (simp_all add: known_def find_some_endpoints)
  have ents: "tls_entries ?parts = tls_entries [''http2''] @ tls_entries [''expired''] @ tls_entries [''tls-v1-1'']"
    "cert_entries ?parts = cert_entries [''http2''] @ cert_entries [''expired''] @ cert_entries [''tls-v1-1'']"
    by (simp_all add: tls_entries_def cert_entries_def)
  then have "agree (tls_entries ?parts)" "agree (cert_entries ?parts)"
    by (auto simp: some_entries agree_def field_values_iff exclusive_def)
  then show ?thesis
    using known unfolding valid_iff_config [symmetric] by (simp add: valid_iff MAX_SNI_PARTS_def)
qed

theorem sni_order_independent_witness:
  "\<exists>c c'. getEndpointConfig [''http2'', ''expired'', ''tls-v1-1''] = Inr c \<and>
    getEndpointConfig [''tls-v1-1'', ''http2'', ''expired''] = Inr c' \<and>
    get (tlsOptions c') ''minVersion'' = get (tlsOptions c) ''minVersion''"
  using example_config
    sni_order_independent [of "[''http2'', ''expired'', ''tls-v1-1'']" "[''tls-v1-1'', ''http2'', ''expired'']"]
  by (auto simp: add.commute add.left_commute)

section \<open>Version endpoints\<close>

fun version_part :: "tls_version \<Rightarrow> string" where
  "version_part TLSv1 = ''tls-v1-0''"
| "version_part TLSv1_1 = ''tls-v1-1''"
| "version_part TLSv1_2 = ''tls-v1-2''"
| "version_part TLSv1_3 = ''tls-v1-3''"

definition named_versions :: "string list \<Rightarrow> tls_version set" where
  "named_versions parts = {v. version_part v \<in> set parts}"

text \<open>A version whose \<open>SSL_OP_NO_\<close> bit is clear is one that OpenSSL negotiates.\<close>

definition version_enabled :: "endpoint_config \<Rightarrow> tls_version \<Rightarrow> bool" where
  "version_enabled c v \<longleftrightarrow> and (flags_of (get (tlsOptions c) ''secureOptions'')) (VERSION_DISABLE_FLAGS v) = 0"

lemma version_part_inject: "version_part v = version_part w \<longleftrightarrow> v = w"
  by (cases v; cases w) simp_all

lemma endpoint_versions:
  "e \<in> set tlsEndpoints \<Longrightarrow>
    set (versions_in (field_values ''enabledVersions'' (opt_entries (configureTlsOptions e)))) =
      {v. sniPart e = version_part v} \<and>
    (field_values ''enabledVersions'' (opt_entries (configureTlsOptions e)) = [] \<longleftrightarrow>
      (\<forall>v. sniPart e \<noteq> version_part v)) \<and>
    field_values ''secureOptions'' (opt_entries (configureTlsOptions e)) = [] \<and>
    field_values ''minVersion'' (opt_entries (configureTlsOptions e)) = []"
proof -
  have "version_part v \<in> {''tls-v1-0'', ''tls-v1-1'', ''tls-v1-2'', ''tls-v1-3''}" for v by (cases v) auto
  then have other: "s \<notin> {''tls-v1-0'', ''tls-v1-1'', ''tls-v1-2'', ''tls-v1-3''} \<Longrightarrow> s \<noteq> version_part v" for s v by auto
  have self: "{v. ''tls-v1-0'' = version_part v} = {TLSv1}" "{v. ''tls-v1-1'' = version_part v} = {TLSv1_1}"
    "{v. ''tls-v1-2'' = version_part v} = {TLSv1_2}" "{v. ''tls-v1-3'' = version_part v} = {TLSv1_3}"
    using version_part_inject [of TLSv1] version_part_inject [of TLSv1_1] version_part_inject [of TLSv1_2]
      version_part_inject [of TLSv1_3] by auto
  assume e: "e \<in> set tlsEndpoints"
  show ?thesis
  proof (cases "sniPart e \<in> {''tls-v1-0'', ''tls-v1-1'', ''tls-v1-2'', ''tls-v1-3''}")
    case True
    then have "e \<in> {tlsV1, tlsV1_1, tlsV1_2, tlsV1_3}" using e by (auto simp: tlsEndpoints_def)
    then show ?thesis
      using self by (auto simp: tlsV1_def tlsV1_1_def tlsV1_2_def tlsV1_3_def field_values_def versions_in_def)
  next
    case False
    have "list_all (\<lambda>e. sniPart e \<in> {''tls-v1-0'', ''tls-v1-1'', ''tls-v1-2'', ''tls-v1-3''} \<or>
        list_all (\<lambda>(k, v). k \<notin> {''enabledVersions'', ''secureOptions'', ''minVersion''})
          (opt_entries (configureTlsOptions e))) tlsEndpoints"
      by (simp add: tlsEndpoints_def tls_endpoint_defs)
    then have *: "k \<notin> {''enabledVersions'', ''secureOptions'', ''minVersion''}"
      if "(k, v) \<in> set (opt_entries (configureTlsOptions e))" for k v
      using e False that by (fastforce simp: list_all_iff)
    have "set (field_values k (opt_entries (configureTlsOptions e))) = {}"
      if "k \<in> {''enabledVersions'', ''secureOptions'', ''minVersion''}" for k
      using * that by (auto simp: set_field_values)
    then show ?thesis using other [OF False] by (simp add: versions_in_def)
  qed
qed

lemma parts_versions:
  assumes "list_all known ps"
  shows "set (versions_in (field_values ''enabledVersions'' (tls_entries ps))) = named_versions ps \<and>
    (field_values ''enabledVersions'' (tls_entries ps) = [] \<longleftrightarrow> named_versions ps = {}) \<and>
    field_values ''secureOptions'' (tls_entries ps) = [] \<and> field_values ''minVersion'' (tls_entries ps) = []"
  using assms
proof (induction ps)
  case (Cons p ps)
  then obtain e where e: "find_tls_endpoint p = Some e" "e \<in> set tlsEndpoints" "sniPart e = p"
    using find_tls_endpoint_mem by (auto simp: known_def)
  have p: "tls_entries [p] = opt_entries (configureTlsOptions e)" by (simp add: tls_entries_def e(1))
  have "named_versions (p # ps) = {v. p = version_part v} \<union> named_versions ps"
    by (auto simp: named_versions_def)
  then show ?case
    using Cons endpoint_versions [OF e(2)]
    by (auto simp: entries_Cons(1) [of p ps] field_values_append p e(3) versions_in_def)
qed (simp add: field_values_def versions_in_def named_versions_def)

lemma endpoint_levels:
  "e \<in> set tlsEndpoints \<Longrightarrow> (''securityLevel'', ONum n) \<in> set (opt_entries (configureTlsOptions e)) \<Longrightarrow> 0 \<le> n"
proof -
  have "list_all (\<lambda>e. list_all (\<lambda>(k, v). case v of ONum n \<Rightarrow> 0 \<le> n | _ \<Rightarrow> True)
      (opt_entries (configureTlsOptions e))) tlsEndpoints"
    by (simp add: tlsEndpoints_def tls_endpoint_defs)
  moreover assume "e \<in> set tlsEndpoints" "(''securityLevel'', ONum n) \<in> set (opt_entries (configureTlsOptions e))"
  ultimately show ?thesis by (fastforce simp: list_all_iff)
qed

lemma parts_levels:
  assumes "n \<in> set (levels_in (field_values ''securityLevel'' (tls_entries ps)))"
  shows "0 \<le> n"
proof -
  have "(''securityLevel'', ONum n) \<in> set (tls_entries ps)"
    using assms by (auto simp: levels_in_def set_field_values split: optval.splits)
  then obtain p where "p \<in> set ps" "(''securityLevel'', ONum n) \<in> set (tls_entries [p])"
    using set_entries(1) by blast
  then show ?thesis
    using endpoint_levels find_tls_endpoint_mem by (cases "find_tls_endpoint p") (auto simp: tls_entries_def)
qed

lemma disable_flags_bit: "and (disable_flags en 0) (VERSION_DISABLE_FLAGS v) = 0 \<longleftrightarrow> v \<in> set en"
  by (cases v; cases "TLSv1 \<in> set en"; cases "TLSv1_1 \<in> set en"; cases "TLSv1_2 \<in> set en"; cases "TLSv1_3 \<in> set en")
    (simp_all add: disable_flags_def VERSION_ORDER_def)

lemma lowest_version_Min: "set en \<noteq> {} \<Longrightarrow> lowest_version en = Some (Min (set en))"
proof -
  assume ne: "set en \<noteq> {}"
  have all: "set VERSION_ORDER = UNIV"
    using tls_version.exhaust by (auto simp: VERSION_ORDER_def)
  have "Min (set en) = m" if "lowest_version en = Some m" for m
  proof (rule Min_eqI)
    show "m \<in> set en" using that by (auto simp: lowest_version_def find_Some_iff)
    show "m \<le> w" if "w \<in> set en" for w
      using that \<open>lowest_version en = Some m\<close>
      by (cases w rule: tls_version.exhaust) (auto simp: lowest_version_def VERSION_ORDER_def less_eq_tls_version_def split: if_splits)
  qed simp
  moreover have "lowest_version en \<noteq> None" using ne all by (auto simp: lowest_version_def find_None_iff)
  ultimately show ?thesis by auto
qed

text \<open>
  C32: The version endpoints enable exactly the versions they name. With at least one of them
  among the parts, the \<open>SSL_OP_NO_\<close> bit of a version is clear exactly when its endpoint is
  one of the parts, \<open>minVersion\<close> is the lowest of them, and when that is below TLS 1.2 the
  cipher string asks for security level 0; with none of them nothing is restricted.
\<close>

theorem sni_versions_enforced:
  assumes c: "getEndpointConfig parts = Inr c"
  shows "if named_versions parts = {} then
      get (tlsOptions c) ''secureOptions'' = OUndef \<and> get (tlsOptions c) ''minVersion'' = OUndef
    else
      (\<forall>v. version_enabled c v \<longleftrightarrow> v \<in> named_versions parts) \<and>
      get (tlsOptions c) ''minVersion'' = OVersion (Min (named_versions parts)) \<and>
      (Min (named_versions parts) < TLSv1_2 \<longrightarrow>
        (\<exists>base. get (tlsOptions c) ''ciphers'' = OStr (base @ ''@SECLEVEL=0'')))"
proof -
  obtain cert tls where 1: "merge_entries [] (tls_entries parts) = Inr tls" "c = config_of parts cert tls"
    and known: "list_all known parts"
    using c by (auto simp: getEndpointConfig_Inr)
  note get1 = merge_entries_get [OF entries_typed(1) 1(1)]
  note vers = parts_versions [OF known]
  have opts: "tlsOptions c = resolved tls" by (simp add: 1(2) config_of_def)
  show ?thesis
  proof (cases "named_versions parts = {}")
    case True
    then show ?thesis
      using vers by (auto simp: opts resolved_def get_resolveSecurityLevel get_resolveEnabledVersions get1
          combined_def split: optval.splits)
  next
    case False
    then obtain en where en: "get tls ''enabledVersions'' = OVersions en" "set en = named_versions parts"
      using vers by (simp add: get1 combined_def)
    have low: "lowest_version en = Some (Min (named_versions parts))"
      using lowest_version_Min [of en] False en(2) by simp
    have so: "get tls ''secureOptions'' = OUndef" using vers by (simp add: get1 combined_def)
    let ?t = "resolveEnabledVersions tls"
    have "get (tlsOptions c) key = get ?t key" if "key = ''secureOptions'' \<or> key = ''minVersion''" for key
      using that by (auto simp: opts resolved_def get_resolveSecurityLevel split: optval.splits)
    then have "get (tlsOptions c) ''secureOptions'' = OFlags (disable_flags en 0)"
      "get (tlsOptions c) ''minVersion'' = OVersion (Min (named_versions parts))"
      using en low so by (simp_all add: get_resolveEnabledVersions flags_of_def)
    moreover have "\<exists>base. get (tlsOptions c) ''ciphers'' = OStr (base @ ''@SECLEVEL=0'')"
      if "Min (named_versions parts) < TLSv1_2"
    proof -
      have leg: "legacy (lowest_version en)"
        using that low by (cases "Min (named_versions parts)") (auto simp: legacy_def less_tls_version_def)
      have "level_of (get tls ''securityLevel'') = 0"
      proof (cases "field_values ''securityLevel'' (tls_entries parts)")
        case (Cons v vs)
        obtain n where "v = ONum n"
          using field_values_typed(2) [OF entries_typed(1) [of parts], of v] Cons by auto
        then have "levels_in (v # vs) \<noteq> []" by (simp add: levels_in_def)
        then have "0 \<le> Min (set (levels_in (v # vs)))"
          using parts_levels [of _ parts] Cons by simp
        then show ?thesis by (simp add: get1 Cons combined_def level_of_def)
      qed (simp add: get1 combined_def level_of_def)
      then have "get ?t ''securityLevel'' = ONum 0"
        using en leg by (simp add: get_resolveEnabledVersions)
      then show ?thesis
        by (auto simp: opts resolved_def get_resolveSecurityLevel int_str_def nat_str_def radix_str.simps)
    qed
    ultimately show ?thesis
      using False en(2) by (simp add: version_enabled_def flags_of_def disable_flags_bit)
  qed
qed

theorem sni_versions_enforced_witness:
  "\<exists>c. getEndpointConfig [''http2'', ''expired'', ''tls-v1-1''] = Inr c \<and>
    version_enabled c TLSv1_1 \<and> \<not> version_enabled c TLSv1_3"
proof -
  obtain c where c: "getEndpointConfig [''http2'', ''expired'', ''tls-v1-1''] = Inr c"
    using example_config by blast
  have "version_part v = ''tls-v1-1'' \<longleftrightarrow> v = TLSv1_1" for v by (cases v) auto
  moreover have "version_part v \<noteq> ''http2''" "version_part v \<noteq> ''expired''" for v by (cases v; simp)+
  ultimately have "named_versions [''http2'', ''expired'', ''tls-v1-1''] = {TLSv1_1}"
    by (auto simp: named_versions_def)
  then show ?thesis using sni_versions_enforced [OF c] c by auto
qed

section \<open>Every combination has a name\<close>

lemma find_dashes:
  "find_sub ''--'' x = None \<Longrightarrow> x = [] \<or> last x \<noteq> CHR ''-'' \<Longrightarrow>
    find_sub ''--'' (x @ ''--'' @ r) = Some (length x)"
proof (induction x)
  case (Cons c x)
  have rest: "find_sub ''--'' x = None" and no: "\<not> starts_with (c # x) ''--''"
    using Cons.prems(1) by (auto simp del: starts_with_Cons split: if_splits)
  have last: "x = [] \<or> last x \<noteq> CHR ''-''" using Cons.prems(2) by auto
  have "\<not> starts_with (c # x @ ''--'' @ r) ''--''"
    using no Cons.prems(2) by (cases x) auto
  then show ?case using Cons.IH [OF rest last] by (simp del: starts_with_Cons)
qed simp

lemma split_dashes_step:
  "find_sub ''--'' x = None \<Longrightarrow> x = [] \<or> last x \<noteq> CHR ''-'' \<Longrightarrow>
    split_seq ''--'' (x @ ''--'' @ r) = x # split_seq ''--'' r"
  by (subst split_seq.simps) (simp only: find_dashes option.case, simp)

lemma split_dashes_join:
  "xs \<noteq> [] \<Longrightarrow> (\<And>x. x \<in> set xs \<Longrightarrow> find_sub ''--'' x = None \<and> (x = [] \<or> last x \<noteq> CHR ''-'')) \<Longrightarrow>
    split_seq ''--'' (join ''--'' xs) = xs"
proof (induction xs)
  case (Cons x xs)
  show ?case
  proof (cases "xs = []")
    case True
    then show ?thesis using Cons.prems(2) [of x] by (simp add: split_seq.simps [of _ x])
  next
    case False
    then show ?thesis
      using Cons.IH Cons.prems(2) split_dashes_step [of x "join ''--'' xs"] by (simp add: join_Cons)
  qed
qed simp

lemma sni_names_shape:
  "p \<in> set sni_names \<Longrightarrow>
    find_sub ''--'' p = None \<and> p \<noteq> [] \<and> last p \<noteq> CHR ''-'' \<and> CHR ''.'' \<notin> set p \<and> hd p \<noteq> CHR ''-''"
  by (auto simp: sni_names_def tlsEndpoints_def)

lemma find_sub_append_None: "find_sub sub (x @ y) = None \<Longrightarrow> find_sub sub y = None"
  by (induction x) (auto split: if_splits)

lemma no_dashes_dots:
  "(\<And>p. p \<in> set ps \<Longrightarrow> find_sub ''--'' p = None \<and> p \<noteq> [] \<and> last p \<noteq> CHR ''-'') \<Longrightarrow>
    find_sub ''--'' (join ''.'' ps) = None"
proof (induction ps)
  case (Cons p ps)
  have dot: "find_sub ''--'' (x @ CHR ''.'' # r) = None"
    if "find_sub ''--'' x = None" "find_sub ''--'' r = None" for x r
    using that by (induction x) (auto split: if_splits list.splits)
  then show ?case
    using Cons by (cases "ps = []") (auto simp: join_Cons)
qed simp

lemma sni_prefix_parts:
  assumes "parts \<noteq> []" and "\<And>p. p \<in> set parts \<Longrightarrow> known p"
  shows "getSNIPrefixParts (join ''--'' parts @ ''.'' @ rootDomain) rootDomain = parts \<and>
    getSNIPrefixParts (join ''.'' parts @ ''.'' @ rootDomain) rootDomain = parts"
proof
  have shape: "find_sub ''--'' p = None \<and> p \<noteq> [] \<and> last p \<noteq> CHR ''-'' \<and> CHR ''.'' \<notin> set p"
    if "p \<in> set parts" for p
    using sni_names_shape [OF iffD1 [OF known_iff assms(2) [OF that]]] by blast
  have pre: "getSNIPrefixParts (s @ ''.'' @ rootDomain) rootDomain =
      (if includes_sub s ''--'' then split_seq ''--'' s else split_seq ''.'' s)" if "s \<noteq> []" for s
  proof -
    have "ends_with (s @ ''.'' @ rootDomain) rootDomain"
      using ends_with_append [of "s @ ''.''" rootDomain] by simp
    moreover have "slice_off_end (length rootDomain + 1) (s @ ''.'' @ rootDomain) = s" by simp
    ultimately show ?thesis using that by (simp add: getSNIPrefixParts_def del: append_Cons)
  qed
  obtain p ps where parts: "parts = p # ps" using assms(1) by (cases parts) auto
  have ne: "join sep parts \<noteq> []" for sep
    using shape [of p] by (cases ps) (simp_all add: parts)
  show "getSNIPrefixParts (join ''--'' parts @ ''.'' @ rootDomain) rootDomain = parts"
  proof (cases "ps = []")
    case True
    then show ?thesis
      using pre [OF ne] shape [of p] split_char_single [of "CHR ''.''" p] by (simp add: parts includes_sub_def)
  next
    case False
    then have "includes_sub (join ''--'' parts) ''--''"
      using find_dashes [of p "join ''--'' ps"] shape [of p] by (simp add: parts join_Cons includes_sub_def)
    then show ?thesis
      using pre [OF ne] split_dashes_join [OF assms(1)] shape by simp
  qed
  have "find_sub ''--'' (join ''.'' parts) = None" by (rule no_dashes_dots) (use shape in blast)
  then show "getSNIPrefixParts (join ''.'' parts @ ''.'' @ rootDomain) rootDomain = parts"
    using pre [OF ne] split_char_join [OF assms(1)] shape by (simp add: includes_sub_def)
qed

text \<open>
  C33: Every list of known endpoint parts is the prefix of a host name: joined with \<open>--\<close> (the
  preferred form) or with dots (the legacy form) in front of the root domain, the list is
  recovered exactly.
\<close>

theorem sni_prefix_roundtrip:
  assumes "parts \<noteq> []" and "\<And>p. p \<in> set parts \<Longrightarrow> known p"
  shows "getSNIPrefixParts (join ''--'' parts @ ''.'' @ rootDomain) rootDomain = parts \<and>
    getSNIPrefixParts (join ''.'' parts @ ''.'' @ rootDomain) rootDomain = parts"
  using assms by (rule sni_prefix_parts)

theorem sni_prefix_roundtrip_witness:
  "getSNIPrefixParts ''http2--expired.localhost'' ''localhost'' = [''http2'', ''expired'']"
proof -
  have "known p" if "p \<in> set [''http2'', ''expired'']" for p
    using that by (auto simp: known_def find_some_endpoints)
  then show ?thesis using sni_prefix_roundtrip [of "[''http2'', ''expired'']" "''localhost''"] by simp
qed

end
