(* ===== verification/Js_Uri.thy ===== *)
theory Js_Uri
  imports Js_Number Complex_Main
begin

text \<open>
  \<open>decodeURIComponent\<close> and \<open>parseFloat\<close>. Decoded text is held in its UTF-8 encoding, one
  \<^typ>\<open>char\<close> per byte, and a sequence that is not UTF-8 is the error \<open>UriError\<close>; the main
  law is that percent-encoding any UTF-8 text and decoding it gives the text back. A
  floating-point number is a rational or one of the three special values; the rounding of
  doubles is not modelled.
\<close>

section \<open>UTF-8\<close>

text \<open>
  The length of the sequence that a lead byte opens, and the range of its second byte (the
  narrower ranges exclude overlong forms, surrogates and values above U+10FFFF).
\<close>

definition utf8_len :: "nat \<Rightarrow> nat option" where
  "utf8_len b =
     (if b < 128 then Some 1
      else if 194 \<le> b \<and> b \<le> 223 then Some 2
      else if 224 \<le> b \<and> b \<le> 239 then Some 3
      else if 240 \<le> b \<and> b \<le> 244 then Some 4
      else None)"

definition continuation :: "nat \<Rightarrow> bool" where
  "continuation b \<longleftrightarrow> 128 \<le> b \<and> b \<le> 191"

definition second_ok :: "nat \<Rightarrow> nat \<Rightarrow> bool" where
  "second_ok b c \<longleftrightarrow> continuation c \<and> (b = 224 \<longrightarrow> 160 \<le> c) \<and> (b = 237 \<longrightarrow> c \<le> 159) \<and>
     (b = 240 \<longrightarrow> 144 \<le> c) \<and> (b = 244 \<longrightarrow> c \<le> 143)"

definition tail_ok :: "nat \<Rightarrow> nat list \<Rightarrow> bool" where
  "tail_ok b cs \<longleftrightarrow> (case cs of [] \<Rightarrow> True | c # cs' \<Rightarrow> second_ok b c \<and> list_all continuation cs')"

function valid_utf8 :: "nat list \<Rightarrow> bool" where
  "valid_utf8 [] = True"
| "valid_utf8 (b # bs) =
     (case utf8_len b of
        None \<Rightarrow> False
      | Some n \<Rightarrow> n - 1 \<le> length bs \<and> tail_ok b (take (n - 1) bs) \<and> valid_utf8 (drop (n - 1) bs))"
  by pat_completeness auto
termination by (relation "measure length") auto

section \<open>\<open>decodeURIComponent\<close>\<close>

definition hex_val :: "char \<Rightarrow> nat option" where
  "hex_val c =
     (let n = (of_char c :: nat) in
      if 48 \<le> n \<and> n \<le> 57 then Some (n - 48)
      else if 97 \<le> n \<and> n \<le> 102 then Some (n - 87)
      else if 65 \<le> n \<and> n \<le> 70 then Some (n - 55)
      else None)"

text \<open>One escape \<open>%XX\<close> at the start of the text.\<close>

definition escape_byte :: "string \<Rightarrow> (nat \<times> string) option" where
  "escape_byte s =
     (case s of
        p # a # b # r \<Rightarrow>
          (case (hex_val a, hex_val b) of
             (Some x, Some y) \<Rightarrow> if p = CHR ''%'' then Some (16 * x + y, r) else None
           | _ \<Rightarrow> None)
      | _ \<Rightarrow> None)"

lemma escape_byte_shorter: "escape_byte s = Some (b, r) \<Longrightarrow> length r < length s"
  by (auto simp: escape_byte_def split: list.splits option.splits if_splits)

fun escapes :: "nat \<Rightarrow> string \<Rightarrow> (nat list \<times> string) option" where
  "escapes 0 s = Some ([], s)"
| "escapes (Suc n) s =
     (case escape_byte s of
        None \<Rightarrow> None
      | Some (b, r) \<Rightarrow> (case escapes n r of None \<Rightarrow> None | Some (bs, r') \<Rightarrow> Some (b # bs, r')))"

lemma escapes_shorter: "escapes n s = Some (bs, r) \<Longrightarrow> length r \<le> length s"
proof (induction n s arbitrary: bs rule: escapes.induct)
  case (2 n s)
  then show ?case
    using escape_byte_shorter [of s] by (fastforce split: option.splits prod.splits)
qed simp

definition char_of_byte :: "nat \<Rightarrow> char" where
  "char_of_byte b = char_of b"

lemma map_sum_InlE: "map_sum id f x = Inl e \<Longrightarrow> (x = Inl e \<Longrightarrow> P) \<Longrightarrow> P"
  by (cases x) auto

function decodeURIComponent :: "string \<Rightarrow> string fallible" where
  "decodeURIComponent [] = Inr []"
| "decodeURIComponent (c # s) =
     (if c \<noteq> CHR ''%'' then map_sum id (\<lambda>t. c # t) (decodeURIComponent s)
      else
        case escape_byte (c # s) of
          None \<Rightarrow> Inl UriError
        | Some (b, r) \<Rightarrow>
            (case utf8_len b of
               None \<Rightarrow> Inl UriError
             | Some n \<Rightarrow>
                 (case escapes (n - 1) r of
                    None \<Rightarrow> Inl UriError
                  | Some (bs, r') \<Rightarrow>
                      if tail_ok b bs
                      then map_sum id (\<lambda>t. map char_of_byte (b # bs) @ t) (decodeURIComponent r')
                      else Inl UriError)))"
  by pat_completeness auto
termination
proof (relation "measure length", goal_cases)
  case (3 c s p b r n q bs r')
  then show ?case
    using escape_byte_shorter [of "c # s" b r] escapes_shorter [of "n - 1" r bs r'] by auto
qed auto

text \<open>Percent-encoding of every byte, the most defensive form a client can send.\<close>

definition hex_digit :: "nat \<Rightarrow> char" where
  "hex_digit d = char_of (if d < 10 then 48 + d else 55 + d)"

definition pct :: "nat \<Rightarrow> string" where
  "pct b = [CHR ''%'', hex_digit (b div 16), hex_digit (b mod 16)]"

definition pct_encode :: "string \<Rightarrow> string" where
  "pct_encode s = concat (map (\<lambda>c. pct (of_char c)) s)"

definition utf8_text :: "string \<Rightarrow> bool" where
  "utf8_text s \<longleftrightarrow> valid_utf8 (map of_char s)"

lemma hex_val_digit: "d < 16 \<Longrightarrow> hex_val (hex_digit d) = Some d"
  by (auto simp: hex_val_def hex_digit_def Let_def)

lemma escape_byte_pct: "b < 256 \<Longrightarrow> escape_byte (pct b @ r) = Some (b, r)"
  by (simp add: escape_byte_def pct_def hex_val_digit)

lemma escapes_pct:
  "list_all (\<lambda>b. b < 256) bs \<Longrightarrow> escapes (length bs) (concat (map pct bs) @ r) = Some (bs, r)"
  by (induction bs) (simp_all add: escape_byte_pct)

lemma decode_pct_bytes:
  "valid_utf8 bs \<Longrightarrow> list_all (\<lambda>b. b < 256) bs \<Longrightarrow>
    decodeURIComponent (concat (map pct bs) @ r) = map_sum id (\<lambda>t. map char_of_byte bs @ t) (decodeURIComponent r)"
proof (induction bs rule: valid_utf8.induct)
  case 1
  then show ?case by (cases "decodeURIComponent r") simp_all
next
  case (2 b bs)
  then obtain n where n: "utf8_len b = Some n" by (auto split: option.splits)
  let ?t = "take (n - 1) bs" and ?d = "drop (n - 1) bs"
  have ok: "n - 1 \<le> length bs" "tail_ok b ?t" "valid_utf8 ?d" using 2(2) n by auto
  have small: "list_all (\<lambda>b. b < 256) ?t" "list_all (\<lambda>b. b < 256) ?d" "b < 256"
    using 2(3) by (auto simp: list_all_iff dest: in_set_takeD in_set_dropD)
  have split: "concat (map pct bs) = concat (map pct ?t) @ concat (map pct ?d)"
    by (metis append_take_drop_id concat_append map_append)
  have esc: "escapes (n - 1) (concat (map pct bs) @ r) = Some (?t, concat (map pct ?d) @ r)"
    using escapes_pct [OF small(1), of "concat (map pct ?d) @ r"] ok(1) by (simp add: split)
  have head: "escape_byte (pct b @ concat (map pct bs) @ r) = Some (b, concat (map pct bs) @ r)"
    using small(3) by (rule escape_byte_pct)
  have "decodeURIComponent (pct b @ concat (map pct bs) @ r) =
      map_sum id (\<lambda>t. map char_of_byte (b # ?t) @ t) (decodeURIComponent (concat (map pct ?d) @ r))"
    using head n esc ok(2) by (cases "decodeURIComponent (concat (map pct ?d) @ r)") (simp_all add: pct_def)
  also have "\<dots> = map_sum id (\<lambda>t. map char_of_byte (b # ?t @ ?d) @ t) (decodeURIComponent r)"
  proof -
    have "map char_of_byte ?t @ map char_of_byte ?d @ t = map char_of_byte bs @ t" for t
      by (metis append_assoc append_take_drop_id map_append)
    then show ?thesis
      using 2(1) [OF n ok(3) small(2)] by (cases "decodeURIComponent r") simp_all
  qed
  finally show ?case by (cases "decodeURIComponent r") simp_all
qed

lemma decode_pct_encode_append:
  assumes "utf8_text s"
  shows "decodeURIComponent (pct_encode s @ r) = map_sum id (\<lambda>t. s @ t) (decodeURIComponent r)"
proof -
  have "map char_of_byte (map of_char s) = s" by (simp add: char_of_byte_def o_def)
  moreover have "list_all (\<lambda>b. b < 256) (map of_char s :: nat list)"
    by (simp add: list_all_iff)
  moreover have "pct_encode s = concat (map pct (map of_char s))" by (simp add: pct_encode_def o_def)
  ultimately show ?thesis
    using decode_pct_bytes [of "map of_char s" r] assms by (simp add: utf8_text_def del: map_map)
qed

lemma decode_pct_encode: "utf8_text s \<Longrightarrow> decodeURIComponent (pct_encode s) = Inr s"
  using decode_pct_encode_append [of s "[]"] by simp

lemma hex_digit_no_slash: "d < 16 \<Longrightarrow> hex_digit d \<noteq> CHR ''/''"
  using hex_val_digit [of d] by (auto simp: hex_val_def Let_def split: if_splits)

lemma pct_no_slash: "CHR ''/'' \<notin> set (pct (of_char c))"
proof -
  have "(of_char c :: nat) < 256" by simp
  then have "(of_char c :: nat) div 16 < 16" by linarith
  then show ?thesis
    using hex_digit_no_slash [of "of_char c div 16"] hex_digit_no_slash [of "of_char c mod 16"]
    by (simp add: pct_def eq_commute [of "CHR ''/''"])
qed

lemma pct_encode_no_slash [simp]: "CHR ''/'' \<notin> set (pct_encode s)"
  using pct_no_slash by (simp add: pct_encode_def)

lemma decode_error: "decodeURIComponent s = Inl e \<Longrightarrow> e = UriError"
  by (induction s rule: decodeURIComponent.induct)
    (auto simp: map_sum_sel split: if_splits option.splits prod.splits elim!: map_sum_InlE)

section \<open>\<open>parseFloat\<close>\<close>

datatype num = NaN | NegInf | PosInf | Fin rat

fun min_num :: "num \<Rightarrow> rat \<Rightarrow> num" where
  "min_num NaN b = NaN"
| "min_num NegInf b = NegInf"
| "min_num PosInf b = Fin b"
| "min_num (Fin a) b = Fin (min a b)"

fun scale_num :: "num \<Rightarrow> rat \<Rightarrow> num" where
  "scale_num (Fin a) b = Fin (a * b)"
| "scale_num v b = v"

definition scale10 :: "rat \<Rightarrow> int \<Rightarrow> rat" where
  "scale10 m e = (if 0 \<le> e then m * 10 ^ nat e else m / 10 ^ nat (- e))"

text \<open>An exponent part that is not complete is not part of the number.\<close>

definition parse_exponent :: "string \<Rightarrow> int" where
  "parse_exponent s =
     (case s of
        c # r \<Rightarrow>
          if c = CHR ''e'' \<or> c = CHR ''E'' then
            (case r of
               d # r' \<Rightarrow>
                 if d = CHR ''-'' then (case parse_nat_prefix r' of Some n \<Rightarrow> - int n | None \<Rightarrow> 0)
                 else if d = CHR ''+'' then (case parse_nat_prefix r' of Some n \<Rightarrow> int n | None \<Rightarrow> 0)
                 else (case parse_nat_prefix r of Some n \<Rightarrow> int n | None \<Rightarrow> 0)
             | [] \<Rightarrow> 0)
          else 0
      | [] \<Rightarrow> 0)"

definition parse_unsigned :: "string \<Rightarrow> num" where
  "parse_unsigned s =
     (if starts_with s ''Infinity'' then PosInf
      else
        let ds = takeWhile is_digit s;
            r = dropWhile is_digit s;
            fs = (if starts_with r ''.'' then takeWhile is_digit (tl r) else []);
            r' = (if starts_with r ''.'' then dropWhile is_digit (tl r) else r)
        in
        if ds = [] \<and> fs = [] then NaN
        else Fin (scale10 (of_nat (digits_val (ds @ fs))) (parse_exponent r' - int (length fs))))"

definition parse_float :: "string \<Rightarrow> num" where
  "parse_float s =
     (case trim_start s of
        c # r \<Rightarrow>
          if c = CHR ''-'' then
            (case parse_unsigned r of NaN \<Rightarrow> NaN | PosInf \<Rightarrow> NegInf | NegInf \<Rightarrow> PosInf | Fin a \<Rightarrow> Fin (- a))
          else if c = CHR ''+'' then parse_unsigned r
          else parse_unsigned (c # r)
      | [] \<Rightarrow> NaN)"

lemma min_num_cap: "min_num v b = Fin a \<Longrightarrow> a \<le> b"
  by (cases v) auto

section \<open>URLs\<close>

text \<open>\<open>URLSearchParams\<close>: the decoded pairs in order, with \<open>get\<close>, \<open>getAll\<close> and the distinct keys.\<close>

type_synonym query = "(string \<times> string) list"

definition query_get :: "query \<Rightarrow> string \<Rightarrow> string option" where
  "query_get q key = map_of q key"

definition query_getAll :: "query \<Rightarrow> string \<Rightarrow> string list" where
  "query_getAll q key = map snd (filter (\<lambda>(k, v). k = key) q)"

text \<open>\<open>[...new Set(query.keys())]\<close>: each key once, at its first position.\<close>

definition query_keys :: "query \<Rightarrow> string list" where
  "query_keys q = rev (remdups (rev (map fst q)))"

text \<open>What the code reads of a parsed \<open>URL\<close>.\<close>

record url =
  pathname :: string
  hostname :: string
  searchParams :: query

end
