(* ===== verification/Ws_Endpoints.thy ===== *)
theory Ws_Endpoints
  imports Endpoint_Chain Js_Uri
begin

text \<open>
  The WebSocket endpoints, \<^verbatim>\<open>src/endpoints/ws/*.ts\<close>. A handler acts on the state of one
  connection: whether it is open, and the log of what was done to it. The \<open>ws\<close> library
  decides which close codes it sends; that is the parameter \<open>ws_close\<close>.
\<close>

section \<open>Connections\<close>

datatype ws_event =
    Sent string
  | EchoOn
  | RepeatEvery string int
  | Waited num
  | CloseFrame int "string option"
  | SocketDestroyed

record ws_state =
  ws_open :: bool
  ws_log :: "ws_event list"

text \<open>
  \<open>ws.close(code, reason)\<close> of the \<open>ws\<close> library on an open connection: the frame is sent, or
  the code or reason is refused with an exception, after which the connection may still
  count as open.
\<close>

datatype close_result = CloseSent | CloseThrows bool

type_synonym ws_close = "int \<Rightarrow> string option \<Rightarrow> close_result"

text \<open>A handler: its outcome (an exception, or none) and the state it leaves.\<close>

type_synonym ws_handler = "ws_close \<Rightarrow> string \<Rightarrow> query \<Rightarrow> ws_state \<Rightarrow> js_exn option \<times> ws_state"

definition log_event :: "ws_event \<Rightarrow> ws_state \<Rightarrow> ws_state" where
  "log_event e st = st\<lparr>ws_log := ws_log st @ [e]\<rparr>"

definition do_close :: "ws_close \<Rightarrow> int \<Rightarrow> string option \<Rightarrow> ws_state \<Rightarrow> js_exn option \<times> ws_state" where
  "do_close close code reason st =
     (if \<not> ws_open st then (None, st)
      else case close code reason of
        CloseSent \<Rightarrow> (None, (log_event (CloseFrame code reason) st)\<lparr>ws_open := False\<rparr>)
      | CloseThrows still_open \<Rightarrow>
          (Some (JsError ''First argument must be a valid error code number''), st\<lparr>ws_open := still_open\<rparr>))"

text \<open>The protocol an endpoint selects: a name, or \<open>None\<close> for \<open>false\<close>.\<close>

record ws_endpoint = "ws_handler endpoint" +
  getProtocol :: "(string \<Rightarrow> string option fallible) option"

section \<open>Shared path handling\<close>

text \<open>\<open>'/ws' + path.slice(idx)\<close> at the first slash from position \<open>k\<close> on.\<close>

definition ws_rest_from :: "nat \<Rightarrow> string \<Rightarrow> string option" where
  "ws_rest_from k path = (case index_from ''/'' k path of None \<Rightarrow> None | Some idx \<Rightarrow> Some (''/ws'' @ drop idx path))"

text \<open>The path from position \<open>k\<close> up to the next slash or the end.\<close>

definition segment_from :: "nat \<Rightarrow> string \<Rightarrow> string" where
  "segment_from k path =
     (let end = (case index_from ''/'' k path of None \<Rightarrow> length path | Some idx \<Rightarrow> idx) in js_slice k end path)"

section \<open>Close\<close>

definition parseCloseCode :: "string \<Rightarrow> int option" where
  "parseCloseCode path = (if path = ''/ws/close'' then Some 1000 else parse_int (drop 10 path))"

definition num_str :: "int option \<Rightarrow> string" where
  "num_str v = (case v of None \<Rightarrow> ''NaN'' | Some n \<Rightarrow> int_str n)"

definition wsCloseEndpoint :: ws_endpoint where
  "wsCloseEndpoint =
    \<lparr>ep_name = ''wsCloseEndpoint'',
     matchPath = (\<lambda>path h.
       if \<not> starts_with path ''/ws/close/'' \<and> path \<noteq> ''/ws/close'' then Inr False
       else case parseCloseCode path of
         None \<Rightarrow> Inl (StatusError 400 (''Invalid WebSocket close code: '' @ num_str None))
       | Some code \<Rightarrow>
           if code < 1000 \<or> code > 4999
           then Inl (StatusError 400 (''Invalid WebSocket close code: '' @ num_str (Some code)))
           else Inr True),
     getRemainingPath = (\<lambda>_. None),
     handle = (\<lambda>close path q st.
       case parseCloseCode path of
         None \<Rightarrow> (Some (JsError ''close code is NaN''), st)
       | Some code \<Rightarrow> do_close close code (query_get q ''reason'') st),
     ep_meta = Some \<lparr>m_path = ''/ws/close/{code}'',
       m_description = ''Closes the WebSocket connection with the specified close code (1000-4999). Optional reason via query parameter.'',
       m_examples = [''/ws/close'', ''/ws/close/1001'', ''/ws/close/4000?reason=custom''], m_group = Some wsConnection\<rparr>,
     getProtocol = None\<rparr>"

section \<open>Delay\<close>

definition wsParseDelaySeconds :: "string \<Rightarrow> num" where
  "wsParseDelaySeconds path = parse_float (segment_from 10 path)"

definition wsDelayEndpoint :: ws_endpoint where
  "wsDelayEndpoint =
    \<lparr>ep_name = ''wsDelayEndpoint'',
     matchPath = (\<lambda>path h.
       if \<not> starts_with path ''/ws/delay/'' then Inr False
       else if wsParseDelaySeconds path = NaN
       then Inl (StatusError 400 (''Invalid delay duration in '' @ path))
       else Inr True),
     getRemainingPath = ws_rest_from 10,
     handle = (\<lambda>close path q st.
       (None, log_event (Waited (scale_num (min_num (wsParseDelaySeconds path) 10) 1000)) st)),
     ep_meta = Some \<lparr>m_path = ''/ws/delay/{seconds}'',
       m_description = ''Delays WebSocket connection handling by the specified seconds (max 10). Can be chained with other WS endpoints.'',
       m_examples = [''/ws/delay/1/echo'', ''/ws/delay/5/close''], m_group = Some wsTiming\<rparr>,
     getProtocol = None\<rparr>"

section \<open>Echo\<close>

definition wsEchoEndpoint :: ws_endpoint where
  "wsEchoEndpoint =
    \<lparr>ep_name = ''wsEchoEndpoint'',
     matchPath = (\<lambda>path h. Inr (path = ''/ws/echo'')),
     getRemainingPath = (\<lambda>_. None),
     handle = (\<lambda>close path q st. (None, log_event EchoOn st)),
     ep_meta = Some \<lparr>m_path = ''/ws/echo'',
       m_description = ''Echoes back any messages received.'',
       m_examples = [''/ws/echo''], m_group = Some wsMessaging\<rparr>,
     getProtocol = None\<rparr>"

section \<open>Message\<close>

definition parseMessage :: "string \<Rightarrow> string fallible" where
  "parseMessage path = decodeURIComponent (segment_from 12 path)"

definition wsMessageEndpoint :: ws_endpoint where
  "wsMessageEndpoint =
    \<lparr>ep_name = ''wsMessageEndpoint'',
     matchPath = (\<lambda>path h. Inr (starts_with path ''/ws/message/'')),
     getRemainingPath = ws_rest_from 12,
     handle = (\<lambda>close path q st.
       case parseMessage path of
         Inl e \<Rightarrow> (Some e, st)
       | Inr message \<Rightarrow> (None, if ws_open st then log_event (Sent message) st else st)),
     ep_meta = Some \<lparr>m_path = ''/ws/message/{text}'',
       m_description = ''Sends the specified message to the client upon connection. Can be chained with other WS endpoints.'',
       m_examples = [''/ws/message/hello'', ''/ws/message/hello/echo''], m_group = Some wsMessaging\<rparr>,
     getProtocol = None\<rparr>"

section \<open>Repeat\<close>

definition REPEAT_PREFIX :: string where
  "REPEAT_PREFIX = ''/ws/repeat/''"

definition wsRepeatRemainingPath :: "string \<Rightarrow> string option" where
  "wsRepeatRemainingPath path =
     (let afterPrefix = drop (length REPEAT_PREFIX) path in
      case find_sub ''/'' afterPrefix of
        None \<Rightarrow> None
      | Some firstSlash \<Rightarrow>
          let afterMessage = drop (firstSlash + 1) afterPrefix in
          case find_sub ''/'' afterMessage of
            None \<Rightarrow> None
          | Some secondSlash \<Rightarrow> Some (''/ws'' @ drop secondSlash afterMessage))"

definition parseParams :: "string \<Rightarrow> (string \<times> int option) fallible" where
  "parseParams path =
     (let afterPrefix = drop (length REPEAT_PREFIX) path in
      case find_sub ''/'' afterPrefix of
        None \<Rightarrow> Inr ([], None)
      | Some firstSlash \<Rightarrow>
          (case decodeURIComponent (take firstSlash afterPrefix) of
             Inl e \<Rightarrow> Inl e
           | Inr message \<Rightarrow>
               let afterMessage = drop (firstSlash + 1) afterPrefix;
                   freqStr = (case find_sub ''/'' afterMessage of
                     Some secondSlash \<Rightarrow> take secondSlash afterMessage | None \<Rightarrow> afterMessage)
               in Inr (message, parse_int freqStr)))"

text \<open>\<open>setInterval\<close> turns a delay above 2147483647 into 1 millisecond.\<close>

definition timer_ms :: "int \<Rightarrow> int" where
  "timer_ms n = (if n > 2147483647 then 1 else n)"

definition wsRepeatEndpoint :: ws_endpoint where
  "wsRepeatEndpoint =
    \<lparr>ep_name = ''wsRepeatEndpoint'',
     matchPath = (\<lambda>path h.
       if \<not> starts_with path REPEAT_PREFIX then Inr False
       else case parseParams path of
         Inl e \<Rightarrow> Inl e
       | Inr (message, freqMs) \<Rightarrow>
           (case freqMs of
              None \<Rightarrow> Inl (StatusError 400 (''Invalid repeat frequency in '' @ path))
            | Some n \<Rightarrow>
                if n \<le> 0 then Inl (StatusError 400 (''Invalid repeat frequency in '' @ path)) else Inr True)),
     getRemainingPath = wsRepeatRemainingPath,
     handle = (\<lambda>close path q st.
       case parseParams path of
         Inl e \<Rightarrow> (Some e, st)
       | Inr (message, freqMs) \<Rightarrow>
           (None, log_event (RepeatEvery message (case freqMs of None \<Rightarrow> 1 | Some n \<Rightarrow> timer_ms n)) st)),
     ep_meta = Some \<lparr>m_path = ''/ws/repeat/{message}/{intervalMs}'',
       m_description = ''Repeatedly sends the specified message at the given interval (in milliseconds). Can be chained with other WS endpoints.'',
       m_examples = [''/ws/repeat/ping/1000'', ''/ws/repeat/heartbeat/5000/echo''], m_group = Some wsMessaging\<rparr>,
     getProtocol = None\<rparr>"

text \<open>One tick of the interval timer: send while open, clear the timer once not.\<close>

definition repeat_tick :: "string \<Rightarrow> ws_state \<Rightarrow> bool \<times> ws_state" where
  "repeat_tick message st = (if ws_open st then (True, log_event (Sent message) st) else (False, st))"

text \<open>One message from the client on a connection with the echo listener.\<close>

definition echo_message :: "string \<Rightarrow> ws_state \<Rightarrow> ws_state" where
  "echo_message data st = (if ws_open st then log_event (Sent data) st else st)"

section \<open>Reset\<close>

text \<open>\<open>readyState\<close> follows the destroyed socket only later, with its close event.\<close>

definition wsResetEndpoint :: ws_endpoint where
  "wsResetEndpoint =
    \<lparr>ep_name = ''wsResetEndpoint'',
     matchPath = (\<lambda>path h. Inr (path = ''/ws/error/reset'')),
     getRemainingPath = (\<lambda>_. None),
     handle = (\<lambda>close path q st. (None, log_event SocketDestroyed st)),
     ep_meta = Some \<lparr>m_path = ''/ws/error/reset'',
       m_description = ''Destroys the WebSocket connection abruptly without a proper close handshake.'',
       m_examples = [''/ws/error/reset''], m_group = Some wsErrors\<rparr>,
     getProtocol = None\<rparr>"

section \<open>Subprotocols\<close>

definition SUBPROTOCOL_PREFIX :: string where
  "SUBPROTOCOL_PREFIX = ''/ws/subprotocol/''"

definition wsSubprotocolEndpoint :: ws_endpoint where
  "wsSubprotocolEndpoint =
    \<lparr>ep_name = ''wsSubprotocolEndpoint'',
     matchPath = (\<lambda>path h.
       Inr (starts_with path SUBPROTOCOL_PREFIX \<and> length path > length SUBPROTOCOL_PREFIX)),
     getRemainingPath = ws_rest_from (length SUBPROTOCOL_PREFIX),
     handle = (\<lambda>close path q st. (None, st)),
     ep_meta = Some \<lparr>m_path = ''/ws/subprotocol/{name}'',
       m_description = ''Forces the specified subprotocol in the upgrade response Sec-WebSocket-Protocol header, regardless of what the client requested.'',
       m_examples = [''/ws/subprotocol/graphql-ws/echo'', ''/ws/subprotocol/mqtt/message/hello/close/1000''], m_group = Some wsConnection\<rparr>,
     getProtocol = Some (\<lambda>path.
       map_sum id Some (decodeURIComponent (segment_from (length SUBPROTOCOL_PREFIX) path)))\<rparr>"

definition NO_SUBPROTOCOL_PATH :: string where
  "NO_SUBPROTOCOL_PATH = ''/ws/no-subprotocol''"

definition wsNoSubprotocolEndpoint :: ws_endpoint where
  "wsNoSubprotocolEndpoint =
    \<lparr>ep_name = ''wsNoSubprotocolEndpoint'',
     matchPath = (\<lambda>path h.
       Inr (path = NO_SUBPROTOCOL_PATH \<or> starts_with path (NO_SUBPROTOCOL_PATH @ ''/''))),
     getRemainingPath = (\<lambda>path.
       if length path > length NO_SUBPROTOCOL_PATH
       then Some (''/ws'' @ drop (length NO_SUBPROTOCOL_PATH) path) else None),
     handle = (\<lambda>close path q st. (None, st)),
     ep_meta = Some \<lparr>m_path = ''/ws/no-subprotocol'',
       m_description = ''Explicitly omits the Sec-WebSocket-Protocol header from the upgrade response, overriding the default behavior where the server auto-selects the first client-offered protocol.'',
       m_examples = [''/ws/no-subprotocol/echo''], m_group = Some wsConnection\<rparr>,
     getProtocol = Some (\<lambda>path. Inr None)\<rparr>"

section \<open>The endpoint list\<close>

text \<open>\<open>wsEndpoints\<close> of \<^verbatim>\<open>endpoint-index.ts\<close>: the module's exports, ordered by name.\<close>

definition wsEndpoints :: "ws_endpoint list" where
  "wsEndpoints =
    [wsCloseEndpoint, wsDelayEndpoint, wsEchoEndpoint, wsMessageEndpoint, wsNoSubprotocolEndpoint,
     wsRepeatEndpoint, wsResetEndpoint, wsSubprotocolEndpoint]"

lemma index_from_bounds: "index_from sub k s = Some i \<Longrightarrow> k \<le> i \<and> i + length sub \<le> max k (length s)"
  using find_sub_Some [of sub "drop k s"] by (auto simp: index_from_def)

lemma ws_rest_shorter: "ws_rest_from k path = Some rest \<Longrightarrow> 10 \<le> k \<Longrightarrow> length rest + 7 \<le> length path"
  using index_from_bounds [of "''/''" k path] by (auto simp: ws_rest_from_def max_def split: option.splits if_splits)

lemma find_slash_less: "find_sub ''/'' s = Some i \<Longrightarrow> i < length s"
  using find_sub_Some by fastforce

lemma ws_uses_up:
  assumes "ep \<in> set wsEndpoints" and "matchPath ep path h = Inr True" and "getRemainingPath ep path = Some rest"
  shows "length rest + 7 \<le> length path"
proof -
  have cases: "ep = wsDelayEndpoint \<or> ep = wsMessageEndpoint \<or> ep = wsNoSubprotocolEndpoint \<or>
      ep = wsRepeatEndpoint \<or> ep = wsSubprotocolEndpoint"
    using assms(1,3) by (auto simp: wsEndpoints_def wsCloseEndpoint_def wsEchoEndpoint_def wsResetEndpoint_def)
  have "length rest + 7 \<le> length path" if "wsRepeatRemainingPath path = Some rest"
    using that
    by (auto simp: wsRepeatRemainingPath_def REPEAT_PREFIX_def Let_def split: option.splits dest!: find_slash_less)
  moreover have "length rest + 7 \<le> length path" if "ws_rest_from k path = Some rest" "10 \<le> k" for k
    by (rule ws_rest_shorter [OF that])
  ultimately show ?thesis
    using cases assms(3)
    by (auto simp: wsDelayEndpoint_def wsMessageEndpoint_def wsNoSubprotocolEndpoint_def wsRepeatEndpoint_def
        wsSubprotocolEndpoint_def SUBPROTOCOL_PREFIX_def NO_SUBPROTOCOL_PATH_def split: if_splits)
qed

interpretation ws_chain: chainable wsEndpoints 7
  by unfold_locales (auto dest: ws_uses_up)

text \<open>At most one WebSocket endpoint claims a path, so the order of the list is immaterial.\<close>

lemma ws_claims:
  "claims wsCloseEndpoint path h \<Longrightarrow> starts_with path ''/ws/clo''"
  "claims wsDelayEndpoint path h \<Longrightarrow> starts_with path ''/ws/d''"
  "claims wsEchoEndpoint path h \<Longrightarrow> starts_with path ''/ws/ec''"
  "claims wsMessageEndpoint path h \<Longrightarrow> starts_with path ''/ws/m''"
  "claims wsNoSubprotocolEndpoint path h \<Longrightarrow> starts_with path ''/ws/n''"
  "claims wsRepeatEndpoint path h \<Longrightarrow> starts_with path ''/ws/r''"
  "claims wsResetEndpoint path h \<Longrightarrow> starts_with path ''/ws/er''"
  "claims wsSubprotocolEndpoint path h \<Longrightarrow> starts_with path ''/ws/s''"
  by (auto simp: claims_def wsCloseEndpoint_def wsDelayEndpoint_def wsEchoEndpoint_def wsMessageEndpoint_def
      wsNoSubprotocolEndpoint_def wsRepeatEndpoint_def wsResetEndpoint_def wsSubprotocolEndpoint_def
      REPEAT_PREFIX_def SUBPROTOCOL_PREFIX_def NO_SUBPROTOCOL_PATH_def starts_with_iff split: if_splits)

lemma ws_claims_unique:
  assumes "ep \<in> set wsEndpoints" "ep' \<in> set wsEndpoints" "claims ep path h" "claims ep' path h"
  shows "ep' = ep"
proof -
  define ps where "ps = [(wsCloseEndpoint, ''/ws/clo''), (wsDelayEndpoint, ''/ws/d''), (wsEchoEndpoint, ''/ws/ec''),
    (wsMessageEndpoint, ''/ws/m''), (wsNoSubprotocolEndpoint, ''/ws/n''), (wsRepeatEndpoint, ''/ws/r''),
    (wsResetEndpoint, ''/ws/er''), (wsSubprotocolEndpoint, ''/ws/s'')]"
  have start: "list_ex (\<lambda>(e', p). e' = e \<and> starts_with path p) ps" if "e \<in> set wsEndpoints" "claims e path h" for e
  proof -
    have "e = wsCloseEndpoint \<or> e = wsDelayEndpoint \<or> e = wsEchoEndpoint \<or> e = wsMessageEndpoint \<or>
        e = wsNoSubprotocolEndpoint \<or> e = wsRepeatEndpoint \<or> e = wsResetEndpoint \<or> e = wsSubprotocolEndpoint"
      using that(1) by (simp add: wsEndpoints_def)
    then show ?thesis
      using that(2) unfolding ps_def
      by - (elim disjE; hypsubst; drule ws_claims; simp del: starts_with_Cons)
  qed
  then obtain p p' where p: "(ep, p) \<in> set ps" "starts_with path p" "(ep', p') \<in> set ps" "starts_with path p'"
    using start [OF assms(1,3)] start [OF assms(2,4)] unfolding list_ex_iff by auto
  then have "starts_with p p' \<or> starts_with p' p" using starts_with_same by blast
  moreover have "list_all (\<lambda>(e, p). list_all (\<lambda>(e', p'). starts_with p p' \<longrightarrow> e = e') ps) ps"
    by (simp add: ps_def)
  ultimately show ?thesis using p(1,3) starts_with_same unfolding list_all_iff by fast
qed

lemma ws_find:
  assumes "ep \<in> set wsEndpoints" and "matchPath ep path h = Inr True"
  shows "find_endpoint wsEndpoints path h = Inr (Some ep)"
proof (rule find_endpoint_unique [OF assms])
  fix ep' assume "ep' \<in> set wsEndpoints" "ep' \<noteq> ep"
  then show "\<not> claims ep' path h"
    using ws_claims_unique [OF assms(1), of ep' path h] assms(2) by (auto simp: claims_def)
qed

end
