(* ===== verification/Ws_Handler.thy ===== *)
theory Ws_Handler
  imports Ws_Endpoints Endpoint_Config
begin

text \<open>
  \<^verbatim>\<open>src/ws-handler.ts\<close>: what happens to a WebSocket upgrade request (refused, an uncaught
  exception, or accepted with a subprotocol) and then the run of the endpoint chain on the
  open connection, with the client free to close it between any two steps.
\<close>

section \<open>The upgrade\<close>

definition crlf :: string where
  "crlf = [CHR 0x0D, CHR 0x0A]"

definition response_line :: "string \<Rightarrow> string" where
  "response_line s = ''HTTP/1.1 '' @ s @ crlf @ crlf"

text \<open>\<open>handleProtocols\<close> of the \<open>WebSocketServer\<close>: the forced value, or the client's first protocol.\<close>

definition handleProtocols :: "string list \<Rightarrow> string option option \<Rightarrow> string option" where
  "handleProtocols clientProtocols forced =
     (case forced of
        None \<Rightarrow> (case clientProtocols of [] \<Rightarrow> None | p # ps \<Rightarrow> if p = [] then None else Some p)
      | Some f \<Rightarrow> f)"

text \<open>
  The \<open>ws\<close> library consults \<open>handleProtocols\<close> only when the request offers protocols, and
  sends no header for the empty name.
\<close>

definition selected_protocol :: "string list \<Rightarrow> string option option \<Rightarrow> string option" where
  "selected_protocol clientProtocols forced =
     (if clientProtocols = [] then None
      else case handleProtocols clientProtocols forced of
        Some p \<Rightarrow> if p = [] then None else Some p | None \<Rightarrow> None)"

datatype ws_outcome =
    Refused string
  | Uncaught js_exn
  | Accepted "string option" "(ws_endpoint \<times> string) list"

definition refused_status :: "js_exn \<Rightarrow> string" where
  "refused_status e =
     (case e of
        StatusError code msg \<Rightarrow> int_str code @ '' '' @ (if code = 404 then ''Not Found'' else ''Bad Request'')
      | _ \<Rightarrow> ''500 Internal Server Error'')"

definition accept_upgrade :: "string list \<Rightarrow> (ws_endpoint \<times> string) list \<Rightarrow> ws_outcome" where
  "accept_upgrade offered entries =
     (case filter (\<lambda>(ep, _). getProtocol ep \<noteq> None) entries of
        [] \<Rightarrow> Accepted (selected_protocol offered None) entries
      | [(ep, path)] \<Rightarrow>
          (case (the (getProtocol ep)) path of
             Inl e \<Rightarrow> Uncaught e
           | Inr forced \<Rightarrow>
               Accepted (selected_protocol (if offered = [] then [''_''] else offered) (Some forced)) entries)
      | _ \<Rightarrow> Refused (response_line ''400 Bad Request''))"

text \<open>\<open>None\<close> stands for the exception of \<open>new URL\<close>.\<close>

definition handleWebSocketUpgrade :: "string \<Rightarrow> url option \<Rightarrow> string list \<Rightarrow> ws_outcome" where
  "handleWebSocketUpgrade rootDomain u offered =
     (case u of
        None \<Rightarrow> Uncaught (JsError ''Invalid URL'')
      | Some u \<Rightarrow>
          let prefix = hostnamePrefix (hostname u) rootDomain in
          if present prefix \<and> present (validateEndpointParts (getSNIPrefixParts (hostname u) rootDomain))
          then Refused (response_line ''400 Bad Request'')
          else
            case resolveEndpointChain wsEndpoints (pathname u) prefix of
              Inl e \<Rightarrow> Refused (response_line (refused_status e))
            | Inr entries \<Rightarrow> accept_upgrade offered entries)"

section \<open>The run of the chain\<close>

text \<open>
  The loop over the entries: \<open>peer i\<close> says that the client has closed the connection before
  the \<open>i\<close>-th step. An exception ends the loop and closes with code 1011 if still open.
\<close>

definition internal_error :: "ws_close \<Rightarrow> ws_state \<Rightarrow> ws_state" where
  "internal_error close st =
     (if ws_open st then snd (do_close close 1011 (Some ''Internal error'') st) else st)"

fun run_entries :: "ws_close \<Rightarrow> query \<Rightarrow> (nat \<Rightarrow> bool) \<Rightarrow> nat \<Rightarrow> (ws_endpoint \<times> string) list
    \<Rightarrow> ws_state \<Rightarrow> ws_state" where
  "run_entries close q peer i [] st = st"
| "run_entries close q peer i ((ep, path) # es) st =
     (let st = (if peer i then st\<lparr>ws_open := False\<rparr> else st) in
      if \<not> ws_open st then st
      else
        case handle ep close path q st of
          (Some e, st') \<Rightarrow> internal_error close st'
        | (None, st') \<Rightarrow> run_entries close q peer (Suc i) es st')"

definition new_ws :: ws_state where
  "new_ws = \<lparr>ws_open = True, ws_log = []\<rparr>"

section \<open>Segments of a path\<close>

lemma index_from_slash:
  "length p = k \<Longrightarrow> CHR ''/'' \<notin> set x \<Longrightarrow> index_from ''/'' k (p @ x @ CHR ''/'' # r) = Some (k + length x)"
  using find_sub_single_Some [of "CHR ''/''" x r] by (simp add: index_from_def)

lemma index_from_no_slash:
  "length p = k \<Longrightarrow> CHR ''/'' \<notin> set x \<Longrightarrow> index_from ''/'' k (p @ x) = None"
  using find_sub_single_None [of "CHR ''/''" x] by (simp add: index_from_def)

lemma segment_from_slash:
  "length p = k \<Longrightarrow> CHR ''/'' \<notin> set x \<Longrightarrow> segment_from k (p @ x @ CHR ''/'' # r) = x"
  by (simp add: segment_from_def index_from_slash js_slice_def)

lemma segment_from_end: "length p = k \<Longrightarrow> CHR ''/'' \<notin> set x \<Longrightarrow> segment_from k (p @ x) = x"
  by (simp add: segment_from_def index_from_no_slash js_slice_def)

lemma ws_rest_from_slash:
  "length p = k \<Longrightarrow> CHR ''/'' \<notin> set x \<Longrightarrow> ws_rest_from k (p @ x @ CHR ''/'' # r) = Some (''/ws/'' @ r)"
  by (simp add: ws_rest_from_def index_from_slash)

lemma ws_endpoints_mem [simp]:
  "wsCloseEndpoint \<in> set wsEndpoints" "wsDelayEndpoint \<in> set wsEndpoints" "wsEchoEndpoint \<in> set wsEndpoints"
  "wsMessageEndpoint \<in> set wsEndpoints" "wsNoSubprotocolEndpoint \<in> set wsEndpoints"
  "wsRepeatEndpoint \<in> set wsEndpoints" "wsResetEndpoint \<in> set wsEndpoints"
  "wsSubprotocolEndpoint \<in> set wsEndpoints"
  by (simp_all add: wsEndpoints_def)

section \<open>A scripted conversation\<close>

text \<open>Any number of message segments, as they stand in the path, and a close code.\<close>

definition script_path :: "string list \<Rightarrow> nat \<Rightarrow> string" where
  "script_path segs code = ''/ws'' @ concat (map (\<lambda>s. ''/message/'' @ s) segs) @ ''/close/'' @ nat_str code"

fun script_entries :: "string list \<Rightarrow> nat \<Rightarrow> (ws_endpoint \<times> string) list" where
  "script_entries [] code = [(wsCloseEndpoint, script_path [] code)]"
| "script_entries (s # segs) code = (wsMessageEndpoint, script_path (s # segs) code) # script_entries segs code"

lemma script_path_Cons:
  "\<exists>r. script_path (s # segs) code = ''/ws/message/'' @ s @ CHR ''/'' # r \<and> script_path segs code = ''/ws/'' @ r"
  by (cases segs) (auto simp: script_path_def)

lemma script_close: "parseCloseCode (script_path [] code) = Some (int code)"
  by (simp add: parseCloseCode_def script_path_def)

lemma script_message:
  assumes "CHR ''/'' \<notin> set s"
  shows "parseMessage (script_path (s # segs) code) = decodeURIComponent s"
    and "getRemainingPath wsMessageEndpoint (script_path (s # segs) code) = Some (script_path segs code)"
proof -
  obtain r where r: "script_path (s # segs) code = ''/ws/message/'' @ s @ CHR ''/'' # r" "script_path segs code = ''/ws/'' @ r"
    using script_path_Cons by blast
  show "parseMessage (script_path (s # segs) code) = decodeURIComponent s"
    using segment_from_slash [of "''/ws/message/''" 12 s r] assms by (simp add: parseMessage_def r)
  show "getRemainingPath wsMessageEndpoint (script_path (s # segs) code) = Some (script_path segs code)"
    using ws_rest_from_slash [of "''/ws/message/''" 12 s r] assms by (simp add: r wsMessageEndpoint_def)
qed

lemma script_routes:
  assumes "1000 \<le> code" "code \<le> 4999" and "list_all (\<lambda>s. CHR ''/'' \<notin> set s) segs"
  shows "routes wsEndpoints h (Some (script_path segs code)) (script_entries segs code)"
  using assms(3)
proof (induction segs)
  case Nil
  have path: "script_path [] code = ''/ws/close/'' @ nat_str code" by (simp add: script_path_def)
  have "matchPath wsCloseEndpoint (script_path [] code) h = Inr True"
    using assms path script_close [of code] by (simp add: wsCloseEndpoint_def)
  then have "find_endpoint wsEndpoints (script_path [] code) h = Inr (Some wsCloseEndpoint)" by (rule ws_find [rotated]) simp
  then show ?case
    using routes.step [of "Some (script_path [] code)" wsEndpoints h wsCloseEndpoint "[]"]
    by (simp add: routes.stop present_def wsCloseEndpoint_def path)
next
  case (Cons s segs)
  obtain r where r: "script_path (s # segs) code = ''/ws/message/'' @ s @ CHR ''/'' # r"
    using script_path_Cons by blast
  have "matchPath wsMessageEndpoint (script_path (s # segs) code) h = Inr True"
    by (simp add: r wsMessageEndpoint_def)
  then have "find_endpoint wsEndpoints (script_path (s # segs) code) h = Inr (Some wsMessageEndpoint)"
    by (rule ws_find [rotated]) simp
  moreover have "present (Some (script_path (s # segs) code))" by (simp add: r present_def)
  moreover have "getRemainingPath wsMessageEndpoint (script_path (s # segs) code) = Some (script_path segs code)"
    using script_message(2) Cons.prems by simp
  ultimately show ?case
    using routes.step [of "Some (script_path (s # segs) code)" wsEndpoints h wsMessageEndpoint] Cons by simp
qed

lemma length_script_entries [simp]: "length (script_entries segs code) = Suc (length segs)"
  by (induction segs) simp_all

lemma script_no_protocol: "filter (\<lambda>(ep, _). getProtocol ep \<noteq> None) (script_entries segs code) = []"
  by (induction segs) (simp_all add: wsMessageEndpoint_def wsCloseEndpoint_def)

lemma accept_script: "accept_upgrade offered (script_entries segs code) = Accepted (selected_protocol offered None) (script_entries segs code)"
  unfolding accept_upgrade_def script_no_protocol by simp

text \<open>The messages before the first segment that does not decode, and whether there is such a segment.\<close>

fun script_messages :: "string list \<Rightarrow> string list \<times> bool" where
  "script_messages [] = ([], False)"
| "script_messages (s # segs) =
     (case decodeURIComponent s of
        Inl e \<Rightarrow> ([], True)
      | Inr m \<Rightarrow> map_prod (\<lambda>ms. m # ms) id (script_messages segs))"

text \<open>
  What a client should see: the messages, and then a close frame with the code and the reason if the
  \<open>ws\<close> library sends that code; otherwise an internal error.
\<close>

definition script_run :: "ws_close \<Rightarrow> query \<Rightarrow> string list \<Rightarrow> nat \<Rightarrow> ws_state" where
  "script_run close q segs code =
     (let reason = query_get q ''reason'' in
      case script_messages segs of
        (ms, True) \<Rightarrow> internal_error close \<lparr>ws_open = True, ws_log = map Sent ms\<rparr>
      | (ms, False) \<Rightarrow>
          (case close (int code) reason of
             CloseSent \<Rightarrow> \<lparr>ws_open = False, ws_log = map Sent ms @ [CloseFrame (int code) reason]\<rparr>
           | CloseThrows still_open \<Rightarrow> internal_error close \<lparr>ws_open = still_open, ws_log = map Sent ms\<rparr>))"

lemma run_script:
  assumes "list_all (\<lambda>s. CHR ''/'' \<notin> set s) segs"
  shows "run_entries close q (\<lambda>_. False) i (script_entries segs code) \<lparr>ws_open = True, ws_log = l\<rparr> =
    (case script_messages segs of
       (ms, True) \<Rightarrow> internal_error close \<lparr>ws_open = True, ws_log = l @ map Sent ms\<rparr>
     | (ms, False) \<Rightarrow>
         (case close (int code) (query_get q ''reason'') of
            CloseSent \<Rightarrow> \<lparr>ws_open = False, ws_log = l @ map Sent ms @ [CloseFrame (int code) (query_get q ''reason'')]\<rparr>
          | CloseThrows still_open \<Rightarrow> internal_error close \<lparr>ws_open = still_open, ws_log = l @ map Sent ms\<rparr>))"
  using assms
proof (induction segs arbitrary: i l)
  case Nil
  then show ?case
    using script_close [of code]
    by (cases "close (int code) (query_get q ''reason'')") (simp_all add: wsCloseEndpoint_def do_close_def log_event_def)
next
  case (Cons s segs)
  have parsed: "parseMessage (script_path (s # segs) code) = decodeURIComponent s" using script_message Cons.prems by simp
  show ?case
  proof (cases "decodeURIComponent s")
    case (Inl e)
    then show ?thesis using parsed by (simp add: wsMessageEndpoint_def)
  next
    case (Inr m)
    then have "run_entries close q (\<lambda>_. False) i (script_entries (s # segs) code) \<lparr>ws_open = True, ws_log = l\<rparr> =
        run_entries close q (\<lambda>_. False) (Suc i) (script_entries segs code) \<lparr>ws_open = True, ws_log = l @ [Sent m]\<rparr>"
      using parsed by (simp add: wsMessageEndpoint_def log_event_def)
    then show ?thesis
      using Cons Inr by (cases "script_messages segs") (simp split: bool.split close_result.split)
  qed
qed


text \<open>A close routine like that of the \<open>ws\<close> library: it refuses the reserved codes.\<close>

definition sample_close :: ws_close where
  "sample_close code reason =
     (if code \<in> {1000, 1001, 1002, 1003} \<or> 1007 \<le> code \<and> code \<le> 1014 \<or> 3000 \<le> code \<and> code \<le> 4999
      then CloseSent else CloseThrows False)"


section \<open>Interruptions\<close>

lemma handle_log:
  assumes "ep \<in> set wsEndpoints" "handle ep close path q st = (r, st')"
  shows "starts_with (ws_log st') (ws_log st)"
  using assms
  by (auto simp: wsEndpoints_def wsCloseEndpoint_def wsDelayEndpoint_def wsEchoEndpoint_def wsMessageEndpoint_def
      wsNoSubprotocolEndpoint_def wsRepeatEndpoint_def wsResetEndpoint_def wsSubprotocolEndpoint_def
      do_close_def log_event_def starts_with_iff split: option.splits if_splits close_result.splits sum.splits)

lemma internal_error_log: "starts_with (ws_log (internal_error close st)) (ws_log st)"
  by (auto simp: internal_error_def do_close_def log_event_def starts_with_iff split: close_result.splits)

lemma run_entries_log:
  assumes "\<forall>(ep, p) \<in> set es. ep \<in> set wsEndpoints"
  shows "starts_with (ws_log (run_entries close q peer i es st)) (ws_log st)"
  using assms
proof (induction close q peer i es st rule: run_entries.induct)
  case (2 close q peer i ep path es st)
  define st1 where "st1 = (if peer i then st\<lparr>ws_open := False\<rparr> else st)"
  obtain r st' where h: "handle ep close path q st1 = (r, st')" by force
  have ep: "ep \<in> set wsEndpoints" using 2(2) by auto
  have s1: "ws_log st1 = ws_log st" by (simp add: st1_def)
  have log: "starts_with (ws_log st') (ws_log st)" using handle_log [OF ep h] s1 by simp
  show ?case
  proof (cases "ws_open st1")
    case open1: True
    show ?thesis
    proof (cases r)
      case None
      have "starts_with (ws_log (run_entries close q peer (Suc i) es st')) (ws_log st')"
        using 2(1) [OF st1_def _ h [symmetric] None] open1 2(2) by auto
      then show ?thesis using log open1 h None starts_with_trans by (auto simp: Let_def simp flip: st1_def)
    next
      case (Some e)
      then show ?thesis
        using internal_error_log [of close st'] log open1 h starts_with_trans
        by (auto simp: Let_def simp flip: st1_def)
    qed
  qed (simp add: Let_def s1 flip: st1_def)
qed simp

lemma run_interrupted:
  assumes "\<forall>(ep, p) \<in> set es. ep \<in> set wsEndpoints"
  shows "starts_with (ws_log (run_entries close q (\<lambda>_. False) i es st)) (ws_log (run_entries close q peer i es st))"
  using assms
proof (induction es arbitrary: i st)
  case (Cons e es)
  obtain ep path where e: "e = (ep, path)" by force
  obtain r st' where h: "handle ep close path q st = (r, st')" by force
  show ?case
  proof (cases "peer i \<or> \<not> ws_open st")
    case True
    then have "ws_log (run_entries close q peer i (e # es) st) = ws_log st" by (auto simp: e)
    then show ?thesis using run_entries_log [OF Cons.prems] by metis
  next
    case False
    then show ?thesis using Cons h by (cases r) (auto simp: e)
  qed
qed simp

text \<open>
  C21: Whenever the client closes the connection, between whichever steps, what the server
  has done is a prefix of what it does without the interruption: no step is skipped, repeated
  or reordered, and nothing is sent to a closed connection.
\<close>

theorem ws_interruption_prefix:
  assumes "handleWebSocketUpgrade rootDomain u offered = Accepted p es"
  shows "starts_with (ws_log (run_entries close q (\<lambda>_. False) 0 es new_ws))
    (ws_log (run_entries close q peer 0 es new_ws))"
proof -
  have "\<exists>path h. resolveEndpointChain wsEndpoints path h = Inr es"
    using assms by (auto simp: handleWebSocketUpgrade_def Let_def accept_upgrade_def
        split: option.splits if_splits sum.splits list.splits prod.splits)
  then obtain path h where "resolveEndpointChain wsEndpoints path h = Inr es" by blast
  then have "routes wsEndpoints h (Some path) es" by (simp add: resolveEndpointChain_def chain_loop_Inr)
  then show ?thesis by (rule run_interrupted [OF routes_mem])
qed

lemma echo_accepted:
  "handleWebSocketUpgrade ''localhost''
    (Some \<lparr>pathname = ''/ws/echo'', hostname = ''localhost'', searchParams = []\<rparr>) [] =
    Accepted None [(wsEchoEndpoint, ''/ws/echo'')]"
proof -
  have "find_endpoint wsEndpoints ''/ws/echo'' h = Inr (Some wsEchoEndpoint)" for h
    by (rule ws_find, simp) (simp add: wsEchoEndpoint_def)
  moreover have echo: "getRemainingPath wsEchoEndpoint ''/ws/echo'' = None" "getProtocol wsEchoEndpoint = None"
    by (simp_all add: wsEchoEndpoint_def)
  ultimately have "routes wsEndpoints h (Some ''/ws/echo'') [(wsEchoEndpoint, ''/ws/echo'')]" for h
    using routes.step [of "Some ''/ws/echo''" wsEndpoints h wsEchoEndpoint "[]"]
    by (simp add: present_def routes.stop)
  then have "resolveEndpointChain wsEndpoints ''/ws/echo'' h = Inr [(wsEchoEndpoint, ''/ws/echo'')]" for h
    by (simp add: resolveEndpointChain_def chain_loop_Inr MAX_CHAIN_DEPTH_def)
  moreover have "hostnamePrefix ''localhost'' ''localhost'' = Some []"
    by (simp add: hostnamePrefix_def ends_with_def slice_off_end_def)
  ultimately show ?thesis
    by (simp add: handleWebSocketUpgrade_def present_def accept_upgrade_def echo selected_protocol_def)
qed

theorem ws_interruption_prefix_witness:
  "starts_with (ws_log (run_entries sample_close [] (\<lambda>_. False) 0 [(wsEchoEndpoint, ''/ws/echo'')] new_ws))
    (ws_log (run_entries sample_close [] (\<lambda>i. i = 0) 0 [(wsEchoEndpoint, ''/ws/echo'')] new_ws))"
  by (rule ws_interruption_prefix [OF echo_accepted])

section \<open>Uncaught exceptions\<close>

lemma protocol_entries:
  assumes "\<forall>(ep, p) \<in> set es. ep \<in> set wsEndpoints" and "filter (\<lambda>(ep, _). getProtocol ep \<noteq> None) es = [(ep, p)]"
  shows "ep = wsSubprotocolEndpoint \<or> ep = wsNoSubprotocolEndpoint"
proof -
  have "(ep, p) \<in> set (filter (\<lambda>(ep, _). getProtocol ep \<noteq> None) es)" unfolding assms(2) by simp
  then have "ep \<in> set wsEndpoints" "getProtocol ep \<noteq> None" using assms(1) by auto
  then show ?thesis
    by (auto simp: wsEndpoints_def wsCloseEndpoint_def wsDelayEndpoint_def wsEchoEndpoint_def
        wsMessageEndpoint_def wsRepeatEndpoint_def wsResetEndpoint_def)
qed

lemma accept_uncaught:
  assumes "\<forall>(ep, p) \<in> set es. ep \<in> set wsEndpoints"
  shows "accept_upgrade offered es = Uncaught e \<longleftrightarrow>
    (\<exists>p. filter (\<lambda>(ep, _). getProtocol ep \<noteq> None) es = [(wsSubprotocolEndpoint, p)] \<and>
      decodeURIComponent (segment_from 16 p) = Inl UriError \<and> e = UriError)"
proof (cases "\<exists>ep p. filter (\<lambda>(ep, _). getProtocol ep \<noteq> None) es = [(ep, p)]")
  case False
  then show ?thesis by (auto simp: accept_upgrade_def split: list.splits prod.splits)
next
  case True
  then obtain ep p where f: "filter (\<lambda>(ep, _). getProtocol ep \<noteq> None) es = [(ep, p)]" by blast
  have protos: "the (getProtocol wsSubprotocolEndpoint) = (\<lambda>path. map_sum id Some (decodeURIComponent (segment_from 16 path)))"
    "the (getProtocol wsNoSubprotocolEndpoint) = (\<lambda>path. Inr None)"
    by (simp_all add: wsSubprotocolEndpoint_def wsNoSubprotocolEndpoint_def SUBPROTOCOL_PREFIX_def numeral_eq_Suc)
  have ne: "wsNoSubprotocolEndpoint \<noteq> wsSubprotocolEndpoint"
    by (simp add: wsNoSubprotocolEndpoint_def wsSubprotocolEndpoint_def)
  show ?thesis
    using protocol_entries [OF assms f] ne decode_error [of "segment_from 16 p"]
    unfolding accept_upgrade_def f
    by (cases "decodeURIComponent (segment_from 16 p)") (auto simp: protos)
qed

text \<open>
  An upgrade request with a readable URL ends in an uncaught exception exactly when its
  host and its path are valid and the name of its only subprotocol endpoint is not valid
  percent-encoded UTF-8; every other error is answered on the socket.
\<close>

theorem ws_uncaught_iff:
  "handleWebSocketUpgrade rootDomain (Some u) offered = Uncaught e \<longleftrightarrow>
    \<not> (present (hostnamePrefix (hostname u) rootDomain) \<and>
       validateEndpointParts (getSNIPrefixParts (hostname u) rootDomain) \<noteq> None) \<and>
    (\<exists>es p. resolveEndpointChain wsEndpoints (pathname u) (hostnamePrefix (hostname u) rootDomain) = Inr es \<and>
      filter (\<lambda>(ep, _). getProtocol ep \<noteq> None) es = [(wsSubprotocolEndpoint, p)] \<and>
      decodeURIComponent (segment_from 16 p) = Inl UriError) \<and> e = UriError"
proof (cases "resolveEndpointChain wsEndpoints (pathname u) (hostnamePrefix (hostname u) rootDomain)")
  case (Inl x)
  then show ?thesis by (simp add: handleWebSocketUpgrade_def Let_def)
next
  case (Inr es)
  then have "routes wsEndpoints (hostnamePrefix (hostname u) rootDomain) (Some (pathname u)) es"
    by (simp add: resolveEndpointChain_def chain_loop_Inr)
  then show ?thesis
    using accept_uncaught [OF routes_mem, of _ _ es offered e] Inr
    by (auto simp: handleWebSocketUpgrade_def Let_def)
qed

end
