(* ===== verification/Json.thy ===== *)
theory Json
  imports Tls_Merge "HOL-Library.Multiset"
begin

text \<open>
  JSON values and their text: \<open>JSON.stringify(v)\<close>, \<open>JSON.stringify(v, null, 2)\<close> and
  \<open>serializeJson\<close> of \<^verbatim>\<open>src/util.ts\<close>. Objects keep their keys in insertion order; a field
  whose value is \<open>undefined\<close> is left out of the text. Numbers are the integers that the server
  prints. Text is held in its UTF-8 encoding, one \<^typ>\<open>char\<close> per byte.
\<close>

datatype json =
    JUndefined
  | JNull
  | JBool bool
  | JNum int
  | JStr string
  | JArr "json list"
  | JObj "(string \<times> json) list"

definition newline :: string where
  "newline = [CHR 0x0A]"

fun defined :: "json \<Rightarrow> bool" where
  "defined JUndefined = False"
| "defined _ = True"

text \<open>Compact text, as \<open>JSON.stringify(v)\<close> gives; \<open>undefined\<close> in an array is \<open>null\<close>.\<close>

fun stringify :: "json \<Rightarrow> string" where
  "stringify JUndefined = ''null''"
| "stringify JNull = ''null''"
| "stringify (JBool b) = (if b then ''true'' else ''false'')"
| "stringify (JNum n) = int_str n"
| "stringify (JStr s) = json_str s"
| "stringify (JArr vs) = ''['' @ join '','' (map stringify vs) @ '']''"
| "stringify (JObj fs) =
     ''{'' @ join '','' (map (\<lambda>(k, t). json_str k @ '':'' @ t)
       (map (\<lambda>(k, v). (k, stringify v)) (filter (\<lambda>(k, v). defined v) fs))) @ ''}''"

text \<open>Indented text, as \<open>JSON.stringify(v, null, 2)\<close> gives, \<open>n\<close> levels deep.\<close>

definition indent :: "nat \<Rightarrow> string" where
  "indent n = newline @ replicate (2 * n) CHR '' ''"

definition block :: "nat \<Rightarrow> string \<Rightarrow> string list \<Rightarrow> string \<Rightarrow> string" where
  "block n l items r =
     (if items = [] then l @ r
      else l @ indent (Suc n) @ join ('','' @ indent (Suc n)) items @ indent n @ r)"

fun pretty :: "nat \<Rightarrow> json \<Rightarrow> string" where
  "pretty n (JArr vs) = block n ''['' (map (pretty (Suc n)) vs) '']''"
| "pretty n (JObj fs) =
     block n ''{'' (map (\<lambda>(k, t). json_str k @ '': '' @ t)
       (map (\<lambda>(k, v). (k, pretty (Suc n) v)) (filter (\<lambda>(k, v). defined v) fs))) ''}''"
| "pretty n v = stringify v"

definition serializeJson :: "json \<Rightarrow> string" where
  "serializeJson v = pretty 0 v @ newline"

text \<open>Lookup in an object, and assignment to a field.\<close>

definition field :: "json \<Rightarrow> string \<Rightarrow> json" where
  "field v k = (case v of JObj fs \<Rightarrow> (case map_of fs k of Some x \<Rightarrow> x | None \<Rightarrow> JUndefined) | _ \<Rightarrow> JUndefined)"

text \<open>
  The order of an object's own keys: array indices ascending, then the others as inserted.
\<close>

definition array_index :: "string \<Rightarrow> nat option" where
  "array_index k =
     (if list_all is_digit k \<and> k = nat_str (digits_val k) \<and> digits_val k < 4294967295
      then Some (digits_val k) else None)"

definition own_order :: "(string \<times> 'a) list \<Rightarrow> (string \<times> 'a) list" where
  "own_order fs =
     sort_key (\<lambda>(k, _). the (array_index k)) (filter (\<lambda>(k, _). array_index k \<noteq> None) fs) @
     filter (\<lambda>(k, _). array_index k = None) fs"

lemma mset_own_order: "mset (own_order fs) = mset fs"
proof -
  have "mset (own_order fs) =
      filter_mset (\<lambda>(k, _). array_index k \<noteq> None) (mset fs) + filter_mset (\<lambda>(k, _). array_index k = None) (mset fs)"
    by (simp add: own_order_def)
  also have "(\<lambda>(k, _). array_index k = None) = (\<lambda>x. \<not> (case x of (k, _) \<Rightarrow> array_index k \<noteq> None))"
    by auto
  finally show ?thesis by (metis multiset_partition)
qed

lemma set_own_order [simp]: "set (own_order fs) = set fs"
  using mset_own_order [of fs] by (metis set_mset_mset)

lemma json_str_inject_quote: "hd (json_str s) = CHR 0x22" "last (json_str s) = CHR 0x22"
  by (simp_all add: json_str_def)

lemma serializeJson_last: "last (serializeJson v) = CHR 0x0A"
  by (simp add: serializeJson_def newline_def)

end
