(* ===== verification/Base64.thy ===== *)
theory Base64
  imports Prelude
begin

text \<open>
  \<open>buf.toString('base64')\<close> and \<open>Buffer.from(s, 'base64')\<close>. The decoder skips every character
  outside the alphabet and drops an incomplete last group, as Node's does. The laws: decoding
  an encoding gives the bytes back, with or without its padding, so a text is canonical
  exactly when it is what its own decoding encodes to.
\<close>

definition b64_char :: "nat \<Rightarrow> char" where
  "b64_char v =
     char_of (if v < 26 then 65 + v else if v < 52 then 71 + v else if v < 62 then v - 4
       else if v = 62 then 43 else 47)"

definition b64_val :: "char \<Rightarrow> nat option" where
  "b64_val c =
     (let n = (of_char c :: nat) in
      if 65 \<le> n \<and> n \<le> 90 then Some (n - 65)
      else if 97 \<le> n \<and> n \<le> 122 then Some (n - 71)
      else if 48 \<le> n \<and> n \<le> 57 then Some (n + 4)
      else if n = 43 then Some 62
      else if n = 47 then Some 63
      else None)"

text \<open>Bytes to 6-bit values and back, a group of three bytes at a time.\<close>

fun enc6 :: "nat list \<Rightarrow> nat list" where
  "enc6 [] = []"
| "enc6 [a] = [a div 4, (a mod 4) * 16]"
| "enc6 [a, b] = [a div 4, (a mod 4) * 16 + b div 16, (b mod 16) * 4]"
| "enc6 (a # b # c # r) =
     a div 4 # ((a mod 4) * 16 + b div 16) # ((b mod 16) * 4 + c div 64) # c mod 64 # enc6 r"

fun dec6 :: "nat list \<Rightarrow> nat list" where
  "dec6 [] = []"
| "dec6 [x] = []"
| "dec6 [x, y] = [x * 4 + y div 16]"
| "dec6 [x, y, z] = [x * 4 + y div 16, (y mod 16) * 16 + z div 4]"
| "dec6 (x # y # z # w # r) = (x * 4 + y div 16) # ((y mod 16) * 16 + z div 4) # ((z mod 4) * 64 + w) # dec6 r"

definition pad :: "nat \<Rightarrow> string" where
  "pad n = (if n mod 3 = 1 then ''=='' else if n mod 3 = 2 then ''='' else [])"

definition base64_encode :: "bytes \<Rightarrow> string" where
  "base64_encode bs = map b64_char (enc6 (map unat bs)) @ pad (length bs)"

definition base64_decode :: "string \<Rightarrow> bytes" where
  "base64_decode s = map word_of_nat (dec6 (List.map_filter b64_val s))"

text \<open>\<open>s.replace(/=+$/, '')\<close>.\<close>

definition strip_padding :: "string \<Rightarrow> string" where
  "strip_padding s = rev (dropWhile (\<lambda>c. c = CHR ''='') (rev s))"

lemma b64_val_char [simp]: "v < 64 \<Longrightarrow> b64_val (b64_char v) = Some v"
  by (auto simp: b64_val_def b64_char_def Let_def)

lemma b64_char_not_pad [simp]: "v < 64 \<Longrightarrow> b64_char v \<noteq> CHR ''=''"
proof
  assume "v < 64" and *: "b64_char v = CHR ''=''"
  have "b64_val (CHR ''='') = None" by (simp add: b64_val_def)
  then show False using b64_val_char [OF \<open>v < 64\<close>] * by simp
qed

lemma enc6_less: "list_all (\<lambda>b. b < 256) bs \<Longrightarrow> list_all (\<lambda>v. v < 64) (enc6 bs)"
  by (induction bs rule: enc6.induct) auto

lemma dec6_enc6: "list_all (\<lambda>b. b < 256) bs \<Longrightarrow> dec6 (enc6 bs) = bs"
proof (induction bs rule: enc6.induct)
  case (4 a b c r)
  have "(a mod 4 * 16 + b div 16) div 16 = a mod 4" "(a mod 4 * 16 + b div 16) mod 16 = b div 16"
    "(b mod 16 * 4 + c div 64) div 4 = b mod 16" "(b mod 16 * 4 + c div 64) mod 4 = c div 64"
    using 4(2) by auto
  moreover have "a div 4 * 4 + a mod 4 = a" "b div 16 * 16 + b mod 16 = b" "c div 64 * 64 + c mod 64 = c"
    by (simp_all add: div_mult_mod_eq)
  ultimately show ?case using 4 by simp
next
  case (3 a b)
  have "(a mod 4 * 16 + b div 16) div 16 = a mod 4" "(a mod 4 * 16 + b div 16) mod 16 = b div 16"
    using 3 by auto
  then show ?case by (simp add: div_mult_mod_eq)
qed (simp_all add: div_mult_mod_eq)

lemma bytes_small: "list_all (\<lambda>b. b < 256) (map unat (bs :: bytes))"
  using unat8 by (auto simp: list_all_iff)

lemma map_filter_b64: "list_all (\<lambda>v. v < 64) vs \<Longrightarrow> List.map_filter b64_val (map b64_char vs) = vs"
  by (induction vs) (simp_all add: List.map_filter_def)

lemma decode_encode_pad:
  assumes "set p \<subseteq> {CHR ''=''}"
  shows "base64_decode (map b64_char (enc6 (map unat bs)) @ p) = bs"
proof -
  have "b64_val (CHR ''='') = None" by (simp add: b64_val_def)
  then have "List.map_filter b64_val p = []"
    using assms by (induction p) (auto simp: List.map_filter_def)
  moreover have "List.map_filter b64_val (map b64_char (enc6 (map unat bs)) @ p) =
      List.map_filter b64_val (map b64_char (enc6 (map unat bs))) @ List.map_filter b64_val p"
    by (simp add: List.map_filter_def)
  ultimately show ?thesis
    using map_filter_b64 [OF enc6_less [OF bytes_small]] dec6_enc6 [OF bytes_small, of bs]
    by (simp add: base64_decode_def o_def)
qed

lemma pad_chars: "set (pad n) \<subseteq> {CHR ''=''}"
  by (auto simp: pad_def)

lemma base64_roundtrip: "base64_decode (base64_encode bs) = bs"
  by (simp add: base64_encode_def decode_encode_pad [OF pad_chars])

lemma strip_padding_append:
  assumes "set p \<subseteq> {CHR ''=''}" and "CHR ''='' \<notin> set s"
  shows "strip_padding (s @ p) = s"
proof -
  have "dropWhile (\<lambda>c. c = CHR ''='') (rev p @ rev s) = dropWhile (\<lambda>c. c = CHR ''='') (rev s)"
    by (rule dropWhile_append2) (use assms(1) in auto)
  also have "\<dots> = rev s" using assms(2) by (cases "rev s") (auto simp: dropWhile_eq_self_iff)
  finally show ?thesis by (simp add: strip_padding_def)
qed

lemma encode_no_pad: "CHR ''='' \<notin> set (map b64_char (enc6 (map unat (bs :: bytes))))"
proof -
  have "b64_char v \<noteq> CHR ''=''" if "v \<in> set (enc6 (map unat bs))" for v
    using enc6_less [OF bytes_small, of bs] that b64_char_not_pad by (auto simp: list_all_iff)
  then show ?thesis by (metis (no_types, lifting) image_iff list.set_map)
qed

lemma strip_encode: "strip_padding (base64_encode bs) = map b64_char (enc6 (map unat bs))"
  unfolding base64_encode_def by (rule strip_padding_append [OF pad_chars encode_no_pad])

text \<open>What is left of a text after its padding is its padding.\<close>

lemma strip_padding_split: "\<exists>p. s = strip_padding s @ p \<and> set p \<subseteq> {CHR ''=''}"
proof -
  have "s = rev (takeWhile (\<lambda>c. c = CHR ''='') (rev s) @ dropWhile (\<lambda>c. c = CHR ''='') (rev s))"
    by simp
  then have "s = strip_padding s @ rev (takeWhile (\<lambda>c. c = CHR ''='') (rev s))"
    by (simp add: strip_padding_def flip: rev_append)
  moreover have "set (rev (takeWhile (\<lambda>c. c = CHR ''='') (rev s))) \<subseteq> {CHR ''=''}"
    by (auto dest: set_takeWhileD)
  ultimately show ?thesis by blast
qed

lemma decode_canonical:
  assumes "strip_padding s = strip_padding (base64_encode bs)"
  shows "base64_decode s = bs"
proof -
  obtain p where "s = strip_padding s @ p" "set p \<subseteq> {CHR ''=''}" using strip_padding_split by blast
  then show ?thesis using decode_encode_pad [of p bs] assms by (simp add: strip_encode)
qed

lemma base64_inject: "base64_encode bs = base64_encode cs \<longleftrightarrow> bs = cs"
  by (metis base64_roundtrip)

end
