(* ===== verification/Http_Base.thy ===== *)
theory Http_Base
  imports Endpoint_Chain Js_Uri Json Base64 Proxy_Protocol
begin

text \<open>
  Requests, responses and handlers of the HTTP side. A handler is a function from a request to
  the list of operations it performs on the response, \<open>exec\<close> is what Node does for each of
  them (with its checks of status codes and headers), and \<open>run_ops\<close> performs a list up to the
  first exception. Text outside ASCII is held in its UTF-8 encoding.
\<close>

section \<open>Requests\<close>

text \<open>
  A ClientHello as \<open>read-tls-client-hello\<close> parses it; the contents of an extension are a JSON
  object or null.
\<close>

record client_hello =
  hello_version :: nat
  hello_random :: bytes
  hello_sessionId :: bytes
  hello_cipherSuites :: "nat list"
  hello_compressionMethods :: "nat list"
  hello_extensions :: "(nat \<times> json) list"
  hello_serverName :: "string option"
  ja3 :: string
  ja4 :: string

text \<open>
  What \<open>/echo\<close> reads of an HTTP/2 session: the stream id, the frames captured before the
  callback is added, and those that arrive after it until the request ends.
\<close>

record h2_capture =
  requestStreamId :: "nat option"
  globalFramesSeen :: "bytes list"
  streamFramesSeen :: "bytes list"
  laterFrames :: "bytes list"

record request =
  req_method :: string
  req_url :: string
  is_h2 :: bool
  over_tls :: bool
  req_headers :: "(string \<times> string) list"
  req_body :: bytes
  rawTrailers :: "string list"
  clientHello :: "client_hello option"
  remoteAddress :: "string option"
  proxySource :: "string option"
  receivedData :: "bytes list option"
  pipelining :: bool
  capture_info :: "h2_capture option"

text \<open>\<open>req.headers[name]\<close>; an empty value is falsy.\<close>

definition header :: "request \<Rightarrow> string \<Rightarrow> string option" where
  "header r name = map_of (req_headers r) name"

definition header_set :: "request \<Rightarrow> string \<Rightarrow> bool" where
  "header_set r name \<longleftrightarrow> present (header r name)"

text \<open>
  \<open>req.socket instanceof TLSSocket\<close>: over HTTP/2 the socket is a \<open>JSStreamSocket\<close> around the
  capturing stream, so this is false there even over TLS.
\<close>

definition socket_is_tls :: "request \<Rightarrow> bool" where
  "socket_is_tls r \<longleftrightarrow> over_tls r \<and> \<not> is_h2 r"

text \<open>\<open>getClientHello\<close>: on the TLS socket, or on the capturing stream for HTTP/2.\<close>

definition getClientHello :: "request \<Rightarrow> client_hello option" where
  "getClientHello r =
     (if socket_is_tls r then clientHello r
      else if is_h2 r then clientHello r
      else None)"

text \<open>\<open>req.url.split('?')[0]\<close>.\<close>

definition url_path :: "request \<Rightarrow> string" where
  "url_path r = hd (split_seq ''?'' (req_url r))"

text \<open>\<open>req.headers[':authority'] || req.headers.host\<close>, printed into a template.\<close>

definition host_header :: "request \<Rightarrow> string" where
  "host_header r =
     (case (if header_set r '':authority'' then header r '':authority'' else header r ''host'') of
        Some h \<Rightarrow> h | None \<Rightarrow> ''undefined'')"

section \<open>Responses\<close>

datatype body = Text string | Raw bytes

type_synonym headers = "(string \<times> string) list"

datatype op =
    WriteHead "int option" headers
  | SetHeader string "string list"
  | Write body
  | End "body option"
  | InformRaw string
  | InformH2 int headers
  | AddTrailers headers
  | Delay num
  | SocketEnd
  | SocketReset
  | Throw js_exn

record response =
  res_head :: "(int \<times> headers) option"
  res_set :: headers
  res_info :: "string list"
  res_body :: "body list"
  res_trailers :: headers
  res_waits :: "num list"
  writableEnded :: bool
  socketClosed :: bool

definition new_response :: response where
  "new_response =
     \<lparr>res_head = None, res_set = [], res_info = [], res_body = [], res_trailers = [],
      res_waits = [], writableEnded = False, socketClosed = False\<rparr>"

text \<open>\<open>code | 0\<close>: the low 32 bits as a signed number; \<open>NaN\<close> gives 0.\<close>

definition to_int32 :: "int option \<Rightarrow> int" where
  "to_int32 v = (case v of None \<Rightarrow> 0 | Some n \<Rightarrow> sint (word_of_int n :: 32 word))"

text \<open>HTTP/1 accepts 100 to 999; HTTP/2 accepts no informational code and nothing above 599.\<close>

definition status_ok :: "bool \<Rightarrow> int \<Rightarrow> bool" where
  "status_ok h2 code \<longleftrightarrow> (if h2 then 200 \<le> code \<and> code \<le> 599 else 100 \<le> code \<and> code \<le> 999)"

definition is_token_char :: "char \<Rightarrow> bool" where
  "is_token_char c \<longleftrightarrow>
     (let n = (of_char c :: nat) in
      48 \<le> n \<and> n \<le> 57 \<or> 65 \<le> n \<and> n \<le> 90 \<or> 94 \<le> n \<and> n \<le> 122 \<or>
      n \<in> {33, 35, 36, 37, 38, 39, 42, 43, 45, 46, 124, 126})"

definition valid_header_name :: "string \<Rightarrow> bool" where
  "valid_header_name s \<longleftrightarrow> s \<noteq> [] \<and> list_all is_token_char s"

text \<open>
  Header values are tab, printable ASCII and U+0080 to U+00FF; in UTF-8 that excludes lead
  bytes above C3.
\<close>

definition valid_header_value :: "string \<Rightarrow> bool" where
  "valid_header_value s \<longleftrightarrow>
     list_all (\<lambda>c. let n = (of_char c :: nat) in n = 9 \<or> 32 \<le> n \<and> n \<le> 126 \<or> 128 \<le> n \<and> n \<le> 195) s"

definition valid_headers :: "headers \<Rightarrow> bool" where
  "valid_headers hs \<longleftrightarrow> list_all (\<lambda>(k, v). valid_header_name k \<and> valid_header_value v) hs"

text \<open>What Node lets a response have: over HTTP/2 it checks the names but not the text of the values.\<close>

definition sendable_headers :: "bool \<Rightarrow> headers \<Rightarrow> bool" where
  "sendable_headers h2 hs \<longleftrightarrow> list_all (\<lambda>(k, v). valid_header_name k \<and> (h2 \<or> valid_header_value v)) hs"

lemma sendable_valid [simp]: "valid_headers hs \<Longrightarrow> sendable_headers h2 hs"
  by (auto simp: sendable_headers_def valid_headers_def list_all_iff)

lemma sendable_Nil [simp]: "sendable_headers h2 []"
  by (simp add: sendable_headers_def)

text \<open>\<open>setHeader\<close> replaces what was set under the same name, ignoring case.\<close>

definition set_header :: "string \<Rightarrow> string list \<Rightarrow> headers \<Rightarrow> headers" where
  "set_header k vs hs = filter (\<lambda>(k', _). to_lower k' \<noteq> to_lower k) hs @ map (\<lambda>v. (k, v)) vs"

definition write_head :: "bool \<Rightarrow> int option \<Rightarrow> headers \<Rightarrow> response \<Rightarrow> js_exn option \<times> response" where
  "write_head h2 code hs res =
     (if res_head res \<noteq> None then (Some (JsError ''ERR_HTTP_HEADERS_SENT''), res)
      else if \<not> status_ok h2 (to_int32 code) then (Some (JsError ''ERR_HTTP_INVALID_STATUS_CODE''), res)
      else if \<not> sendable_headers h2 hs then (Some (JsError ''ERR_INVALID_CHAR''), res)
      else
        (None, res\<lparr>res_head := Some (to_int32 code,
          filter (\<lambda>(k, _). \<not> list_ex (\<lambda>(k', _). to_lower k' = to_lower k) hs) (res_set res) @ hs)\<rparr>))"

text \<open>A body written first implies the head \<open>200\<close>; what follows the end is dropped.\<close>

definition implicit_head :: "response \<Rightarrow> response" where
  "implicit_head res = (if res_head res = None then res\<lparr>res_head := Some (200, res_set res)\<rparr> else res)"

fun exec :: "bool \<Rightarrow> op \<Rightarrow> response \<Rightarrow> js_exn option \<times> response" where
  "exec h2 (WriteHead code hs) res = write_head h2 code hs res"
| "exec h2 (SetHeader k vs) res =
     (if res_head res \<noteq> None then (Some (JsError ''ERR_HTTP_HEADERS_SENT''), res)
      else if \<not> sendable_headers h2 (map (\<lambda>v. (k, v)) vs) \<or> \<not> valid_header_name k
      then (Some (JsError ''ERR_INVALID_CHAR''), res)
      else (None, res\<lparr>res_set := set_header k vs (res_set res)\<rparr>))"
| "exec h2 (Write b) res =
     (if writableEnded res then (None, res)
      else (None, (implicit_head res)\<lparr>res_body := res_body res @ [b]\<rparr>))"
| "exec h2 (End b) res =
     (if writableEnded res then (None, res)
      else (None, (implicit_head res)
        \<lparr>res_body := res_body res @ (case b of None \<Rightarrow> [] | Some x \<Rightarrow> [x]), writableEnded := True\<rparr>))"
| "exec h2 (InformRaw raw) res = (None, res\<lparr>res_info := res_info res @ [raw]\<rparr>)"
| "exec h2 (InformH2 code hs) res =
     (if res_head res \<noteq> None then (Some (JsError ''ERR_HTTP2_HEADERS_AFTER_RESPOND''), res)
      else (None, res\<lparr>res_info := res_info res @ [int_str code]\<rparr>))"
| "exec h2 (AddTrailers hs) res =
     (if \<not> sendable_headers h2 hs then (Some (JsError ''ERR_INVALID_CHAR''), res)
      else (None, res\<lparr>res_trailers := res_trailers res @ hs\<rparr>))"
| "exec h2 (Delay ms) res = (None, res\<lparr>res_waits := res_waits res @ [ms]\<rparr>)"
| "exec h2 SocketEnd res = (None, res\<lparr>socketClosed := True\<rparr>)"
| "exec h2 SocketReset res = (None, res\<lparr>socketClosed := True\<rparr>)"
| "exec h2 (Throw e) res = (Some e, res)"

fun run_ops :: "bool \<Rightarrow> op list \<Rightarrow> response \<Rightarrow> js_exn option \<times> response" where
  "run_ops h2 [] res = (None, res)"
| "run_ops h2 (p # ps) res =
     (case exec h2 p res of
        (Some e, res') \<Rightarrow> (Some e, res')
      | (None, res') \<Rightarrow> run_ops h2 ps res')"

section \<open>Services outside the program\<close>

text \<open>
  Node's crypto and compression, random values, the URL parser and the packages the handlers
  call. \<open>newURL url base\<close> is \<open>new URL(url, base)\<close> (without a base when it is empty),
  \<open>certDownload name\<close> the outcome of the certificate provider registered for a name, and
  \<open>https_href url base host\<close> the text of the URL with its protocol set to \<open>https:\<close> and its host
  replaced if one is given.
\<close>

record multipart_part =
  part_name :: "string option"
  part_type :: "string option"
  part_data :: bytes

record services =
  sha256 :: "string \<Rightarrow> bytes"
  randomBytes :: "nat \<Rightarrow> bytes"
  randomUUID :: string
  compress :: "string \<Rightarrow> string \<Rightarrow> bytes"
  newURL :: "string \<Rightarrow> string \<Rightarrow> url option"
  url_toString :: "string \<Rightarrow> string \<Rightarrow> string"
  json_parse :: "string \<Rightarrow> json option"
  querystring_parse :: "string \<Rightarrow> json"
  multipart_parse :: "bytes \<Rightarrow> string \<Rightarrow> multipart_part list"
  cookie_parse :: "string \<Rightarrow> (string \<times> string) list"
  cookie_serialize :: "string \<Rightarrow> string \<Rightarrow> string fallible"
  STATUS_CODES :: "int \<Rightarrow> string option"
  hello_names :: "string \<Rightarrow> nat \<Rightarrow> string option"
  utf8_demo :: string
  versionHash :: string
  certDownload :: "string \<Rightarrow> string fallible option"
  https_href :: "string \<Rightarrow> string \<Rightarrow> string option \<Rightarrow> string"
  docs_html :: string

type_synonym http_handler = "services \<Rightarrow> request \<Rightarrow> string \<Rightarrow> query \<Rightarrow> op list"

record http_endpoint = "http_handler endpoint" +
  needsRawData :: bool

text \<open>The usual answer: a status, a content type and a JSON text.\<close>

definition json_headers :: headers where
  "json_headers = [(''content-type'', ''application/json'')]"

definition respond_json :: "json \<Rightarrow> op list" where
  "respond_json v = [WriteHead (Some 200) json_headers, End (Some (Text (serializeJson v)))]"

lemma run_ops_append:
  "run_ops h2 (ps @ qs) res =
     (case run_ops h2 ps res of (Some e, res') \<Rightarrow> (Some e, res') | (None, res') \<Rightarrow> run_ops h2 qs res')"
  by (induction h2 ps res rule: run_ops.induct) (auto split: prod.splits option.splits)

lemma to_int32_small [simp]: "- 2147483648 \<le> n \<Longrightarrow> n < 2147483648 \<Longrightarrow> to_int32 (Some n) = n"
  by (simp add: to_int32_def sint_sbintrunc' signed_take_bit_int_eq_self)

lemma json_headers_valid [simp]: "valid_headers json_headers"
  by code_simp

lemma respond_json_run [simp]:
  "run_ops h2 (respond_json v) new_response =
    (None, new_response\<lparr>res_head := Some (200, json_headers), res_body := [Text (serializeJson v)], writableEnded := True\<rparr>)"
  by (simp add: respond_json_def write_head_def new_response_def status_ok_def implicit_head_def)

section \<open>A request and services to evaluate handlers on\<close>

definition sample_services :: services where
  "sample_services =
    \<lparr>sha256 = (\<lambda>s. replicate 32 (of_nat (length s))), randomBytes = (\<lambda>n. replicate n 7),
     randomUUID = ''6f3a1c9e-0000-4000-8000-000000000000'', compress = (\<lambda>_ s. map of_char s),
     newURL = (\<lambda>u base. Some \<lparr>pathname = hd (split_seq ''?'' u), hostname = ''localhost'', searchParams = []\<rparr>),
     url_toString = (\<lambda>u base. base @ u), json_parse = (\<lambda>s. None), querystring_parse = (\<lambda>s. JObj []),
     multipart_parse = (\<lambda>_ _. []), cookie_parse = (\<lambda>_. []), cookie_serialize = (\<lambda>k v. Inr (k @ ''='' @ v)),
     STATUS_CODES = (\<lambda>c. if c = 404 then Some ''Not Found'' else None), hello_names = (\<lambda>_ _. None),
     utf8_demo = ''demo'', versionHash = ''v1'', certDownload = (\<lambda>_. None),
     https_href = (\<lambda>u base h. ''https://localhost'' @ u), docs_html = ''docs''\<rparr>"

definition sample_request :: "string \<Rightarrow> (string \<times> string) list \<Rightarrow> request" where
  "sample_request url hs =
    \<lparr>req_method = ''GET'', req_url = url, is_h2 = False, over_tls = False,
     req_headers = (''host'', ''localhost'') # hs, req_body = [], rawTrailers = [], clientHello = None,
     remoteAddress = Some ''127.0.0.1'', proxySource = None, request.receivedData = Some [],
     request.pipelining = False, capture_info = None\<rparr>"

end
