(* ===== verification/Httpbin_Compat.thy ===== *)
theory Httpbin_Compat
  imports Http_Base "HOL-Library.List_Lexorder" "HOL-Library.Char_ord"
begin

text \<open>
  \<^verbatim>\<open>src/httpbin-compat.ts\<close>: the JSON description of a request that most inspection
  endpoints answer with. Modelled on every branch, with the parsers of bodies and URLs as
  services. An argument named \<open>__proto__\<close> is taken as an ordinary name.
\<close>

section \<open>Helpers\<close>

text \<open>
  \<open>asJsonSafeString\<close>: the text when the bytes are UTF-8 (a leading byte order mark is dropped
  by the decoder), otherwise a data URL.
\<close>

definition utf8_decode :: "bytes \<Rightarrow> string option" where
  "utf8_decode data =
     (if valid_utf8 (map unat data) then
        Some (map char_of_byte (map unat (if starts_with data [0xEF, 0xBB, 0xBF] then drop 3 data else data)))
      else None)"

definition asJsonSafeString :: "bytes \<Rightarrow> string option \<Rightarrow> string" where
  "asJsonSafeString data contentType =
     (case utf8_decode data of
        Some s \<Rightarrow> s
      | None \<Rightarrow>
          ''data:'' @ (case contentType of Some t \<Rightarrow> t | None \<Rightarrow> ''application/octet-stream'') @
          '';base64,'' @ base64_encode data)"

text \<open>
  \<open>entriesToMultidict\<close> builds a plain object, so a name of \<open>Object.prototype\<close> is found before
  it is ever set: the inherited function becomes the first element of the array.
\<close>

definition inherited_names :: "string list" where
  "inherited_names =
     [''constructor'', ''hasOwnProperty'', ''isPrototypeOf'', ''propertyIsEnumerable'', ''toLocaleString'',
      ''toString'', ''valueOf'', ''__defineGetter__'', ''__defineSetter__'', ''__lookupGetter__'', ''__lookupSetter__'']"

definition add_entry :: "(string \<times> json) list \<Rightarrow> string \<times> string \<Rightarrow> (string \<times> json) list" where
  "add_entry result e =
     (case e of (k, v) \<Rightarrow>
        (case map_of result k of
           None \<Rightarrow> AList.update k (if k \<in> set inherited_names then JArr [JNull, JStr v] else JStr v) result
         | Some (JArr vs) \<Rightarrow> AList.update k (JArr (vs @ [JStr v])) result
         | Some x \<Rightarrow> AList.update k (JArr [x, JStr v]) result))"

definition entriesToMultidict :: "(string \<times> string) list \<Rightarrow> json" where
  "entriesToMultidict entries = JObj (own_order (foldl add_entry [] entries))"

definition getUrlArgs :: "url \<Rightarrow> json" where
  "getUrlArgs u = entriesToMultidict (searchParams u)"

text \<open>\<open>contentType.match(/;\s*boundary=(\S+)/)\<close>: the first \<open>;\<close> from which the rest matches.\<close>

fun match_boundary :: "string \<Rightarrow> string option" where
  "match_boundary [] = None"
| "match_boundary (c # s) =
     (let r = trim_start s; b = takeWhile (\<lambda>d. \<not> is_js_space d) (drop 9 r) in
      if c = CHR '';'' \<and> starts_with r ''boundary='' \<and> b \<noteq> [] then Some b
      else match_boundary s)"

definition getFiles :: "services \<Rightarrow> bytes \<Rightarrow> request \<Rightarrow> json" where
  "getFiles sv bdy r =
     (case header r ''content-type'' of
        None \<Rightarrow> JObj []
      | Some contentType \<Rightarrow>
          if \<not> includes_sub contentType ''multipart/form-data'' then JObj []
          else case match_boundary contentType of
            None \<Rightarrow> JObj []
          | Some boundary \<Rightarrow>
              entriesToMultidict (map (\<lambda>p.
                (case part_name p of Some n \<Rightarrow> n | None \<Rightarrow> [], asJsonSafeString (part_data p) (part_type p)))
                (multipart_parse sv bdy boundary)))"

text \<open>
  \<open>kp[0].toUpperCase() + kp.slice(1)\<close> of each part: an empty part has no first character, so
  a header name with two dashes in a row is an exception.
\<close>

fun capitalize_part :: "string \<Rightarrow> string fallible" where
  "capitalize_part [] = Inl (JsError ''Cannot read properties of undefined'')"
| "capitalize_part (c # s) = Inr (upper_char c # s)"

fun map_fallible :: "('a \<Rightarrow> 'b fallible) \<Rightarrow> 'a list \<Rightarrow> 'b list fallible" where
  "map_fallible f [] = Inr []"
| "map_fallible f (x # xs) =
     (case f x of Inl e \<Rightarrow> Inl e
      | Inr y \<Rightarrow> (case map_fallible f xs of Inl e \<Rightarrow> Inl e | Inr ys \<Rightarrow> Inr (y # ys)))"

definition capitalize_name :: "string \<Rightarrow> string fallible" where
  "capitalize_name k = map_sum id (join ''-'') (map_fallible capitalize_part (split_seq ''-'' k))"

definition header_entry :: "string \<times> string \<Rightarrow> (string \<times> string) fallible" where
  "header_entry e = map_sum id (\<lambda>k. (k, snd e)) (capitalize_name (fst e))"

definition capitalized_headers :: "request \<Rightarrow> json fallible" where
  "capitalized_headers r =
     map_sum id (\<lambda>es. JObj (own_order (map (\<lambda>(k, v). (k, JStr v))
       (sort_key (\<lambda>(k, v). k @ '','' @ v) es))))
       (map_fallible header_entry (own_order (req_headers r)))"

definition strip_v4_wrapper :: "string \<Rightarrow> string" where
  "strip_v4_wrapper s = (if starts_with s ''::ffff:'' then drop 7 s else s)"

definition opt_json :: "string option \<Rightarrow> json" where
  "opt_json v = (case v of None \<Rightarrow> JUndefined | Some s \<Rightarrow> JStr s)"

text \<open>\<open>getConnectionSocket\<close> finds the socket, or the capturing stream, that carries both.\<close>

definition request_origin :: "request \<Rightarrow> json" where
  "request_origin r =
     opt_json (map_option strip_v4_wrapper
       (case proxySource r of Some a \<Rightarrow> Some a | None \<Rightarrow> remoteAddress r))"

section \<open>The description of a request\<close>

definition request_base :: "request \<Rightarrow> string" where
  "request_base r = (if socket_is_tls r then ''https'' else ''http'') @ ''://'' @ host_header r"

definition utf8_text_of :: "bytes \<Rightarrow> string" where
  "utf8_text_of bs = map char_of_byte (map unat bs)"

definition full_description :: "services \<Rightarrow> request \<Rightarrow> (string \<times> json) list fallible" where
  "full_description sv r =
     (case newURL sv (req_url r) (request_base r) of
        None \<Rightarrow> Inl (JsError ''Invalid URL'')
      | Some u \<Rightarrow>
          (case capitalized_headers r of
             Inl e \<Rightarrow> Inl e
           | Inr hs \<Rightarrow>
               Inr [(''args'', getUrlArgs u),
                    (''data'', JStr (asJsonSafeString (req_body r) (header r ''content-type''))),
                    (''files'', getFiles sv (req_body r) r),
                    (''form'',
                      (case header r ''content-type'' of
                         Some t \<Rightarrow> if starts_with t ''application/x-www-form-urlencoded''
                                  then querystring_parse sv (utf8_text_of (req_body r)) else JObj []
                       | None \<Rightarrow> JObj [])),
                    (''headers'', hs),
                    (''json'', (case json_parse sv (utf8_text_of (req_body r)) of Some v \<Rightarrow> v | None \<Rightarrow> JNull)),
                    (''method'', JStr (req_method r)),
                    (''origin'', request_origin r),
                    (''url'', JStr (url_toString sv (req_url r) (request_base r)))]))"

text \<open>\<open>_.pick\<close> takes the fields in the order of the filter.\<close>

definition pick :: "string list option \<Rightarrow> (string \<times> json) list \<Rightarrow> json" where
  "pick fieldFilter fs =
     (case fieldFilter of
        None \<Rightarrow> JObj fs
      | Some names \<Rightarrow>
          JObj (List.map_filter (\<lambda>n. map_option (\<lambda>v. (n, v)) (map_of fs n)) names))"

definition buildHttpBinAnythingData :: "services \<Rightarrow> request \<Rightarrow> string list option \<Rightarrow> json fallible" where
  "buildHttpBinAnythingData sv r fieldFilter = map_sum id (pick fieldFilter) (full_description sv r)"

text \<open>Operations that need the description first: an exception ends the handler.\<close>

definition with_data :: "json fallible \<Rightarrow> (json \<Rightarrow> op list) \<Rightarrow> op list" where
  "with_data d k = (case d of Inl e \<Rightarrow> [Throw e] | Inr v \<Rightarrow> k v)"

definition buildHttpBinAnythingEndpoint :: "string list option \<Rightarrow> services \<Rightarrow> request \<Rightarrow> op list" where
  "buildHttpBinAnythingEndpoint fieldFilter sv r =
     with_data (buildHttpBinAnythingData sv r fieldFilter)
       (\<lambda>v. [WriteHead (Some 200) [(''Content-Type'', ''application/json'')], End (Some (Text (serializeJson v)))])"

end
