(* ===== verification/Http_Inspection.thy ===== *)
theory Http_Inspection
  imports Httpbin_Compat Frame_Capture Connection
begin

text \<open>
  The endpoints that report on the request and its connection, \<^verbatim>\<open>src/endpoints/http/\<close>
  \<open>echo.ts\<close>, \<open>anything.ts\<close>, \<open>ip.ts\<close>, \<open>headers.ts\<close>, \<open>methods.ts\<close>, \<open>user-agent.ts\<close>, \<open>trailers.ts\<close>,
  \<open>cookies.ts\<close>, \<open>tls-certs.ts\<close>, \<open>tls-client-hello.ts\<close> and \<open>tls-fingerprint.ts\<close>.
\<close>

section \<open>Echo\<close>

record parsed_frame =
  stream_id :: nat
  f_type :: string
  f_flags :: "string list"
  f_length :: nat
  payload_hex :: string

definition FRAME_TYPES :: "nat \<Rightarrow> string option" where
  "FRAME_TYPES t =
     map_of [(0x0, ''DATA''), (0x1, ''HEADERS''), (0x2, ''PRIORITY''), (0x3, ''RST_STREAM''),
       (0x4, ''SETTINGS''), (0x5, ''PUSH_PROMISE''), (0x6, ''PING''),
       (0x7, ''GOAWAY''), (0x8, ''WINDOW_UPDATE''), (0x9, ''CONTINUATION'')] t"

definition FRAME_FLAGS :: "nat \<Rightarrow> (byte \<times> string) list" where
  "FRAME_FLAGS t =
     (case map_of
       [(0x0, [(0x1, ''END_STREAM''), (0x8, ''PADDED'')]),
        (0x1, [(0x1, ''END_STREAM''), (0x4, ''END_HEADERS''), (0x8, ''PADDED''), (0x20, ''PRIORITY'')]),
        (0x4, [(0x1, ''ACK'')]),
        (0x5, [(0x4, ''END_HEADERS''), (0x8, ''PADDED'')]),
        (0x6, [(0x1, ''ACK'')]),
        (0x9, [(0x4, ''END_HEADERS'')])] t of
        Some defs \<Rightarrow> defs | None \<Rightarrow> [])"

text \<open>A captured frame has its nine header bytes.\<close>

definition frameToOutput :: "bytes \<Rightarrow> parsed_frame" where
  "frameToOutput frameBuffer =
     (let len = unat (be24 (frameBuffer ! 0) (frameBuffer ! 1) (frameBuffer ! 2));
          typeNum = unat (frameBuffer ! 3);
          flagsByte = frameBuffer ! 4;
          streamId = unat (be31 (frameBuffer ! 5) (frameBuffer ! 6) (frameBuffer ! 7) (frameBuffer ! 8))
      in
      \<lparr>stream_id = streamId,
       f_type = (case FRAME_TYPES typeNum of Some t \<Rightarrow> t | None \<Rightarrow> ''UNKNOWN_'' @ nat_str typeNum),
       f_flags = map snd (filter (\<lambda>(flagValue, flagName). and flagsByte flagValue \<noteq> 0) (FRAME_FLAGS typeNum)),
       f_length = len,
       payload_hex = hex_of_bytes (js_slice 9 (9 + len) frameBuffer)\<rparr>)"

definition json_headers_of :: "request \<Rightarrow> json" where
  "json_headers_of r = JObj (own_order (map (\<lambda>(k, v). (k, JStr v)) (req_headers r)))"

definition writeFrame :: "parsed_frame \<Rightarrow> request option \<Rightarrow> op" where
  "writeFrame f r =
     (let fields =
        [(''stream_id'', JNum (int (stream_id f))), (''type'', JStr (f_type f)),
         (''flags'', JArr (map JStr (f_flags f))), (''length'', JNum (int (f_length f))),
         (''payload_hex'', JStr (payload_hex f))];
        decoded =
          (case r of
             Some r' \<Rightarrow>
               if (f_type f = ''HEADERS'' \<or> f_type f = ''CONTINUATION'') \<and> ''END_HEADERS'' \<in> set (f_flags f)
               then [(''decoded_headers'', json_headers_of r')] else []
           | None \<Rightarrow> [])
      in Write (Text (stringify (JObj (fields @ decoded)) @ newline)))"

text \<open>The callback writes frames of the connection and of the request's own stream.\<close>

definition later_frame :: "request \<Rightarrow> nat \<Rightarrow> bytes \<Rightarrow> op list" where
  "later_frame r sid frameBuffer =
     (let frame = frameToOutput frameBuffer in
      if stream_id frame = 0 then [writeFrame frame None]
      else if stream_id frame = sid then [writeFrame frame (Some r)]
      else [])"

definition echo_handle :: http_handler where
  "echo_handle sv r path q =
     (if is_h2 r then
        (case capture_info r of
           None \<Rightarrow> [WriteHead (Some 500) [], End (Some (Text ''Echo endpoint requires data capturing stream''))]
         | Some c \<Rightarrow>
             (case requestStreamId c of
                None \<Rightarrow> [WriteHead (Some 500) [], End (Some (Text ''Could not determine stream ID''))]
              | Some sid \<Rightarrow>
                  [WriteHead (Some 200) [(''Content-Type'', ''text/plain'')]] @
                  map (\<lambda>f. writeFrame (frameToOutput f) None) (globalFramesSeen c) @
                  map (\<lambda>f. writeFrame (frameToOutput f) (Some r)) (streamFramesSeen c) @
                  concat (map (later_frame r sid) (laterFrames c)) @
                  [End None]))
      else if request.pipelining r then
        [WriteHead (Some 400) [],
         End (Some (Text (''Echo endpoint does not support request pipelining. Send requests sequentially '' @
           ''or use HTTP/2 multiplexing instead.'')))]
      else
        let rawData = concat (case request.receivedData r of Some ds \<Rightarrow> ds | None \<Rightarrow> []) in
        [WriteHead (Some 200) [(''Content-Length'', nat_str (length rawData))], End (Some (Raw rawData))])"

definition echo :: http_endpoint where
  "echo =
    \<lparr>ep_name = ''echo'',
     matchPath = (\<lambda>path h. Inr (path = ''/echo'')),
     getRemainingPath = (\<lambda>_. None),
     handle = echo_handle,
     ep_meta = Some \<lparr>m_path = ''/echo'',
       m_description = ''Echoes back the raw HTTP request data. For HTTP/2, returns parsed frame data as JSON lines.'',
       m_examples = [''/echo''], m_group = Some httpRequestInspection\<rparr>,
     needsRawData = True\<rparr>"

section \<open>The whole request and parts of it\<close>

definition anything :: http_endpoint where
  "anything =
    \<lparr>ep_name = ''anything'',
     matchPath = (\<lambda>path h. Inr (path = ''/anything'' \<or> starts_with path ''/anything/'')),
     getRemainingPath = (\<lambda>_. None),
     handle = (\<lambda>sv r path q. buildHttpBinAnythingEndpoint None sv r),
     ep_meta = Some \<lparr>m_path = ''/anything'',
       m_description = ''Returns JSON containing the parsed details of the request, including method, url, headers, args, data, files, form, and origin.'',
       m_examples = [''/anything'', ''/anything/subpath''], m_group = Some httpRequestInspection\<rparr>,
     needsRawData = False\<rparr>"

definition ip :: http_endpoint where
  "ip =
    \<lparr>ep_name = ''ip'',
     matchPath = (\<lambda>path h. Inr (path = ''/ip'')),
     getRemainingPath = (\<lambda>_. None),
     handle = (\<lambda>sv r path q. buildHttpBinAnythingEndpoint (Some [''origin'']) sv r),
     ep_meta = Some \<lparr>m_path = ''/ip'',
       m_description = (''Returns the client'' @ [CHR 0x27] @ ''s IP address.''),
       m_examples = [''/ip''], m_group = Some httpRequestInspection\<rparr>,
     needsRawData = False\<rparr>"

definition headers :: http_endpoint where
  "headers =
    \<lparr>ep_name = ''headers'',
     matchPath = (\<lambda>path h. Inr (path = ''/headers'')),
     getRemainingPath = (\<lambda>_. None),
     handle = (\<lambda>sv r path q. buildHttpBinAnythingEndpoint (Some [''headers'']) sv r),
     ep_meta = Some \<lparr>m_path = ''/headers'',
       m_description = ''Returns the request headers as JSON.'',
       m_examples = [''/headers''], m_group = Some httpRequestInspection\<rparr>,
     needsRawData = False\<rparr>"

definition nonGetMethods :: "string list" where
  "nonGetMethods = filter (\<lambda>m. m \<noteq> ''GET'') http_METHODS"

definition methodHandler :: http_handler where
  "methodHandler sv r path q =
     (let requiredMethod = to_upper (drop 1 path) in
      if requiredMethod \<noteq> req_method r
      then [WriteHead (Some 405) [], End (Some (Text ''Method Not Allowed''))]
      else
        let fields = (if requiredMethod = ''GET'' then [''url'', ''args'', ''headers'', ''origin'']
          else [''url'', ''args'', ''form'', ''data'', ''origin'', ''headers'', ''files'', ''json''])
        in buildHttpBinAnythingEndpoint (Some fields) sv r)"

definition getMethodEndpoint :: http_endpoint where
  "getMethodEndpoint =
    \<lparr>ep_name = ''getMethodEndpoint'',
     matchPath = (\<lambda>path h. Inr (to_upper (drop 1 path) = ''GET'')),
     getRemainingPath = (\<lambda>_. None),
     handle = methodHandler,
     ep_meta = None,
     needsRawData = False\<rparr>"

definition nonGetMethodEndpoint :: http_endpoint where
  "nonGetMethodEndpoint =
    \<lparr>ep_name = ''nonGetMethodEndpoint'',
     matchPath = (\<lambda>path h. Inr (to_upper (drop 1 path) \<in> set nonGetMethods)),
     getRemainingPath = (\<lambda>_. None),
     handle = methodHandler,
     ep_meta = Some \<lparr>m_path = ''/{method}'',
       m_description = ''Returns request info for the specified HTTP method. Returns 405 if the request method does not match the path.'',
       m_examples = [''/get'', ''/post'', ''/put'', ''/patch'', ''/delete''], m_group = Some httpRequestInspection\<rparr>,
     needsRawData = False\<rparr>"

definition userAgent :: http_endpoint where
  "userAgent =
    \<lparr>ep_name = ''userAgent'',
     matchPath = (\<lambda>path h. Inr (path = ''/user-agent'')),
     getRemainingPath = (\<lambda>_. None),
     handle = (\<lambda>sv r path q. respond_json
       (JObj [(''user-agent'', case header r ''user-agent'' of Some a \<Rightarrow> JStr a | None \<Rightarrow> JNull)])),
     ep_meta = Some \<lparr>m_path = ''/user-agent'',
       m_description = ''Returns the User-Agent header from the request.'',
       m_examples = [''/user-agent''], m_group = Some httpRequestInspection\<rparr>,
     needsRawData = False\<rparr>"

definition trailers_handle :: http_handler where
  "trailers_handle sv r path q =
     (let teHeader = (case header r ''te'' of Some t \<Rightarrow> t | None \<Rightarrow> []);
          willSendTrailers = ''trailers'' \<in> set (map trim (split_seq '','' teHeader))
      in
      [WriteHead (Some 200) [(''trailer'', ''example-trailer''), (''content-type'', ''application/json'')]] @
      (if willSendTrailers then [AddTrailers [(''example-trailer'', ''example value'')]] else []) @
      [End (Some (Text (serializeJson (JObj
        [(''received-trailers'', JArr (map JStr (rawTrailers r))),
         (''will-send-trailers'', JBool willSendTrailers)]))))])"

definition trailers :: http_endpoint where
  "trailers =
    \<lparr>ep_name = ''trailers'',
     matchPath = (\<lambda>path h. Inr (path = ''/trailers'')),
     getRemainingPath = (\<lambda>_. None),
     handle = trailers_handle,
     ep_meta = Some \<lparr>m_path = ''/trailers'',
       m_description = ''Tests HTTP trailers. Returns any received trailers and sends trailers back if the client indicated support via the TE header.'',
       m_examples = [''/trailers''], m_group = Some httpRequestInspection\<rparr>,
     needsRawData = False\<rparr>"

section \<open>Cookies\<close>

definition getCookies :: http_endpoint where
  "getCookies =
    \<lparr>ep_name = ''getCookies'',
     matchPath = (\<lambda>path h. Inr (path = ''/cookies'')),
     getRemainingPath = (\<lambda>_. None),
     handle = (\<lambda>sv r path q.
       let cookies = cookie_parse sv (case header r ''cookie'' of Some c \<Rightarrow> c | None \<Rightarrow> []) in
       [WriteHead (Some 200) [(''Content-Type'', ''application/json'')],
        End (Some (Text (serializeJson
          (JObj [(''cookies'', JObj (own_order (map (\<lambda>(k, v). (k, JStr v)) cookies)))]))))]),
     ep_meta = Some \<lparr>m_path = ''/cookies'',
       m_description = ''Returns the cookies sent with the request.'',
       m_examples = [''/cookies''], m_group = Some httpCookies\<rparr>,
     needsRawData = False\<rparr>"

definition setCookies_handle :: http_handler where
  "setCookies_handle sv r path q =
     (let cookiePath = drop 3 (split_seq ''/'' path);
          cookiesToSet =
            (if cookiePath \<noteq> [] then [(cookiePath ! 0, cookiePath ! 1)]
             else map (\<lambda>key. (key, the (query_get q key))) (query_keys q))
      in
      case map_fallible (\<lambda>(key, value). cookie_serialize sv key value) cookiesToSet of
        Inl e \<Rightarrow> [Throw e]
      | Inr cs \<Rightarrow>
          [WriteHead (Some 302) ((''Location'', ''/cookies'') # map (\<lambda>c. (''set-cookie'', c)) cs), End None])"

definition setCookies :: http_endpoint where
  "setCookies =
    \<lparr>ep_name = ''setCookies'',
     matchPath = (\<lambda>path h.
       Inr (path = ''/cookies/set'' \<or>
            starts_with path ''/cookies/set/'' \<and> length (split_seq ''/'' path) = 5)),
     getRemainingPath = (\<lambda>_. None),
     handle = setCookies_handle,
     ep_meta = Some \<lparr>m_path = ''/cookies/set'',
       m_description = ''Sets cookies via query parameters or path segments, then redirects to /cookies.'',
       m_examples = [''/cookies/set?name=value'', ''/cookies/set/name/value''], m_group = Some httpCookies\<rparr>,
     needsRawData = False\<rparr>"

definition deleteCookies :: http_endpoint where
  "deleteCookies =
    \<lparr>ep_name = ''deleteCookies'',
     matchPath = (\<lambda>path h. Inr (path = ''/cookies/delete'')),
     getRemainingPath = (\<lambda>_. None),
     handle = (\<lambda>sv r path q.
       [WriteHead (Some 302) ((''Location'', ''/cookies'') #
          map (\<lambda>key. (''set-cookie'', key @ ''=; Expires=Thu, 01-Jan-1970 00:00:00 GMT; Max-Age=0; Path=/''))
            (query_keys q)),
        End None]),
     ep_meta = Some \<lparr>m_path = ''/cookies/delete'',
       m_description = ''Deletes cookies specified in query parameters, then redirects to /cookies.'',
       m_examples = [''/cookies/delete?name''], m_group = Some httpCookies\<rparr>,
     needsRawData = False\<rparr>"

section \<open>TLS\<close>

definition CERT_PREFIX :: string where
  "CERT_PREFIX = ''/tls/certs/''"

definition CERT_NAMES :: "string list" where
  "CERT_NAMES = [''untrusted-root'', ''intermediate'', ''self-signed'', ''client-cert'']"

text \<open>\<open>certDownload\<close> is \<open>resolved[name] ??= provider()\<close>, the \<open>resolve_certificate\<close> of \<open>Server\<close>.\<close>

definition tlsCertificates_handle :: http_handler where
  "tlsCertificates_handle sv r path q =
     (let name = drop (length CERT_PREFIX) path in
      case certDownload sv name of
        None \<Rightarrow>
          [WriteHead (Some 503) [(''content-type'', ''text/plain'')], End (Some (Text ''Certificate is not available''))]
      | Some (Inl e) \<Rightarrow> [Throw e]
      | Some (Inr pem) \<Rightarrow>
          [WriteHead (Some 200)
             [(''content-type'',
               if name = ''client-cert'' then ''application/x-pem-file'' else ''application/x-x509-ca-cert''),
              (''content-disposition'',
               ''attachment; filename='' @ [CHR 0x22] @ ''testserver-'' @ name @ ''.pem'' @ [CHR 0x22])],
           End (Some (Text pem))])"

definition tlsCertificates :: http_endpoint where
  "tlsCertificates =
    \<lparr>ep_name = ''tlsCertificates'',
     matchPath = (\<lambda>path h.
       Inr (starts_with path CERT_PREFIX \<and> drop (length CERT_PREFIX) path \<in> set CERT_NAMES)),
     getRemainingPath = (\<lambda>_. None),
     handle = tlsCertificates_handle,
     ep_meta = Some \<lparr>m_path = ''/tls/certs/{name}'',
       m_description = ''Download the TLS certificates used by the local CA configuration, in PEM '' @
         ''format. client-cert is a certificate + key bundle for the mTLS client-cert endpoint.'',
       m_examples = map (\<lambda>name. CERT_PREFIX @ name) CERT_NAMES, m_group = Some httpTls\<rparr>,
     needsRawData = False\<rparr>"

definition annotateId :: "services \<Rightarrow> string \<Rightarrow> nat \<Rightarrow> json" where
  "annotateId sv table i =
     JObj [(''id'', JNum (int i)), (''name'', case hello_names sv table i of Some n \<Rightarrow> JStr n | None \<Rightarrow> JNull)]"

definition annotateIds :: "services \<Rightarrow> string \<Rightarrow> nat list \<Rightarrow> json" where
  "annotateIds sv table ids = JArr (map (annotateId sv table) ids)"

text \<open>The ids in a field of an extension, which the parser gives as numbers.\<close>

fun id_of :: "json \<Rightarrow> nat" where
  "id_of (JNum n) = nat n"
| "id_of _ = 0"

fun ids_of :: "json \<Rightarrow> nat list" where
  "ids_of (JArr vs) = map id_of vs"
| "ids_of _ = []"

definition annotate_entry :: "services \<Rightarrow> json \<Rightarrow> json" where
  "annotate_entry sv e =
     JObj [(''group'', annotateId sv ''SUPPORTED_GROUPS'' (id_of (field e ''group''))),
           (''keyExchangeLength'', field e ''keyExchangeLength'')]"

definition annotateExtensionData :: "services \<Rightarrow> nat \<Rightarrow> json \<Rightarrow> json" where
  "annotateExtensionData sv extensionId data =
     (case data of
        JObj fs \<Rightarrow>
          if fs = [] then data
          else if extensionId = 5 then
            JObj (AList.update ''statusType''
              (annotateId sv ''CERTIFICATE_STATUS_TYPES'' (id_of (field data ''statusType''))) fs)
          else if extensionId = 10 then
            JObj [(''groups'', annotateIds sv ''SUPPORTED_GROUPS'' (ids_of (field data ''groups'')))]
          else if extensionId = 11 then
            JObj [(''formats'', annotateIds sv ''EC_POINT_FORMATS'' (ids_of (field data ''formats'')))]
          else if extensionId = 13 \<or> extensionId = 50 then
            JObj [(''algorithms'', annotateIds sv ''SIGNATURE_ALGORITHMS'' (ids_of (field data ''algorithms'')))]
          else if extensionId = 17 then
            JObj [(''statusTypes'', annotateIds sv ''CERTIFICATE_STATUS_TYPES'' (ids_of (field data ''statusTypes'')))]
          else if extensionId = 27 then
            JObj [(''algorithms'',
              annotateIds sv ''CERTIFICATE_COMPRESSION_ALGORITHMS'' (ids_of (field data ''algorithms'')))]
          else if extensionId = 43 then
            JObj [(''versions'', annotateIds sv ''TLS_VERSIONS'' (ids_of (field data ''versions'')))]
          else if extensionId = 45 then
            JObj [(''modes'', annotateIds sv ''PSK_KEY_EXCHANGE_MODES'' (ids_of (field data ''modes'')))]
          else if extensionId = 51 then
            JObj [(''entries'', case field data ''entries'' of
              JArr es \<Rightarrow> JArr (map (annotate_entry sv) es) | _ \<Rightarrow> JArr [])]
          else data
      | _ \<Rightarrow> data)"

definition not_tls :: "op list" where
  "not_tls =
     [WriteHead (Some 400) json_headers, End (Some (Text (stringify (JObj [(''error'', JStr ''Not a TLS connection'')]))))]"

definition tlsClientHello_handle :: http_handler where
  "tlsClientHello_handle sv r path q =
     (case getClientHello r of
        None \<Rightarrow> not_tls
      | Some h \<Rightarrow>
          [WriteHead (Some 200) json_headers,
           End (Some (Text (stringify (JObj
             [(''version'', annotateId sv ''TLS_VERSIONS'' (hello_version h)),
              (''random'', JStr (hex_of_bytes (hello_random h))),
              (''sessionId'', if hello_sessionId h \<noteq> [] then JStr (hex_of_bytes (hello_sessionId h)) else JNull),
              (''cipherSuites'', annotateIds sv ''CIPHER_SUITES'' (hello_cipherSuites h)),
              (''compressionMethods'', annotateIds sv ''COMPRESSION_METHODS'' (hello_compressionMethods h)),
              (''extensions'', JArr (map (\<lambda>(i, d).
                JObj [(''id'', JNum (int i)),
                      (''name'', case hello_names sv ''EXTENSIONS'' i of Some n \<Rightarrow> JStr n | None \<Rightarrow> JNull),
                      (''data'', annotateExtensionData sv i d)]) (hello_extensions h)))]))))])"

definition tlsClientHello :: http_endpoint where
  "tlsClientHello =
    \<lparr>ep_name = ''tlsClientHello'',
     matchPath = (\<lambda>path h. Inr (path = ''/tls/client-hello'')),
     getRemainingPath = (\<lambda>_. None),
     handle = tlsClientHello_handle,
     ep_meta = Some \<lparr>m_path = ''/tls/client-hello'',
       m_description = ''Returns the fully parsed TLS ClientHello. Requires HTTPS.'',
       m_examples = [''/tls/client-hello''], m_group = Some httpTls\<rparr>,
     needsRawData = False\<rparr>"

definition tlsFingerprint_handle :: http_handler where
  "tlsFingerprint_handle sv r path q =
     (case getClientHello r of
        None \<Rightarrow> not_tls
      | Some h \<Rightarrow>
          if ja3 h = [] \<or> ja4 h = [] then
            [WriteHead (Some 500) json_headers,
             End (Some (Text (stringify (JObj [(''error'', JStr ''TLS fingerprint not available'')]))))]
          else
            [WriteHead (Some 200) json_headers,
             End (Some (Text (stringify (JObj [(''ja3'', JStr (ja3 h)), (''ja4'', JStr (ja4 h))]))))])"

definition tlsFingerprint :: http_endpoint where
  "tlsFingerprint =
    \<lparr>ep_name = ''tlsFingerprint'',
     matchPath = (\<lambda>path h. Inr (path = ''/tls/fingerprint'')),
     getRemainingPath = (\<lambda>_. None),
     handle = tlsFingerprint_handle,
     ep_meta = Some \<lparr>m_path = ''/tls/fingerprint'',
       m_description = ''Returns the TLS fingerprint (JA3 and JA4) of the client connection. Requires HTTPS.'',
       m_examples = [''/tls/fingerprint''], m_group = Some httpTls\<rparr>,
     needsRawData = False\<rparr>"

end
