(* ===== verification/Http_Dynamic.thy ===== *)
theory Http_Dynamic
  imports Httpbin_Compat
begin

text \<open>
  The endpoints with dynamic data, \<^verbatim>\<open>src/endpoints/http/\<close> \<open>base64.ts\<close>, \<open>bytes.ts\<close>,
  \<open>stream-bytes.ts\<close>, \<open>stream.ts\<close>, \<open>delay.ts\<close>, \<open>uuid.ts\<close> and \<open>version.ts\<close>. A number is \<open>None\<close>
  when it is \<open>NaN\<close>. The digest of SHA-256 has 32 bytes.
\<close>

section \<open>Matching\<close>

text \<open>\<open>path.match(/^PREFIX\d+$/)\<close>.\<close>

definition matches_digits :: "string \<Rightarrow> string \<Rightarrow> bool" where
  "matches_digits prefix path \<longleftrightarrow>
     starts_with path prefix \<and> drop (length prefix) path \<noteq> [] \<and> list_all is_digit (drop (length prefix) path)"

text \<open>A matcher that parses its parameter only for the exception.\<close>

definition checked :: "bool \<Rightarrow> 'a fallible \<Rightarrow> bool fallible" where
  "checked m v = (if \<not> m then Inr False else case v of Inl e \<Rightarrow> Inl e | Inr _ \<Rightarrow> Inr True)"

definition with_value :: "'a fallible \<Rightarrow> ('a \<Rightarrow> op list) \<Rightarrow> op list" where
  "with_value v k = (case v of Inl e \<Rightarrow> [Throw e] | Inr n \<Rightarrow> k n)"

section \<open>Base64\<close>

definition base64_normalize :: "string \<Rightarrow> string" where
  "base64_normalize encoded =
     map (\<lambda>c. if c = CHR ''_'' then CHR ''/'' else c) (map (\<lambda>c. if c = CHR ''-'' then CHR ''+'' else c) encoded)"

definition base64_error :: string where
  "base64_error = ''Incorrect Base64 data try: SGVsbG8gd29ybGQ= which decodes to: Hello world''"

definition html_headers :: headers where
  "html_headers = [(''content-type'', ''text/html; charset=utf-8'')]"

definition base64Decode_handle :: http_handler where
  "base64Decode_handle sv r path q =
     (let encoded = drop 8 path;
          normalized = base64_normalize encoded;
          decoded = base64_decode normalized
      in
      if strip_padding (base64_encode decoded) \<noteq> strip_padding normalized
      then [WriteHead (Some 200) html_headers, End (Some (Text base64_error))]
      else [WriteHead (Some 200) html_headers, End (Some (Raw decoded))])"

definition base64Decode :: http_endpoint where
  "base64Decode =
    \<lparr>ep_name = ''base64Decode'',
     matchPath = (\<lambda>path h. Inr (starts_with path ''/base64/'' \<and> length path > 8)),
     getRemainingPath = (\<lambda>_. None),
     handle = base64Decode_handle,
     ep_meta = Some \<lparr>m_path = ''/base64/{value}'',
       m_description = ''Decodes a base64url-encoded string and returns the decoded value.'',
       m_examples = [''/base64/SGVsbG8gd29ybGQ=''], m_group = Some httpDynamicData\<rparr>,
     needsRawData = False\<rparr>"

section \<open>Bytes\<close>

definition MAX_BYTES :: int where
  "MAX_BYTES = 102400"

definition count_error :: "string \<Rightarrow> string \<Rightarrow> js_exn" where
  "count_error what path = StatusError 400 (''Invalid '' @ what @ '' in '' @ path)"

definition parseBytesN :: "nat \<Rightarrow> string \<Rightarrow> int fallible" where
  "parseBytesN k path =
     (case parse_int (drop k path) of
        None \<Rightarrow> Inl (count_error ''byte count'' path)
      | Some n \<Rightarrow>
          if n < 0 then Inl (count_error ''byte count'' path)
          else if n > MAX_BYTES
          then Inl (StatusError 400 (''Byte count exceeds maximum of '' @ int_str MAX_BYTES))
          else Inr n)"

definition HASH_LENGTH :: nat where
  "HASH_LENGTH = 32"

text \<open>\<open>createHash('sha256').update(`${seed}:${counter}`).digest()\<close>.\<close>

definition seed_hash :: "services \<Rightarrow> string \<Rightarrow> nat \<Rightarrow> bytes" where
  "seed_hash sv seed counter = sha256 sv (seed @ '':'' @ nat_str counter)"

text \<open>The loop that fills \<open>remaining\<close> bytes from the hash chain, and where it leaves the counter.\<close>

function seeded_parts :: "services \<Rightarrow> string \<Rightarrow> nat \<Rightarrow> nat \<Rightarrow> bytes list \<times> nat" where
  "seeded_parts sv seed counter remaining =
     (if remaining = 0 then ([], counter)
      else
        let hash = seed_hash sv seed counter;
            (parts, counter') = seeded_parts sv seed (Suc counter) (remaining - HASH_LENGTH)
        in (take (min remaining (length hash)) hash # parts, counter'))"
  by pat_completeness auto
termination by (relation "measure (\<lambda>(_, _, _, remaining). remaining)") (auto simp: HASH_LENGTH_def)

declare seeded_parts.simps [simp del]

text \<open>\<open>Buffer.concat(parts, n)\<close> truncates or zero-fills to \<open>n\<close> bytes.\<close>

definition buffer_concat :: "bytes list \<Rightarrow> nat \<Rightarrow> bytes" where
  "buffer_concat parts n = take n (concat parts) @ replicate (n - length (concat parts)) 0"

definition octet_headers :: headers where
  "octet_headers = [(''content-type'', ''application/octet-stream'')]"

definition bytes_data :: "services \<Rightarrow> string option \<Rightarrow> nat \<Rightarrow> bytes" where
  "bytes_data sv seed n =
     (case seed of
        Some s \<Rightarrow> buffer_concat (fst (seeded_parts sv s 0 n)) n
      | None \<Rightarrow> randomBytes sv n)"

definition bytes_handle :: http_handler where
  "bytes_handle sv r path q =
     with_value (parseBytesN 7 path) (\<lambda>n.
       let data = bytes_data sv (query_get q ''seed'') (nat n) in
       [WriteHead (Some 200) (octet_headers @ [(''content-length'', int_str n)]), End (Some (Raw data))])"

definition bytesEndpoint :: http_endpoint where
  "bytesEndpoint =
    \<lparr>ep_name = ''bytesEndpoint'',
     matchPath = (\<lambda>path h. checked (matches_digits ''/bytes/'' path) (parseBytesN 7 path)),
     getRemainingPath = (\<lambda>_. None),
     handle = bytes_handle,
     ep_meta = Some \<lparr>m_path = ''/bytes/{n}'',
       m_description = (''Returns n random bytes. Supports an optional '' @ [CHR 0x22] @ ''seed'' @ [CHR 0x22] @ '' query parameter for deterministic output.''),
       m_examples = [''/bytes/1024''], m_group = Some httpDynamicData\<rparr>,
     needsRawData = False\<rparr>"

section \<open>Streamed bytes\<close>

text \<open>The loop over the chunks of a proper size.\<close>

function stream_chunks :: "services \<Rightarrow> string option \<Rightarrow> nat \<Rightarrow> nat \<Rightarrow> nat \<Rightarrow> bytes list" where
  "stream_chunks sv seed chunkSize counter remaining =
     (if remaining = 0 \<or> chunkSize = 0 then []
      else
        let size = min remaining chunkSize in
        case seed of
          Some s \<Rightarrow>
            let (parts, counter') = seeded_parts sv s counter size in
            buffer_concat parts size # stream_chunks sv seed chunkSize counter' (remaining - size)
        | None \<Rightarrow> randomBytes sv size # stream_chunks sv seed chunkSize counter (remaining - size))"
  by pat_completeness auto
termination by (relation "measure (\<lambda>(_, _, _, _, remaining). remaining)") auto

declare stream_chunks.simps [simp del]

definition chunk_size :: "query \<Rightarrow> int option" where
  "chunk_size q =
     map_option (max 1) (parse_int
       (case query_get q ''chunk_size'' of Some c \<Rightarrow> if c = [] then ''10240'' else c | None \<Rightarrow> ''10240''))"

text \<open>
  With a size that is not a number, the first chunk has \<open>NaN\<close> bytes: none from the hash chain,
  an exception from \<open>randomBytes\<close>, and the loop ends because \<open>NaN > 0\<close> is false.
\<close>

definition stream_bytes_handle :: http_handler where
  "stream_bytes_handle sv r path q =
     with_value (parseBytesN 14 path) (\<lambda>n.
       [WriteHead (Some 200) octet_headers] @
       (case chunk_size q of
          Some c \<Rightarrow> map (\<lambda>chunk. Write (Raw chunk)) (stream_chunks sv (query_get q ''seed'') (nat c) 0 (nat n))
        | None \<Rightarrow>
            if n = 0 then []
            else if query_get q ''seed'' = None then [Throw (JsError ''ERR_OUT_OF_RANGE'')]
            else [Write (Raw [])]) @
       [End None])"

definition streamBytesEndpoint :: http_endpoint where
  "streamBytesEndpoint =
    \<lparr>ep_name = ''streamBytesEndpoint'',
     matchPath = (\<lambda>path h. checked (matches_digits ''/stream-bytes/'' path) (parseBytesN 14 path)),
     getRemainingPath = (\<lambda>_. None),
     handle = stream_bytes_handle,
     ep_meta = Some \<lparr>m_path = ''/stream-bytes/{n}'',
       m_description = (''Streams n random bytes in chunks. Supports optional '' @ [CHR 0x22] @ ''chunk_size'' @ [CHR 0x22] @ '' (default 10240) and '' @ [CHR 0x22] @ ''seed'' @ [CHR 0x22] @ '' query parameters.''),
       m_examples = [''/stream-bytes/1024''], m_group = Some httpDynamicData\<rparr>,
     needsRawData = False\<rparr>"

section \<open>Streamed JSON\<close>

definition MAX_LINES :: int where
  "MAX_LINES = 100"

definition parseStreamN :: "string \<Rightarrow> int fallible" where
  "parseStreamN path =
     (case parse_int (drop 8 path) of
        None \<Rightarrow> Inl (count_error ''stream count'' path)
      | Some n \<Rightarrow>
          if n < 0 then Inl (count_error ''stream count'' path)
          else if n > MAX_LINES
          then Inl (StatusError 400 (''Stream count exceeds maximum of '' @ int_str MAX_LINES))
          else Inr n)"

definition GET_FIELDS :: "string list" where
  "GET_FIELDS = [''url'', ''args'', ''headers'', ''origin'']"

definition json_fields :: "json \<Rightarrow> (string \<times> json) list" where
  "json_fields v = (case v of JObj fs \<Rightarrow> fs | _ \<Rightarrow> [])"

definition stream_line :: "json \<Rightarrow> nat \<Rightarrow> string" where
  "stream_line data i = stringify (JObj ((''id'', JNum (int i)) # json_fields data)) @ newline"

text \<open>The count is read from the request's own URL, not from the path of the chain entry.\<close>

definition stream_handle :: http_handler where
  "stream_handle sv r path q =
     with_value (parseStreamN (url_path r)) (\<lambda>n.
       with_data (buildHttpBinAnythingData sv r (Some GET_FIELDS)) (\<lambda>data.
         [WriteHead (Some 200) json_headers] @
         map (\<lambda>i. Write (Text (stream_line data i))) [0..<nat n] @
         [End None]))"

definition streamEndpoint :: http_endpoint where
  "streamEndpoint =
    \<lparr>ep_name = ''streamEndpoint'',
     matchPath = (\<lambda>path h. checked (matches_digits ''/stream/'' path) (parseStreamN path)),
     getRemainingPath = (\<lambda>_. None),
     handle = stream_handle,
     ep_meta = Some \<lparr>m_path = ''/stream/{n}'',
       m_description = ''Streams n newline-delimited JSON objects, each containing request data with an incrementing id.'',
       m_examples = [''/stream/5''], m_group = Some httpDynamicData\<rparr>,
     needsRawData = False\<rparr>"

section \<open>Delay\<close>

text \<open>\<open>path.slice(idx)\<close> at the first slash from position \<open>k\<close> on, and the text up to it.\<close>

definition rest_from :: "nat \<Rightarrow> string \<Rightarrow> string option" where
  "rest_from k path = map_option (\<lambda>idx. drop idx path) (index_from ''/'' k path)"

definition upto_slash :: "nat \<Rightarrow> string \<Rightarrow> string" where
  "upto_slash k path =
     js_slice k (case index_from ''/'' k path of None \<Rightarrow> length path | Some idx \<Rightarrow> idx) path"

definition parseDelaySeconds :: "string \<Rightarrow> num" where
  "parseDelaySeconds path = parse_float (upto_slash 7 path)"

definition delay_handle :: http_handler where
  "delay_handle sv r path q =
     [Delay (scale_num (min_num (parseDelaySeconds path) 10) 1000)] @
     (if present (rest_from 7 path) then []
      else buildHttpBinAnythingEndpoint
        (Some [''url'', ''args'', ''form'', ''data'', ''origin'', ''headers'', ''files'']) sv r)"

definition delayEndpoint :: http_endpoint where
  "delayEndpoint =
    \<lparr>ep_name = ''delayEndpoint'',
     matchPath = (\<lambda>path h.
       if \<not> starts_with path ''/delay/'' then Inr False
       else if parseDelaySeconds path = NaN
       then Inl (StatusError 400 (''Invalid delay duration in '' @ path))
       else Inr True),
     getRemainingPath = rest_from 7,
     handle = delay_handle,
     ep_meta = Some \<lparr>m_path = ''/delay/{seconds}'',
       m_description = ''Delays the response by the specified number of seconds (max 10). Can be chained with other endpoints.'',
       m_examples = [''/delay/1'', ''/delay/5'', ''/delay/2/status/200''], m_group = Some httpDynamicData\<rparr>,
     needsRawData = False\<rparr>"

section \<open>Constants of the process\<close>

definition uuid :: http_endpoint where
  "uuid =
    \<lparr>ep_name = ''uuid'',
     matchPath = (\<lambda>path h. Inr (path = ''/uuid'')),
     getRemainingPath = (\<lambda>_. None),
     handle = (\<lambda>sv r path q. respond_json (JObj [(''uuid'', JStr (randomUUID sv))])),
     ep_meta = Some \<lparr>m_path = ''/uuid'',
       m_description = ''Returns a randomly generated UUID v4.'',
       m_examples = [''/uuid''], m_group = Some httpDynamicData\<rparr>,
     needsRawData = False\<rparr>"

definition versionJson :: http_endpoint where
  "versionJson =
    \<lparr>ep_name = ''versionJson'',
     matchPath = (\<lambda>path h. Inr (path = ''/version'')),
     getRemainingPath = (\<lambda>_. None),
     handle = (\<lambda>sv r path q.
       [WriteHead (Some 200) json_headers,
        End (Some (Text (stringify (JObj [(''versionHash'', JStr (versionHash sv))]))))]),
     ep_meta = Some \<lparr>m_path = ''/version'',
       m_description = ''Returns the testserver.host server version hash as JSON.'',
       m_examples = [''/version''], m_group = Some httpDynamicData\<rparr>,
     needsRawData = False\<rparr>"

end
