(* ===== verification/Http_Content.thy ===== *)
theory Http_Content
  imports Json
begin

text \<open>
  The fixed documents that the format endpoints serve, transcribed from
  \<^verbatim>\<open>src/endpoints/http/\<close> \<open>deny.ts\<close>, \<open>html.ts\<close>, \<open>json.ts\<close>, \<open>xml.ts\<close>, \<open>robots.txt.ts\<close> and
  \<open>example-page.ts\<close>.
\<close>

definition DENY_TEXT :: string where
  "DENY_TEXT =
     [] @ newline @
     (''          .-'' @ [CHR 0x27] @ [CHR 0x27] @ [CHR 0x27] @ [CHR 0x27] @ [CHR 0x27] @ [CHR 0x27] @ ''-.'') @ newline @
     (''        .'' @ [CHR 0x27] @ '' _      _ '' @ [CHR 0x27] @ ''.'') @ newline @
     (''       /   O      O   '' @ [CHR 0x5C]) @ newline @
     ''      :                :'' @ newline @
     ''      |                |'' @ newline @
     ''      :       __       :'' @ newline @
     (''       '' @ [CHR 0x5C] @ ''  .-'' @ [CHR 0x22] @ ''`  `'' @ [CHR 0x22] @ ''-.  /'') @ newline @
     (''        '' @ [CHR 0x27] @ ''.          .'' @ [CHR 0x27]) @ newline @
     (''          '' @ [CHR 0x27] @ ''-......-'' @ [CHR 0x27]) @ newline @
     (''     YOU SHOULDN'' @ [CHR 0x27] @ ''T BE HERE'') @ newline @
     []"

definition HTML_CONTENT :: string where
  "HTML_CONTENT =
     ''<!DOCTYPE html>'' @ newline @
     ''<html>'' @ newline @
     ''  <head>'' @ newline @
     ''  </head>'' @ newline @
     ''  <body>'' @ newline @
     ''      <h1>Herman Melville - Moby-Dick</h1>'' @ newline @
     [] @ newline @
     ''      <div>'' @ newline @
     ''        <p>'' @ newline @
     (''          Availing himself of the mild, summer-cool weather that now reigned in these latitudes, and in preparation for the peculiarly active pursuits shortly to be anticipated, Perth, the begrimed, blistered old blacksmith, had not removed his portable forge to the hold again, after concluding his contributory work for Ahab'' @ [CHR 0x27] @ ''s leg, but still retained it on deck, fast lashed to ringbolts by the foremast; being now almost incessantly invoked by the headsmen, and harpooneers, and bowsmen to do some little job for them; altering, or repairing, or new shaping their various weapons and boat furniture. Often he would be surrounded by an eager circle, all waiting to be served; holding boat-spades, pike-heads, harpoons, and lances, and jealously watching his every sooty movement, as he toiled. Nevertheless, this old man'' @ [CHR 0x27] @ ''s was a patient hammer wielded by a patient arm. No murmur, no impatience, no petulance did come from him. Silent, slow, and solemn; bowing over still further his chronically broken back, he toiled away, as if toil were life itself, and the heavy beating of his hammer the heavy beating of his heart. And so it was.'' @ [CHR 0xE2] @ [CHR 0x80] @ [CHR 0x94] @ ''Most miserable! A peculiar walk in this old man, a certain slight but painful appearing yawing in his gait, had at an early period of the voyage excited the curiosity of the mariners. And to the importunity of their persisted questionings he had finally given in; and so it came to pass that every one now knew the shameful story of his wretched fate. Belated, and not innocently, one bitter winter'' @ [CHR 0x27] @ ''s midnight, on the road running between two country towns, the blacksmith half-stupidly felt the deadly numbness stealing over him, and sought refuge in a leaning, dilapidated barn. The issue was, the loss of the extremities of both feet. Out of this revelation, part by part, at last came out the four acts of the gladness, and the one long, and as yet uncatastrophied fifth act of the grief of his life'' @ [CHR 0x27] @ ''s drama. He was an old man, who, at the age of nearly sixty, had postponedly encountered that thing in sorrow'' @ [CHR 0x27] @ ''s technicals called ruin. He had been an artisan of famed excellence, and with plenty to do; owned a house and garden; embraced a youthful, daughter-like, loving wife, and three blithe, ruddy children; every Sunday went to a cheerful-looking church, planted in a grove. But one night, under cover of darkness, and further concealed in a most cunning disguisement, a desperate burglar slid into his happy home, and robbed them all of everything. And darker yet to tell, the blacksmith himself did ignorantly conduct this burglar into his family'' @ [CHR 0x27] @ ''s heart. It was the Bottle Conjuror! Upon the opening of that fatal cork, forth flew the fiend, and shrivelled up his home. Now, for prudent, most wise, and economic reasons, the blacksmith'' @ [CHR 0x27] @ ''s shop was in the basement of his dwelling, but with a separate entrance to it; so that always had the young and loving healthy wife listened with no unhappy nervousness, but with vigorous pleasure, to the stout ringing of her young-armed old husband'' @ [CHR 0x27] @ ''s hammer; whose reverberations, muffled by passing through the floors and walls, came up to her, not unsweetly, in her nursery; and so, to stout Labor'' @ [CHR 0x27] @ ''s iron lullaby, the blacksmith'' @ [CHR 0x27] @ ''s infants were rocked to slumber. Oh, woe on woe! Oh, Death, why canst thou not sometimes be timely? Hadst thou taken this old blacksmith to thyself ere his full ruin came upon him, then had the young widow had a delicious grief, and her orphans a truly venerable, legendary sire to dream of in their after years; and all of them a care-killing competency.'') @ newline @
     ''        </p>'' @ newline @
     ''      </div>'' @ newline @
     ''  </body>'' @ newline @
     ''</html>''"

definition XML_CONTENT :: string where
  "XML_CONTENT =
     (''<?xml version='' @ [CHR 0x27] @ ''1.0'' @ [CHR 0x27] @ '' encoding='' @ [CHR 0x27] @ ''us-ascii'' @ [CHR 0x27] @ ''?>'') @ newline @
     [] @ newline @
     ''<!--  A SAMPLE set of slides  -->'' @ newline @
     [] @ newline @
     ''<slideshow '' @ newline @
     (''    title='' @ [CHR 0x22] @ ''Sample Slide Show'' @ [CHR 0x22]) @ newline @
     (''    date='' @ [CHR 0x22] @ ''Date of publication'' @ [CHR 0x22]) @ newline @
     (''    author='' @ [CHR 0x22] @ ''Yours Truly'' @ [CHR 0x22]) @ newline @
     ''    >'' @ newline @
     [] @ newline @
     ''    <!-- TITLE SLIDE -->'' @ newline @
     (''    <slide type='' @ [CHR 0x22] @ ''all'' @ [CHR 0x22] @ ''>'') @ newline @
     ''      <title>Wake up to WonderWidgets!</title>'' @ newline @
     ''    </slide>'' @ newline @
     [] @ newline @
     ''    <!-- OVERVIEW -->'' @ newline @
     (''    <slide type='' @ [CHR 0x22] @ ''all'' @ [CHR 0x22] @ ''>'') @ newline @
     ''        <title>Overview</title>'' @ newline @
     ''        <item>Why <em>WonderWidgets</em> are great</item>'' @ newline @
     ''        <item/>'' @ newline @
     ''        <item>Who <em>buys</em> WonderWidgets</item>'' @ newline @
     ''    </slide>'' @ newline @
     [] @ newline @
     ''</slideshow>''"

definition EXAMPLE_PAGE :: string where
  "EXAMPLE_PAGE =
     ''<!doctype html>'' @ newline @
     ''<html>'' @ newline @
     ''<head>'' @ newline @
     ''    <title>Example Domain</title>'' @ newline @
     [] @ newline @
     (''    <meta charset='' @ [CHR 0x22] @ ''utf-8'' @ [CHR 0x22] @ '' />'') @ newline @
     (''    <meta http-equiv='' @ [CHR 0x22] @ ''Content-type'' @ [CHR 0x22] @ '' content='' @ [CHR 0x22] @ ''text/html; charset=utf-8'' @ [CHR 0x22] @ '' />'') @ newline @
     (''    <meta name='' @ [CHR 0x22] @ ''viewport'' @ [CHR 0x22] @ '' content='' @ [CHR 0x22] @ ''width=device-width, initial-scale=1'' @ [CHR 0x22] @ '' />'') @ newline @
     (''    <style type='' @ [CHR 0x22] @ ''text/css'' @ [CHR 0x22] @ ''>'') @ newline @
     ''    body {'' @ newline @
     ''        background-color: #f0f0f2;'' @ newline @
     ''        margin: 0;'' @ newline @
     ''        padding: 0;'' @ newline @
     (''        font-family: -apple-system, system-ui, BlinkMacSystemFont, '' @ [CHR 0x22] @ ''Segoe UI'' @ [CHR 0x22] @ '', '' @ [CHR 0x22] @ ''Open Sans'' @ [CHR 0x22] @ '', '' @ [CHR 0x22] @ ''Helvetica Neue'' @ [CHR 0x22] @ '', Helvetica, Arial, sans-serif;'') @ newline @
     ''        '' @ newline @
     ''    }'' @ newline @
     ''    div {'' @ newline @
     ''        width: 600px;'' @ newline @
     ''        margin: 5em auto;'' @ newline @
     ''        padding: 2em;'' @ newline @
     ''        background-color: #fdfdff;'' @ newline @
     ''        border-radius: 0.5em;'' @ newline @
     ''        box-shadow: 2px 3px 7px 2px rgba(0,0,0,0.02);'' @ newline @
     ''    }'' @ newline @
     ''    a:link, a:visited {'' @ newline @
     ''        color: #38488f;'' @ newline @
     ''        text-decoration: none;'' @ newline @
     ''    }'' @ newline @
     ''    @media (max-width: 700px) {'' @ newline @
     ''        div {'' @ newline @
     ''            margin: 0 auto;'' @ newline @
     ''            width: auto;'' @ newline @
     ''        }'' @ newline @
     ''    }'' @ newline @
     ''    </style>'' @ newline @
     ''</head>'' @ newline @
     [] @ newline @
     ''<body>'' @ newline @
     ''<div>'' @ newline @
     ''    <h1>Example Domain</h1>'' @ newline @
     ''    <p>This domain is for use in illustrative examples in documents. You may use this'' @ newline @
     ''    domain in literature without prior coordination or asking for permission.</p>'' @ newline @
     (''    <p><a href='' @ [CHR 0x22] @ ''https://www.iana.org/domains/example'' @ [CHR 0x22] @ ''>More information...</a></p>'') @ newline @
     ''</div>'' @ newline @
     ''</body>'' @ newline @
     ''</html>'' @ newline @
     []"

definition ROBOTS_TXT :: string where
  "ROBOTS_TXT = ''User-agent: *'' @ newline @ ''Allow: /$'' @ newline @ ''Disallow: /'' @ newline"

definition JSON_DOCUMENT :: json where
  "JSON_DOCUMENT =
     JObj [(''slideshow'', JObj [
       (''author'', JStr ''Yours Truly''),
       (''date'', JStr ''date of publication''),
       (''slides'', JArr [
         JObj [(''title'', JStr ''Wake up to WonderWidgets!''), (''type'', JStr ''all'')],
         JObj [(''items'', JArr [
                  JStr ''Why <em>WonderWidgets</em> are great'',
                  JStr ''Who <em>buys</em> WonderWidgets'']),
               (''title'', JStr ''Overview''), (''type'', JStr ''all'')]]),
       (''title'', JStr ''Sample Slide Show'')])]"

end
