(* ===== verification/Http_Responses.thy ===== *)
theory Http_Responses
  imports Http_Dynamic Http_Content
begin

text \<open>
  The endpoints whose answer is chosen by the request, \<^verbatim>\<open>src/endpoints/http/\<close> \<open>status.ts\<close>,
  \<open>redirect.ts\<close>, \<open>response-headers.ts\<close>, \<open>informational.ts\<close>, \<open>cache.ts\<close>, \<open>etag.ts\<close>,
  \<open>basic-auth.ts\<close>, \<open>hidden-basic-auth.ts\<close>, \<open>bearer.ts\<close>, and those with a fixed answer:
  the formats, the encodings and the error endpoints.
\<close>

section \<open>Status\<close>

definition parseStatusCode :: "string \<Rightarrow> int option" where
  "parseStatusCode path = parse_int (drop 8 path)"

definition status :: http_endpoint where
  "status =
    \<lparr>ep_name = ''status'',
     matchPath = (\<lambda>path h.
       if \<not> starts_with path ''/status/'' then Inr False
       else case parseStatusCode path of
         None \<Rightarrow> Inl (StatusError 400 (''Invalid status code in '' @ path))
       | Some statusCode \<Rightarrow>
           if statusCode \<ge> 100 \<and> statusCode < 200
           then Inl (StatusError 400
             (''1xx codes are informational and cannot be used as a final response. '' @
              ''Use /info/'' @ int_str statusCode @ '' instead.''))
           else Inr True),
     getRemainingPath = (\<lambda>_. None),
     handle = (\<lambda>sv r path q. [WriteHead (parseStatusCode path) [], End None]),
     ep_meta = Some \<lparr>m_path = ''/status/{code}'',
       m_description = ''Returns a response with the specified HTTP status code.'',
       m_examples = [''/status/200'', ''/status/404'', ''/status/500''], m_group = Some httpCustomResponses\<rparr>,
     needsRawData = False\<rparr>"

section \<open>Redirects\<close>

definition MAX_REDIRECTS :: int where
  "MAX_REDIRECTS = 100"

definition getBaseUrl :: "request \<Rightarrow> string" where
  "getBaseUrl r = (if socket_is_tls r then ''https'' else ''http'') @ ''://'' @ host_header r"

definition parseRedirectN :: "string \<Rightarrow> string \<Rightarrow> int fallible" where
  "parseRedirectN path prefix =
     (case parse_int (drop (length prefix) path) of
        None \<Rightarrow> Inl (count_error ''redirect count'' path)
      | Some n \<Rightarrow>
          if n < 1 then Inl (count_error ''redirect count'' path)
          else if n > MAX_REDIRECTS
          then Inl (StatusError 400 (''Redirect count exceeds maximum of '' @ int_str MAX_REDIRECTS))
          else Inr n)"

definition redirect_answer :: "int \<Rightarrow> string \<Rightarrow> op list" where
  "redirect_answer code location = [WriteHead (Some code) [(''location'', location)], End None]"

definition redirectTo_handle :: http_handler where
  "redirectTo_handle sv r path q =
     (case query_get q ''url'' of
        None \<Rightarrow> [WriteHead (Some 400) [], End (Some (Text (''Missing '' @ [CHR 0x22] @ ''url'' @ [CHR 0x22] @ '' query parameter'')))]
      | Some u \<Rightarrow>
          if u = [] then
            [WriteHead (Some 400) [], End (Some (Text (''Missing '' @ [CHR 0x22] @ ''url'' @ [CHR 0x22] @ '' query parameter'')))]
          else
            let statusCode = parse_int (case query_get q ''status_code'' of
              Some c \<Rightarrow> if c = [] then ''302'' else c | None \<Rightarrow> ''302'')
            in [WriteHead statusCode [(''location'', u)], End None])"

definition redirectTo :: http_endpoint where
  "redirectTo =
    \<lparr>ep_name = ''redirectTo'',
     matchPath = (\<lambda>path h. Inr (path = ''/redirect-to'')),
     getRemainingPath = (\<lambda>_. None),
     handle = redirectTo_handle,
     ep_meta = Some \<lparr>m_path = ''/redirect-to'',
       m_description = (''Redirects to the URL specified in the '' @ [CHR 0x22] @ ''url'' @ [CHR 0x22] @ '' query parameter, with an optional '' @ [CHR 0x22] @ ''status_code'' @ [CHR 0x22] @ '' (default 302).''),
       m_examples = [''/redirect-to?url=/get'', ''/redirect-to?url=/get&status_code=301''], m_group = Some httpRedirects\<rparr>,
     needsRawData = False\<rparr>"

definition relative_location :: "int \<Rightarrow> string" where
  "relative_location n = (if n \<le> 1 then ''/get'' else ''/relative-redirect/'' @ int_str (n - 1))"

definition redirectN :: http_endpoint where
  "redirectN =
    \<lparr>ep_name = ''redirectN'',
     matchPath = (\<lambda>path h. checked (matches_digits ''/redirect/'' path) (parseRedirectN path ''/redirect/'')),
     getRemainingPath = (\<lambda>_. None),
     handle = (\<lambda>sv r path q. with_value (parseRedirectN path ''/redirect/'') (\<lambda>n.
       redirect_answer 302 (relative_location n))),
     ep_meta = Some \<lparr>m_path = ''/redirect/{n}'',
       m_description = ''Redirects n times using relative URLs (via /relative-redirect), then returns /get.'',
       m_examples = [''/redirect/3''], m_group = Some httpRedirects\<rparr>,
     needsRawData = False\<rparr>"

definition relativeRedirectN :: http_endpoint where
  "relativeRedirectN =
    \<lparr>ep_name = ''relativeRedirectN'',
     matchPath = (\<lambda>path h.
       checked (matches_digits ''/relative-redirect/'' path) (parseRedirectN path ''/relative-redirect/'')),
     getRemainingPath = (\<lambda>_. None),
     handle = (\<lambda>sv r path q. with_value (parseRedirectN path ''/relative-redirect/'') (\<lambda>n.
       redirect_answer 302 (relative_location n))),
     ep_meta = Some \<lparr>m_path = ''/relative-redirect/{n}'',
       m_description = ''Redirects n times using relative URLs, then returns /get.'',
       m_examples = [''/relative-redirect/3''], m_group = Some httpRedirects\<rparr>,
     needsRawData = False\<rparr>"

definition absolute_location :: "string \<Rightarrow> int \<Rightarrow> string" where
  "absolute_location base n =
     (if n \<le> 1 then base @ ''/get'' else base @ ''/absolute-redirect/'' @ int_str (n - 1))"

definition absoluteRedirectN :: http_endpoint where
  "absoluteRedirectN =
    \<lparr>ep_name = ''absoluteRedirectN'',
     matchPath = (\<lambda>path h.
       checked (matches_digits ''/absolute-redirect/'' path) (parseRedirectN path ''/absolute-redirect/'')),
     getRemainingPath = (\<lambda>_. None),
     handle = (\<lambda>sv r path q. with_value (parseRedirectN path ''/absolute-redirect/'') (\<lambda>n.
       redirect_answer 302 (absolute_location (getBaseUrl r) n))),
     ep_meta = Some \<lparr>m_path = ''/absolute-redirect/{n}'',
       m_description = ''Redirects n times using absolute URLs, then returns /get.'',
       m_examples = [''/absolute-redirect/3''], m_group = Some httpRedirects\<rparr>,
     needsRawData = False\<rparr>"

section \<open>Response headers\<close>

definition response_header_fields :: "query \<Rightarrow> (string \<times> string list) list" where
  "response_header_fields q = own_order (map (\<lambda>key. (key, query_getAll q key)) (query_keys q))"

definition values_json :: "string list \<Rightarrow> json" where
  "values_json vs = (case vs of [v] \<Rightarrow> JStr v | _ \<Rightarrow> JArr (map JStr vs))"

definition responseHeaders_handle :: http_handler where
  "responseHeaders_handle sv r path q =
     (let hs = response_header_fields q in
      map (\<lambda>(key, vs). SetHeader key vs) hs @
      [WriteHead (Some 200) json_headers,
       End (Some (Text (serializeJson (JObj (map (\<lambda>(key, vs). (key, values_json vs)) hs)))))])"

definition responseHeaders :: http_endpoint where
  "responseHeaders =
    \<lparr>ep_name = ''responseHeaders'',
     matchPath = (\<lambda>path h. Inr (path = ''/response-headers'')),
     getRemainingPath = (\<lambda>_. None),
     handle = responseHeaders_handle,
     ep_meta = Some \<lparr>m_path = ''/response-headers'',
       m_description = ''Returns a response with headers set from the query parameters.'',
       m_examples = [''/response-headers?X-Custom=value'', ''/response-headers?freeform=hello&freeform=world''], m_group = Some httpCustomResponses\<rparr>,
     needsRawData = False\<rparr>"

section \<open>Informational responses\<close>

definition isSupportedInformationalCode :: "int \<Rightarrow> bool" where
  "isSupportedInformationalCode code \<longleftrightarrow> code \<ge> 100 \<and> code < 200 \<and> code \<noteq> 101"

definition parseInfoCode :: "string \<Rightarrow> int option" where
  "parseInfoCode path =
     (let rest = drop 6 path;
          codeStr = (case find_sub ''/'' rest of None \<Rightarrow> rest | Some i \<Rightarrow> take i rest)
      in parse_int codeStr)"

definition crlf_str :: string where
  "crlf_str = [CHR 0x0D, CHR 0x0A]"

text \<open>The raw text of an HTTP/1 informational response, and the frame of an HTTP/2 one.\<close>

definition raw_informational :: "services \<Rightarrow> int \<Rightarrow> string list \<Rightarrow> string" where
  "raw_informational sv code links =
     ''HTTP/1.1 '' @ int_str code @ '' '' @ (case STATUS_CODES sv code of Some t \<Rightarrow> t | None \<Rightarrow> []) @ crlf_str @
     concat (map (\<lambda>v. ''link: '' @ v @ crlf_str) links) @ crlf_str"

definition sendInformational :: "services \<Rightarrow> request \<Rightarrow> int \<Rightarrow> string list \<Rightarrow> op" where
  "sendInformational sv r code links =
     (if is_h2 r then InformH2 code (map (\<lambda>v. (''link'', v)) links)
      else InformRaw (raw_informational sv code links))"

definition informational_body :: "int \<Rightarrow> string list \<Rightarrow> string" where
  "informational_body code links =
     pretty 0 (JObj [(''sent'', JObj [(''code'', JNum code),
       (''headers'', JObj (if links = [] then [] else [(''link'', JArr (map JStr links))]))])])"

definition informational_handle :: http_handler where
  "informational_handle sv r path q =
     (case parseInfoCode path of
        None \<Rightarrow> [Throw (JsError ''informational code is NaN'')]
      | Some code \<Rightarrow>
          let links = query_getAll q ''link'';
              bdy = informational_body code links
          in
          [sendInformational sv r code links] @
          (if present (rest_from 6 path) then []
           else
             [WriteHead (Some 200)
                [(''content-type'', ''application/json''), (''content-length'', nat_str (length bdy))],
              End (Some (Text bdy))]))"

definition informational :: http_endpoint where
  "informational =
    \<lparr>ep_name = ''informational'',
     matchPath = (\<lambda>path h.
       if \<not> starts_with path ''/info/'' then Inr False
       else case parseInfoCode path of
         None \<Rightarrow> Inl (StatusError 400 (''Invalid status code in '' @ path))
       | Some code \<Rightarrow>
           if \<not> isSupportedInformationalCode code
           then Inl (StatusError 400
             (int_str code @ '' is not a 1xx informational status code. '' @
              ''Use any code in 100-199 except 101 (which is reserved for protocol upgrades).''))
           else Inr True),
     getRemainingPath = rest_from 6,
     handle = informational_handle,
     ep_meta = Some \<lparr>m_path = ''/info/{code}'',
       m_description = ''Sends a 1xx informational response (100, 102, or 103) before the final response. Supports all codes except 101 which is reserved for protocol upgrades (e.g. websockets). Use `?link=...` (repeatable) to attach Link headers for testing 103 Early Hints. Chains with other endpoints: e.g. /info/103/status/404 sends 103 then 404.'',
       m_examples = [''/info/102'', ''/info/103?link=%3C/style.css%3E;rel=preload;as=style'', ''/info/110/info/199/echo''], m_group = Some httpCustomResponses\<rparr>,
     needsRawData = False\<rparr>"

section \<open>Caching\<close>

definition cache :: http_endpoint where
  "cache =
    \<lparr>ep_name = ''cache'',
     matchPath = (\<lambda>path h. Inr (path = ''/cache'')),
     getRemainingPath = (\<lambda>_. None),
     handle = (\<lambda>sv r path q.
       if header_set r ''if-modified-since'' \<or> header_set r ''if-none-match''
       then [WriteHead (Some 304) [], End None]
       else with_data (buildHttpBinAnythingData sv r (Some GET_FIELDS)) respond_json),
     ep_meta = Some \<lparr>m_path = ''/cache'',
       m_description = ''Returns 304 Not Modified if an If-Modified-Since or If-None-Match header is present, otherwise returns the same response as /get.'',
       m_examples = [''/cache''], m_group = Some httpCaching\<rparr>,
     needsRawData = False\<rparr>"

text \<open>The age, too, is read from the request's own URL.\<close>

definition cacheWithAge :: http_endpoint where
  "cacheWithAge =
    \<lparr>ep_name = ''cacheWithAge'',
     matchPath = (\<lambda>path h.
       if \<not> starts_with path ''/cache/'' then Inr False
       else if parse_int (drop 7 path) = None
       then Inl (StatusError 400 (''Invalid cache duration in '' @ path))
       else Inr True),
     getRemainingPath = (\<lambda>_. None),
     handle = (\<lambda>sv r path q.
       let n = parse_int (drop 7 (url_path r)) in
       with_data (buildHttpBinAnythingData sv r (Some GET_FIELDS)) (\<lambda>data.
         [WriteHead (Some 200) (json_headers @
            [(''cache-control'',
              ''public, max-age='' @ (case n of Some i \<Rightarrow> int_str i | None \<Rightarrow> ''NaN''))]),
          End (Some (Text (serializeJson data)))])),
     ep_meta = Some \<lparr>m_path = ''/cache/{n}'',
       m_description = ''Sets a Cache-Control header for n seconds, then returns the same response as /get.'',
       m_examples = [''/cache/60''], m_group = Some httpCaching\<rparr>,
     needsRawData = False\<rparr>"

text \<open>\<open>s.replace(/^"(.*)"$/, '$1')\<close>.\<close>

definition unquote :: "string \<Rightarrow> string" where
  "unquote s =
     (if 2 \<le> length s \<and> hd s = CHR 0x22 \<and> last s = CHR 0x22 then butlast (tl s) else s)"

definition parseEtagList :: "string \<Rightarrow> string list" where
  "parseEtagList hdr = map (\<lambda>s. unquote (trim s)) (split_seq '','' hdr)"

definition etag_listed :: "request \<Rightarrow> string \<Rightarrow> string \<Rightarrow> bool" where
  "etag_listed r name etagValue =
     (let tags = parseEtagList (the (header r name)) in etagValue \<in> set tags \<or> ''*'' \<in> set tags)"

definition etag_handle :: http_handler where
  "etag_handle sv r path q =
     (let etagValue = drop 6 (url_path r) in
      if header_set r ''if-none-match'' \<and> etag_listed r ''if-none-match'' etagValue
      then [WriteHead (Some 304) [(''etag'', etagValue)], End None]
      else if header_set r ''if-match'' \<and> \<not> etag_listed r ''if-match'' etagValue
      then [WriteHead (Some 412) [(''etag'', etagValue)], End None]
      else with_data (buildHttpBinAnythingData sv r (Some GET_FIELDS)) (\<lambda>data.
        [WriteHead (Some 200) (json_headers @ [(''etag'', etagValue)]), End (Some (Text (serializeJson data)))]))"

definition etag :: http_endpoint where
  "etag =
    \<lparr>ep_name = ''etag'',
     matchPath = (\<lambda>path h. Inr (starts_with path ''/etag/'' \<and> length path > 6)),
     getRemainingPath = (\<lambda>_. None),
     handle = etag_handle,
     ep_meta = Some \<lparr>m_path = ''/etag/{etag}'',
       m_description = ''Assumes the given etag for the resource and responds according to If-None-Match and If-Match request headers.'',
       m_examples = [''/etag/my-etag''], m_group = Some httpCaching\<rparr>,
     needsRawData = False\<rparr>"

section \<open>Authentication\<close>

definition checkBasicAuth :: "request \<Rightarrow> string \<Rightarrow> string \<Rightarrow> bool" where
  "checkBasicAuth r username password =
     (if \<not> header_set r ''authorization'' then False
      else
        let expectedAuth = base64_encode (buffer_of (username @ '':'' @ password));
            parts = split_seq '' '' (the (header r ''authorization''))
        in parts ! 0 = ''Basic'' \<and> 1 < length parts \<and> parts ! 1 = expectedAuth)"

text \<open>\<open>path.match(/^\/NAME\/([^\/]+)\/([^\/]+)$/)\<close>.\<close>

definition matches_credentials :: "string \<Rightarrow> string \<Rightarrow> bool" where
  "matches_credentials name path =
     (let parts = split_seq ''/'' path in
      length parts = 4 \<and> parts ! 0 = [] \<and> parts ! 1 = name \<and> parts ! 2 \<noteq> [] \<and> parts ! 3 \<noteq> [])"

definition auth_ok :: "string \<Rightarrow> op list" where
  "auth_ok username = respond_json (JObj [(''authenticated'', JBool True), (''user'', JStr username)])"

definition basicAuth_handle :: http_handler where
  "basicAuth_handle sv r path q =
     (let parts = drop 2 (split_seq ''/'' path); username = parts ! 0; password = parts ! 1 in
      if \<not> header_set r ''authorization'' then
        [WriteHead (Some 401)
           [(''www-authenticate'', ''Basic realm='' @ [CHR 0x22] @ ''Fake Realm'' @ [CHR 0x22])], End None]
      else if checkBasicAuth r username password then auth_ok username
      else [WriteHead (Some 403) [], End None])"

definition basicAuth :: http_endpoint where
  "basicAuth =
    \<lparr>ep_name = ''basicAuth'',
     matchPath = (\<lambda>path h. Inr (matches_credentials ''basic-auth'' path)),
     getRemainingPath = (\<lambda>_. None),
     handle = basicAuth_handle,
     ep_meta = Some \<lparr>m_path = ''/basic-auth/{username}/{password}'',
       m_description = ''Challenges with HTTP Basic Auth, expecting the username & password from the URL. Returns 200 with user info on success, 401 if unauthenticated, 403 if wrong credentials.'',
       m_examples = [''/basic-auth/admin/secret''], m_group = Some httpAuthentication\<rparr>,
     needsRawData = False\<rparr>"

definition hiddenBasicAuth :: http_endpoint where
  "hiddenBasicAuth =
    \<lparr>ep_name = ''hiddenBasicAuth'',
     matchPath = (\<lambda>path h. Inr (matches_credentials ''hidden-basic-auth'' path)),
     getRemainingPath = (\<lambda>_. None),
     handle = (\<lambda>sv r path q.
       let parts = drop 2 (split_seq ''/'' path) in
       if checkBasicAuth r (parts ! 0) (parts ! 1) then auth_ok (parts ! 0)
       else [WriteHead (Some 404) [], End None]),
     ep_meta = Some \<lparr>m_path = ''/hidden-basic-auth/{username}/{password}'',
       m_description = ''Like /basic-auth but returns 404 instead of 401 on authentication failure.'',
       m_examples = [''/hidden-basic-auth/admin/secret''], m_group = Some httpAuthentication\<rparr>,
     needsRawData = False\<rparr>"

definition bearer :: http_endpoint where
  "bearer =
    \<lparr>ep_name = ''bearer'',
     matchPath = (\<lambda>path h. Inr (path = ''/bearer'')),
     getRemainingPath = (\<lambda>_. None),
     handle = (\<lambda>sv r path q.
       let token = (case header r ''authorization'' of
         Some a \<Rightarrow> if starts_with a ''Bearer '' then Some (drop 7 a) else None | None \<Rightarrow> None)
       in
       if present token
       then respond_json (JObj [(''authenticated'', JBool True), (''token'', JStr (the token))])
       else [WriteHead (Some 401) [(''www-authenticate'', ''Bearer'')], End None]),
     ep_meta = Some \<lparr>m_path = ''/bearer'',
       m_description = ''Checks for a Bearer token in the Authorization header. Returns 200 with token info on success, 401 if missing.'',
       m_examples = [''/bearer''], m_group = Some httpAuthentication\<rparr>,
     needsRawData = False\<rparr>"

section \<open>Fixed answers\<close>

definition plain_headers :: headers where
  "plain_headers = [(''content-type'', ''text/plain'')]"

text \<open>The compressed documents are computed once, when the module is loaded.\<close>

definition encoded_answer :: "string \<Rightarrow> body \<Rightarrow> op list" where
  "encoded_answer encoding data =
     [WriteHead (Some 200) [(''content-type'', ''application/json''), (''content-encoding'', encoding)],
      End (Some data)]"

definition json :: http_endpoint where
  "json =
    \<lparr>ep_name = ''json'',
     matchPath = (\<lambda>path h. Inr (path = ''/json'')),
     getRemainingPath = (\<lambda>_. None),
     handle = (\<lambda>sv r path q. [WriteHead (Some 200) json_headers, End (Some (Text (serializeJson JSON_DOCUMENT)))]),
     ep_meta = Some \<lparr>m_path = ''/json'',
       m_description = ''Returns a sample JSON document.'',
       m_examples = [''/json''], m_group = Some httpResponseFormats\<rparr>,
     needsRawData = False\<rparr>"

definition xml :: http_endpoint where
  "xml =
    \<lparr>ep_name = ''xml'',
     matchPath = (\<lambda>path h. Inr (path = ''/xml'')),
     getRemainingPath = (\<lambda>_. None),
     handle = (\<lambda>sv r path q. [WriteHead (Some 200) [(''content-type'', ''application/xml'')], End (Some (Text XML_CONTENT))]),
     ep_meta = Some \<lparr>m_path = ''/xml'',
       m_description = ''Returns a sample XML document.'',
       m_examples = [''/xml''], m_group = Some httpResponseFormats\<rparr>,
     needsRawData = False\<rparr>"

definition html :: http_endpoint where
  "html =
    \<lparr>ep_name = ''html'',
     matchPath = (\<lambda>path h. Inr (path = ''/html'')),
     getRemainingPath = (\<lambda>_. None),
     handle = (\<lambda>sv r path q. [WriteHead (Some 200) html_headers, End (Some (Text HTML_CONTENT))]),
     ep_meta = Some \<lparr>m_path = ''/html'',
       m_description = ''Returns an HTML page.'',
       m_examples = [''/html''], m_group = Some httpResponseFormats\<rparr>,
     needsRawData = False\<rparr>"

definition deny :: http_endpoint where
  "deny =
    \<lparr>ep_name = ''deny'',
     matchPath = (\<lambda>path h. Inr (path = ''/deny'')),
     getRemainingPath = (\<lambda>_. None),
     handle = (\<lambda>sv r path q. [WriteHead (Some 200) plain_headers, End (Some (Text DENY_TEXT))]),
     ep_meta = Some \<lparr>m_path = ''/deny'',
       m_description = ''Returns a page denied by robots.txt.'',
       m_examples = [''/deny''], m_group = Some httpResponseFormats\<rparr>,
     needsRawData = False\<rparr>"

definition robotsTxt :: http_endpoint where
  "robotsTxt =
    \<lparr>ep_name = ''robotsTxt'',
     matchPath = (\<lambda>path h. Inr (path = ''/robots.txt'')),
     getRemainingPath = (\<lambda>_. None),
     handle = (\<lambda>sv r path q. [WriteHead (Some 200) plain_headers, End (Some (Text ROBOTS_TXT))]),
     ep_meta = Some \<lparr>m_path = ''/robots.txt'',
       m_description = ''Returns a robots.txt file that disallows crawling of all paths except the root.'',
       m_examples = [''/robots.txt''], m_group = Some httpResponseFormats\<rparr>,
     needsRawData = False\<rparr>"

definition utf8Encoding :: http_endpoint where
  "utf8Encoding =
    \<lparr>ep_name = ''utf8Encoding'',
     matchPath = (\<lambda>path h. Inr (path = ''/encoding/utf8'')),
     getRemainingPath = (\<lambda>_. None),
     handle = (\<lambda>sv r path q. [WriteHead (Some 200) html_headers, End (Some (Text (utf8_demo sv)))]),
     ep_meta = Some \<lparr>m_path = ''/encoding/utf8'',
       m_description = ''Returns a UTF-8 encoded HTML page with various Unicode characters.'',
       m_examples = [''/encoding/utf8''], m_group = Some httpResponseFormats\<rparr>,
     needsRawData = False\<rparr>"

definition gzip :: http_endpoint where
  "gzip =
    \<lparr>ep_name = ''gzip'',
     matchPath = (\<lambda>path h. Inr (path = ''/encoding/gzip'')),
     getRemainingPath = (\<lambda>_. None),
     handle = (\<lambda>sv r path q. encoded_answer ''gzip'' (Raw (compress sv ''gzip'' (serializeJson (JObj [(''gzipped'', JBool True)]))))),
     ep_meta = Some \<lparr>m_path = ''/encoding/gzip'',
       m_description = ''Returns gzip-encoded JSON data.'',
       m_examples = [''/encoding/gzip''], m_group = Some httpResponseEncoding\<rparr>,
     needsRawData = False\<rparr>"

definition deflate :: http_endpoint where
  "deflate =
    \<lparr>ep_name = ''deflate'',
     matchPath = (\<lambda>path h. Inr (path = ''/encoding/deflate'')),
     getRemainingPath = (\<lambda>_. None),
     handle = (\<lambda>sv r path q. encoded_answer ''deflate'' (Raw (compress sv ''deflate'' (serializeJson (JObj [(''deflated'', JBool True)]))))),
     ep_meta = Some \<lparr>m_path = ''/encoding/deflate'',
       m_description = ''Returns deflate-encoded JSON data.'',
       m_examples = [''/encoding/deflate''], m_group = Some httpResponseEncoding\<rparr>,
     needsRawData = False\<rparr>"

definition zstd :: http_endpoint where
  "zstd =
    \<lparr>ep_name = ''zstd'',
     matchPath = (\<lambda>path h. Inr (path = ''/encoding/zstd'')),
     getRemainingPath = (\<lambda>_. None),
     handle = (\<lambda>sv r path q. encoded_answer ''zstd'' (Raw (compress sv ''zstd'' (serializeJson (JObj [(''zstd'', JBool True)]))))),
     ep_meta = Some \<lparr>m_path = ''/encoding/zstd'',
       m_description = ''Returns zstd-encoded JSON data.'',
       m_examples = [''/encoding/zstd''], m_group = Some httpResponseEncoding\<rparr>,
     needsRawData = False\<rparr>"

definition brotli :: http_endpoint where
  "brotli =
    \<lparr>ep_name = ''brotli'',
     matchPath = (\<lambda>path h. Inr (path = ''/encoding/brotli'')),
     getRemainingPath = (\<lambda>_. None),
     handle = (\<lambda>sv r path q. encoded_answer ''br'' (Raw (compress sv ''brotli'' (serializeJson (JObj [(''brotli'', JBool True)]))))),
     ep_meta = Some \<lparr>m_path = ''/encoding/brotli'',
       m_description = ''Returns brotli-encoded JSON data.'',
       m_examples = [''/encoding/brotli''], m_group = Some httpResponseEncoding\<rparr>,
     needsRawData = False\<rparr>"

definition identity :: http_endpoint where
  "identity =
    \<lparr>ep_name = ''identity'',
     matchPath = (\<lambda>path h. Inr (path = ''/encoding/identity'')),
     getRemainingPath = (\<lambda>_. None),
     handle = (\<lambda>sv r path q. encoded_answer ''identity'' (Text (serializeJson (JObj [(''identity'', JBool True)])))),
     ep_meta = Some \<lparr>m_path = ''/encoding/identity'',
       m_description = ''Returns uncompressed JSON data with content-encoding: identity.'',
       m_examples = [''/encoding/identity''], m_group = Some httpResponseEncoding\<rparr>,
     needsRawData = False\<rparr>"

definition closeEndpoint :: http_endpoint where
  "closeEndpoint =
    \<lparr>ep_name = ''closeEndpoint'',
     matchPath = (\<lambda>path h. Inr (path = ''/error/close'')),
     getRemainingPath = (\<lambda>_. None),
     handle = (\<lambda>sv r path q. [SocketEnd]),
     ep_meta = Some \<lparr>m_path = ''/error/close'',
       m_description = ''Immediately closes the connection without sending a response.'',
       m_examples = [''/error/close''], m_group = Some httpErrors\<rparr>,
     needsRawData = False\<rparr>"

definition resetEndpoint :: http_endpoint where
  "resetEndpoint =
    \<lparr>ep_name = ''resetEndpoint'',
     matchPath = (\<lambda>path h. Inr (path = ''/error/reset'')),
     getRemainingPath = (\<lambda>_. None),
     handle = (\<lambda>sv r path q. [SocketReset]),
     ep_meta = Some \<lparr>m_path = ''/error/reset'',
       m_description = ''Resets the connection (sends a TCP RST) without sending a response.'',
       m_examples = [''/error/reset''], m_group = Some httpErrors\<rparr>,
     needsRawData = False\<rparr>"

definition examplePage :: http_endpoint where
  "examplePage =
    \<lparr>ep_name = ''examplePage'',
     matchPath = (\<lambda>path h. Inr (path = ''/'' \<and> h = Some ''example'')),
     getRemainingPath = (\<lambda>_. None),
     handle = (\<lambda>sv r path q.
       [WriteHead (Some 200) [(''content-type'', ''text/html'')], End (Some (Text EXAMPLE_PAGE))]),
     ep_meta = Some \<lparr>m_path = ''example'',
       m_description = ''Returns a copy of the example.com HTML page. Access via the example subdomain prefix.'',
       m_examples = [''https://example.testserver.host/''], m_group = Some httpResponseFormats\<rparr>,
     needsRawData = False\<rparr>"

end
