(* ===== verification/Http_Endpoints.thy ===== *)
theory Http_Endpoints
  imports Http_Inspection Http_Responses
begin

text \<open>
  \<open>httpEndpoints\<close> of \<^verbatim>\<open>src/endpoints/endpoint-index.ts\<close>: the exports of \<^verbatim>\<open>http-index.ts\<close>,
  ordered by name. No path is claimed by two of them, so routing does not depend on the order.
\<close>

definition httpEndpoints :: "http_endpoint list" where
  "httpEndpoints =
    [absoluteRedirectN, anything, base64Decode, basicAuth, bearer, brotli, bytesEndpoint,
     cache, cacheWithAge, closeEndpoint, deflate, delayEndpoint, deleteCookies, deny, echo,
     etag, examplePage, getCookies, getMethodEndpoint, gzip, headers, hiddenBasicAuth, html,
     identity, informational, ip, json, nonGetMethodEndpoint, redirectN, redirectTo,
     relativeRedirectN, resetEndpoint, responseHeaders, robotsTxt, setCookies, status,
     streamBytesEndpoint, streamEndpoint, tlsCertificates, tlsClientHello, tlsFingerprint,
     trailers, userAgent, utf8Encoding, uuid, versionJson, xml, zstd]"

lemmas http_endpoint_defs =
  absoluteRedirectN_def anything_def base64Decode_def basicAuth_def bearer_def brotli_def
  bytesEndpoint_def cache_def cacheWithAge_def closeEndpoint_def deflate_def
  delayEndpoint_def deleteCookies_def deny_def echo_def etag_def examplePage_def
  getCookies_def getMethodEndpoint_def gzip_def headers_def hiddenBasicAuth_def html_def
  identity_def informational_def ip_def json_def nonGetMethodEndpoint_def redirectN_def
  redirectTo_def relativeRedirectN_def resetEndpoint_def responseHeaders_def robotsTxt_def
  setCookies_def status_def streamBytesEndpoint_def streamEndpoint_def tlsCertificates_def
  tlsClientHello_def tlsFingerprint_def trailers_def userAgent_def utf8Encoding_def
  uuid_def versionJson_def xml_def zstd_def

lemma http_names [simp]:
  "ep_name absoluteRedirectN = ''absoluteRedirectN''"
  "ep_name anything = ''anything''"
  "ep_name base64Decode = ''base64Decode''"
  "ep_name basicAuth = ''basicAuth''"
  "ep_name bearer = ''bearer''"
  "ep_name brotli = ''brotli''"
  "ep_name bytesEndpoint = ''bytesEndpoint''"
  "ep_name cache = ''cache''"
  "ep_name cacheWithAge = ''cacheWithAge''"
  "ep_name closeEndpoint = ''closeEndpoint''"
  "ep_name deflate = ''deflate''"
  "ep_name delayEndpoint = ''delayEndpoint''"
  "ep_name deleteCookies = ''deleteCookies''"
  "ep_name deny = ''deny''"
  "ep_name echo = ''echo''"
  "ep_name etag = ''etag''"
  "ep_name examplePage = ''examplePage''"
  "ep_name getCookies = ''getCookies''"
  "ep_name getMethodEndpoint = ''getMethodEndpoint''"
  "ep_name gzip = ''gzip''"
  "ep_name headers = ''headers''"
  "ep_name hiddenBasicAuth = ''hiddenBasicAuth''"
  "ep_name html = ''html''"
  "ep_name identity = ''identity''"
  "ep_name informational = ''informational''"
  "ep_name ip = ''ip''"
  "ep_name json = ''json''"
  "ep_name nonGetMethodEndpoint = ''nonGetMethodEndpoint''"
  "ep_name redirectN = ''redirectN''"
  "ep_name redirectTo = ''redirectTo''"
  "ep_name relativeRedirectN = ''relativeRedirectN''"
  "ep_name resetEndpoint = ''resetEndpoint''"
  "ep_name responseHeaders = ''responseHeaders''"
  "ep_name robotsTxt = ''robotsTxt''"
  "ep_name setCookies = ''setCookies''"
  "ep_name status = ''status''"
  "ep_name streamBytesEndpoint = ''streamBytesEndpoint''"
  "ep_name streamEndpoint = ''streamEndpoint''"
  "ep_name tlsCertificates = ''tlsCertificates''"
  "ep_name tlsClientHello = ''tlsClientHello''"
  "ep_name tlsFingerprint = ''tlsFingerprint''"
  "ep_name trailers = ''trailers''"
  "ep_name userAgent = ''userAgent''"
  "ep_name utf8Encoding = ''utf8Encoding''"
  "ep_name uuid = ''uuid''"
  "ep_name versionJson = ''versionJson''"
  "ep_name xml = ''xml''"
  "ep_name zstd = ''zstd''"
  by (simp_all add: http_endpoint_defs)

section \<open>Which paths an endpoint claims\<close>

lemma matches_digits_start: "matches_digits p path \<Longrightarrow> starts_with path p"
  by (simp add: matches_digits_def)

lemma checked_claims: "checked m v \<noteq> Inr False \<Longrightarrow> m"
  by (auto simp: checked_def split: if_splits)

lemma matches_credentials_start:
  assumes "matches_credentials name path"
  shows "starts_with path (''/'' @ name @ ''/'')"
proof -
  obtain u p where parts: "split_seq ''/'' path = [[], name, u, p]"
    using assms unfolding matches_credentials_def Let_def
    by (cases "split_seq ''/'' path" rule: list.exhaust)
      (auto simp: length_Suc_conv numeral_eq_Suc)
  have "path = join ''/'' (split_seq ''/'' path)" by (simp add: join_split_seq)
  then have "path = ''/'' @ name @ ''/'' @ u @ ''/'' @ p" by (simp add: parts)
  then show ?thesis by (metis append.assoc starts_with_append)
qed

lemma http_claims:
  "claims absoluteRedirectN path h \<Longrightarrow> starts_with path ''/absolute-redirect/''"
  "claims anything path h \<Longrightarrow> path = ''/anything'' \<or> starts_with path ''/anything/''"
  "claims base64Decode path h \<Longrightarrow> starts_with path ''/base64/''"
  "claims basicAuth path h \<Longrightarrow> starts_with path ''/basic-auth/''"
  "claims bearer path h \<Longrightarrow> path = ''/bearer''"
  "claims brotli path h \<Longrightarrow> path = ''/encoding/brotli''"
  "claims bytesEndpoint path h \<Longrightarrow> starts_with path ''/bytes/''"
  "claims cache path h \<Longrightarrow> path = ''/cache''"
  "claims cacheWithAge path h \<Longrightarrow> starts_with path ''/cache/''"
  "claims closeEndpoint path h \<Longrightarrow> path = ''/error/close''"
  "claims deflate path h \<Longrightarrow> path = ''/encoding/deflate''"
  "claims delayEndpoint path h \<Longrightarrow> starts_with path ''/delay/''"
  "claims deleteCookies path h \<Longrightarrow> path = ''/cookies/delete''"
  "claims deny path h \<Longrightarrow> path = ''/deny''"
  "claims echo path h \<Longrightarrow> path = ''/echo''"
  "claims etag path h \<Longrightarrow> starts_with path ''/etag/''"
  "claims examplePage path h \<Longrightarrow> path = ''/''"
  "claims getCookies path h \<Longrightarrow> path = ''/cookies''"
  "claims getMethodEndpoint path h \<Longrightarrow> to_upper (drop 1 path) = ''GET''"
  "claims gzip path h \<Longrightarrow> path = ''/encoding/gzip''"
  "claims headers path h \<Longrightarrow> path = ''/headers''"
  "claims hiddenBasicAuth path h \<Longrightarrow> starts_with path ''/hidden-basic-auth/''"
  "claims html path h \<Longrightarrow> path = ''/html''"
  "claims identity path h \<Longrightarrow> path = ''/encoding/identity''"
  "claims informational path h \<Longrightarrow> starts_with path ''/info/''"
  "claims ip path h \<Longrightarrow> path = ''/ip''"
  "claims json path h \<Longrightarrow> path = ''/json''"
  "claims nonGetMethodEndpoint path h \<Longrightarrow> to_upper (drop 1 path) \<in> set nonGetMethods"
  "claims redirectN path h \<Longrightarrow> starts_with path ''/redirect/''"
  "claims redirectTo path h \<Longrightarrow> path = ''/redirect-to''"
  "claims relativeRedirectN path h \<Longrightarrow> starts_with path ''/relative-redirect/''"
  "claims resetEndpoint path h \<Longrightarrow> path = ''/error/reset''"
  "claims responseHeaders path h \<Longrightarrow> path = ''/response-headers''"
  "claims robotsTxt path h \<Longrightarrow> path = ''/robots.txt''"
  "claims setCookies path h \<Longrightarrow> path = ''/cookies/set'' \<or> starts_with path ''/cookies/set/''"
  "claims status path h \<Longrightarrow> starts_with path ''/status/''"
  "claims streamBytesEndpoint path h \<Longrightarrow> starts_with path ''/stream-bytes/''"
  "claims streamEndpoint path h \<Longrightarrow> starts_with path ''/stream/''"
  "claims tlsCertificates path h \<Longrightarrow> starts_with path ''/tls/certs/''"
  "claims tlsClientHello path h \<Longrightarrow> path = ''/tls/client-hello''"
  "claims tlsFingerprint path h \<Longrightarrow> path = ''/tls/fingerprint''"
  "claims trailers path h \<Longrightarrow> path = ''/trailers''"
  "claims userAgent path h \<Longrightarrow> path = ''/user-agent''"
  "claims utf8Encoding path h \<Longrightarrow> path = ''/encoding/utf8''"
  "claims uuid path h \<Longrightarrow> path = ''/uuid''"
  "claims versionJson path h \<Longrightarrow> path = ''/version''"
  "claims xml path h \<Longrightarrow> path = ''/xml''"
  "claims zstd path h \<Longrightarrow> path = ''/encoding/zstd''"
  unfolding http_endpoint_defs claims_def CERT_PREFIX_def
  using matches_credentials_start [of "''basic-auth''" path] matches_credentials_start [of "''hidden-basic-auth''" path]
  by (simp_all del: starts_with_Cons split: if_splits)
    (auto dest!: checked_claims matches_digits_start simp del: starts_with_Cons split: if_splits)

section \<open>Routing is unambiguous\<close>

definition exact_paths :: "(string \<times> string) list" where
  "exact_paths =
    [(''anything'', ''/anything''), (''bearer'', ''/bearer''),
     (''brotli'', ''/encoding/brotli''), (''cache'', ''/cache''),
     (''closeEndpoint'', ''/error/close''), (''deflate'', ''/encoding/deflate''),
     (''deleteCookies'', ''/cookies/delete''), (''deny'', ''/deny''), (''echo'', ''/echo''),
     (''examplePage'', ''/''), (''getCookies'', ''/cookies''),
     (''gzip'', ''/encoding/gzip''), (''headers'', ''/headers''), (''html'', ''/html''),
     (''identity'', ''/encoding/identity''), (''ip'', ''/ip''), (''json'', ''/json''),
     (''redirectTo'', ''/redirect-to''), (''resetEndpoint'', ''/error/reset''),
     (''responseHeaders'', ''/response-headers''), (''robotsTxt'', ''/robots.txt''),
     (''setCookies'', ''/cookies/set''), (''tlsClientHello'', ''/tls/client-hello''),
     (''tlsFingerprint'', ''/tls/fingerprint''), (''trailers'', ''/trailers''),
     (''userAgent'', ''/user-agent''), (''utf8Encoding'', ''/encoding/utf8''),
     (''uuid'', ''/uuid''), (''versionJson'', ''/version''), (''xml'', ''/xml''),
     (''zstd'', ''/encoding/zstd'')]"

definition prefix_paths :: "(string \<times> string) list" where
  "prefix_paths =
    [(''absoluteRedirectN'', ''/absolute-redirect/''), (''anything'', ''/anything/''),
     (''base64Decode'', ''/base64/''), (''basicAuth'', ''/basic-auth/''),
     (''bytesEndpoint'', ''/bytes/''), (''cacheWithAge'', ''/cache/''),
     (''delayEndpoint'', ''/delay/''), (''etag'', ''/etag/''),
     (''hiddenBasicAuth'', ''/hidden-basic-auth/''), (''informational'', ''/info/''),
     (''redirectN'', ''/redirect/''), (''relativeRedirectN'', ''/relative-redirect/''),
     (''setCookies'', ''/cookies/set/''), (''status'', ''/status/''),
     (''streamBytesEndpoint'', ''/stream-bytes/''), (''streamEndpoint'', ''/stream/''),
     (''tlsCertificates'', ''/tls/certs/'')]"

text \<open>
  Keys of the claims, compared in upper case as the method endpoints do; a zero character
  marks the end of a path.
\<close>

definition end_mark :: string where
  "end_mark = [CHR 0x00]"

definition claim_keys :: "(string \<times> string) list" where
  "claim_keys =
     map (\<lambda>(n, p). (n, to_upper (p @ end_mark))) exact_paths @ map (\<lambda>(n, p). (n, to_upper p)) prefix_paths @
     map (\<lambda>m. (''nonGetMethodEndpoint'', ''/'' @ m @ end_mark)) nonGetMethods @
     [(''getMethodEndpoint'', ''/GET'' @ end_mark)]"

lemma http_claim_cases:
  assumes "ep \<in> set httpEndpoints" and "claims ep path h"
  shows "(ep_name ep, path) \<in> set exact_paths \<or>
    (\<exists>p. (ep_name ep, p) \<in> set prefix_paths \<and> starts_with path p) \<or>
    ep = getMethodEndpoint \<and> to_upper (drop 1 path) = ''GET'' \<or>
    ep = nonGetMethodEndpoint \<and> to_upper (drop 1 path) \<in> set nonGetMethods"
proof -
  have "list_ex (\<lambda>e. e = ep) httpEndpoints" using assms(1) by (auto simp: list_ex_iff)
  then have "foldr (\<lambda>e b. e = ep \<or> b) httpEndpoints False" by (simp add: httpEndpoints_def)
  then show ?thesis
    using assms(2) unfolding httpEndpoints_def foldr.simps o_def id_def
    by - (elim disjE; hypsubst?; (erule FalseE | drule http_claims; (simp add: exact_paths_def prefix_paths_def del: starts_with_Cons; blast)))
qed

lemma to_upper_append: "to_upper (x @ y) = to_upper x @ to_upper y"
  by (simp add: to_upper_def)

lemma to_upper_end_mark: "to_upper end_mark = end_mark"
  by code_simp

lemma starts_with_upper: "starts_with x y \<Longrightarrow> starts_with (to_upper x) (to_upper y)"
  by (auto simp: starts_with_iff to_upper_append)

lemma claim_key:
  assumes "ep \<in> set httpEndpoints" and "claims ep path h" and "starts_with path ''/''"
  shows "\<exists>k. (ep_name ep, k) \<in> set claim_keys \<and> starts_with (to_upper path @ end_mark) k"
proof -
  obtain r where r: "path = CHR ''/'' # r" using assms(3) by (auto simp: starts_with_iff)
  have upper: "to_upper path = ''/'' @ to_upper (drop 1 path)"
    by (simp add: r to_upper_def) code_simp
  have "starts_with (to_upper path @ end_mark) (''/'' @ m @ end_mark)" if "to_upper (drop 1 path) = m" for m
    using upper that by simp
  moreover have "starts_with (to_upper path @ end_mark) (to_upper (path @ end_mark))"
    by (simp add: to_upper_append to_upper_end_mark)
  moreover have "starts_with (to_upper path @ end_mark) (to_upper p)" if "starts_with path p" for p
    using starts_with_extend [OF starts_with_upper [OF that]] .
  moreover have "(n, to_upper (p @ end_mark)) \<in> set claim_keys" if "(n, p) \<in> set exact_paths" for n p
    using that unfolding claim_keys_def by (auto simp: image_iff split_beta intro!: bexI [of _ "(n, p)"])
  moreover have "(n, to_upper p) \<in> set claim_keys" if "(n, p) \<in> set prefix_paths" for n p
    using that unfolding claim_keys_def by (auto simp: image_iff split_beta intro!: bexI [of _ "(n, p)"])
  moreover have "(''nonGetMethodEndpoint'', ''/'' @ m @ end_mark) \<in> set claim_keys" if "m \<in> set nonGetMethods" for m
    using that unfolding claim_keys_def by auto
  moreover have "(''getMethodEndpoint'', ''/GET'' @ end_mark) \<in> set claim_keys"
    unfolding claim_keys_def by simp
  ultimately show ?thesis
    using http_claim_cases [OF assms(1,2)]
    by (elim disjE exE conjE) (metis append_Cons append_Nil append.assoc http_names)+
qed

definition apart :: "(string \<times> string) list \<Rightarrow> bool" where
  "apart ks \<longleftrightarrow> list_all (\<lambda>(n, k). list_all (\<lambda>(n', k'). starts_with k k' \<longrightarrow> n = n') ks) ks"

text \<open>It is enough to compare keys that agree in their second character.\<close>

lemma apartI:
  assumes "list_all (\<lambda>(n, k). 2 \<le> length k \<and> k ! 1 \<in> set cs) ks"
    and "list_all (\<lambda>c. apart (filter (\<lambda>(n, k). k ! 1 = c) ks)) cs"
  shows "apart ks"
  unfolding apart_def list_all_iff
proof (clarify)
  fix n k n' k' assume k: "(n, k) \<in> set ks" "(n', k') \<in> set ks" "starts_with k k'"
  have len: "2 \<le> length k" "2 \<le> length k'" "k ! 1 \<in> set cs" using assms(1) k by (auto simp: list_all_iff)
  obtain r where "k = k' @ r" using k(3) by (auto simp: starts_with_iff)
  then have "k ! 1 = k' ! 1" using len(2) by (simp add: nth_append)
  moreover have "apart (filter (\<lambda>(n, j). j ! 1 = k ! 1) ks)" using assms(2) len(3) by (simp add: list_all_iff)
  ultimately show "n = n'" using k unfolding apart_def list_all_iff by fastforce
qed

lemma upper_chars:
  "upper_char CHR ''-'' = CHR ''-''"
  "upper_char CHR ''.'' = CHR ''.''"
  "upper_char CHR ''/'' = CHR ''/''"
  "upper_char CHR ''4'' = CHR ''4''"
  "upper_char CHR ''6'' = CHR ''6''"
  "upper_char CHR ''8'' = CHR ''8''"
  "upper_char CHR ''a'' = CHR ''A''"
  "upper_char CHR ''b'' = CHR ''B''"
  "upper_char CHR ''c'' = CHR ''C''"
  "upper_char CHR ''d'' = CHR ''D''"
  "upper_char CHR ''e'' = CHR ''E''"
  "upper_char CHR ''f'' = CHR ''F''"
  "upper_char CHR ''g'' = CHR ''G''"
  "upper_char CHR ''h'' = CHR ''H''"
  "upper_char CHR ''i'' = CHR ''I''"
  "upper_char CHR ''j'' = CHR ''J''"
  "upper_char CHR ''k'' = CHR ''K''"
  "upper_char CHR ''l'' = CHR ''L''"
  "upper_char CHR ''m'' = CHR ''M''"
  "upper_char CHR ''n'' = CHR ''N''"
  "upper_char CHR ''o'' = CHR ''O''"
  "upper_char CHR ''p'' = CHR ''P''"
  "upper_char CHR ''r'' = CHR ''R''"
  "upper_char CHR ''s'' = CHR ''S''"
  "upper_char CHR ''t'' = CHR ''T''"
  "upper_char CHR ''u'' = CHR ''U''"
  "upper_char CHR ''v'' = CHR ''V''"
  "upper_char CHR ''x'' = CHR ''X''"
  "upper_char CHR ''y'' = CHR ''Y''"
  "upper_char CHR ''z'' = CHR ''Z''"
  by code_simp+

lemma claim_keys_eq:
  "claim_keys =
    [(''anything'', ''/ANYTHING'' @ end_mark),
     (''bearer'', ''/BEARER'' @ end_mark),
     (''brotli'', ''/ENCODING/BROTLI'' @ end_mark),
     (''cache'', ''/CACHE'' @ end_mark),
     (''closeEndpoint'', ''/ERROR/CLOSE'' @ end_mark),
     (''deflate'', ''/ENCODING/DEFLATE'' @ end_mark),
     (''deleteCookies'', ''/COOKIES/DELETE'' @ end_mark),
     (''deny'', ''/DENY'' @ end_mark),
     (''echo'', ''/ECHO'' @ end_mark),
     (''examplePage'', ''/'' @ end_mark),
     (''getCookies'', ''/COOKIES'' @ end_mark),
     (''gzip'', ''/ENCODING/GZIP'' @ end_mark),
     (''headers'', ''/HEADERS'' @ end_mark),
     (''html'', ''/HTML'' @ end_mark),
     (''identity'', ''/ENCODING/IDENTITY'' @ end_mark),
     (''ip'', ''/IP'' @ end_mark),
     (''json'', ''/JSON'' @ end_mark),
     (''redirectTo'', ''/REDIRECT-TO'' @ end_mark),
     (''resetEndpoint'', ''/ERROR/RESET'' @ end_mark),
     (''responseHeaders'', ''/RESPONSE-HEADERS'' @ end_mark),
     (''robotsTxt'', ''/ROBOTS.TXT'' @ end_mark),
     (''setCookies'', ''/COOKIES/SET'' @ end_mark),
     (''tlsClientHello'', ''/TLS/CLIENT-HELLO'' @ end_mark),
     (''tlsFingerprint'', ''/TLS/FINGERPRINT'' @ end_mark),
     (''trailers'', ''/TRAILERS'' @ end_mark),
     (''userAgent'', ''/USER-AGENT'' @ end_mark),
     (''utf8Encoding'', ''/ENCODING/UTF8'' @ end_mark),
     (''uuid'', ''/UUID'' @ end_mark),
     (''versionJson'', ''/VERSION'' @ end_mark),
     (''xml'', ''/XML'' @ end_mark),
     (''zstd'', ''/ENCODING/ZSTD'' @ end_mark),
     (''absoluteRedirectN'', ''/ABSOLUTE-REDIRECT/''),
     (''anything'', ''/ANYTHING/''),
     (''base64Decode'', ''/BASE64/''),
     (''basicAuth'', ''/BASIC-AUTH/''),
     (''bytesEndpoint'', ''/BYTES/''),
     (''cacheWithAge'', ''/CACHE/''),
     (''delayEndpoint'', ''/DELAY/''),
     (''etag'', ''/ETAG/''),
     (''hiddenBasicAuth'', ''/HIDDEN-BASIC-AUTH/''),
     (''informational'', ''/INFO/''),
     (''redirectN'', ''/REDIRECT/''),
     (''relativeRedirectN'', ''/RELATIVE-REDIRECT/''),
     (''setCookies'', ''/COOKIES/SET/''),
     (''status'', ''/STATUS/''),
     (''streamBytesEndpoint'', ''/STREAM-BYTES/''),
     (''streamEndpoint'', ''/STREAM/''),
     (''tlsCertificates'', ''/TLS/CERTS/''),
     (''nonGetMethodEndpoint'', ''/ACL'' @ end_mark),
     (''nonGetMethodEndpoint'', ''/BIND'' @ end_mark),
     (''nonGetMethodEndpoint'', ''/CHECKOUT'' @ end_mark),
     (''nonGetMethodEndpoint'', ''/CONNECT'' @ end_mark),
     (''nonGetMethodEndpoint'', ''/COPY'' @ end_mark),
     (''nonGetMethodEndpoint'', ''/DELETE'' @ end_mark),
     (''nonGetMethodEndpoint'', ''/HEAD'' @ end_mark),
     (''nonGetMethodEndpoint'', ''/LINK'' @ end_mark),
     (''nonGetMethodEndpoint'', ''/LOCK'' @ end_mark),
     (''nonGetMethodEndpoint'', ''/M-SEARCH'' @ end_mark),
     (''nonGetMethodEndpoint'', ''/MERGE'' @ end_mark),
     (''nonGetMethodEndpoint'', ''/MKACTIVITY'' @ end_mark),
     (''nonGetMethodEndpoint'', ''/MKCALENDAR'' @ end_mark),
     (''nonGetMethodEndpoint'', ''/MKCOL'' @ end_mark),
     (''nonGetMethodEndpoint'', ''/MOVE'' @ end_mark),
     (''nonGetMethodEndpoint'', ''/NOTIFY'' @ end_mark),
     (''nonGetMethodEndpoint'', ''/OPTIONS'' @ end_mark),
     (''nonGetMethodEndpoint'', ''/PATCH'' @ end_mark),
     (''nonGetMethodEndpoint'', ''/POST'' @ end_mark),
     (''nonGetMethodEndpoint'', ''/PROPFIND'' @ end_mark),
     (''nonGetMethodEndpoint'', ''/PROPPATCH'' @ end_mark),
     (''nonGetMethodEndpoint'', ''/PURGE'' @ end_mark),
     (''nonGetMethodEndpoint'', ''/PUT'' @ end_mark),
     (''nonGetMethodEndpoint'', ''/QUERY'' @ end_mark),
     (''nonGetMethodEndpoint'', ''/REBIND'' @ end_mark),
     (''nonGetMethodEndpoint'', ''/REPORT'' @ end_mark),
     (''nonGetMethodEndpoint'', ''/SEARCH'' @ end_mark),
     (''nonGetMethodEndpoint'', ''/SOURCE'' @ end_mark),
     (''nonGetMethodEndpoint'', ''/SUBSCRIBE'' @ end_mark),
     (''nonGetMethodEndpoint'', ''/TRACE'' @ end_mark),
     (''nonGetMethodEndpoint'', ''/UNBIND'' @ end_mark),
     (''nonGetMethodEndpoint'', ''/UNLINK'' @ end_mark),
     (''nonGetMethodEndpoint'', ''/UNLOCK'' @ end_mark),
     (''nonGetMethodEndpoint'', ''/UNSUBSCRIBE'' @ end_mark),
     (''getMethodEndpoint'', ''/GET'' @ end_mark)]"
  unfolding claim_keys_def exact_paths_def prefix_paths_def nonGetMethods_def http_METHODS_def
  by (simp add: to_upper_append to_upper_end_mark) (simp add: to_upper_def upper_chars)

lemma claim_keys_apart: "apart claim_keys"
  by (rule apartI [of "[CHR 0x00, CHR ''A'', CHR ''B'', CHR ''C'', CHR ''D'', CHR ''E'', CHR ''G'', CHR ''H'', CHR ''I'', CHR ''J'', CHR ''L'', CHR ''M'', CHR ''N'', CHR ''O'', CHR ''P'', CHR ''Q'', CHR ''R'', CHR ''S'', CHR ''T'', CHR ''U'', CHR ''V'', CHR ''X'']"]; unfold claim_keys_eq; code_simp)

lemma http_names_distinct: "distinct (map ep_name httpEndpoints)"
  by (simp add: httpEndpoints_def)

lemma http_names_inj: "inj_on ep_name (set httpEndpoints)"
  using http_names_distinct by (simp only: distinct_map)

lemma http_claims_unique:
  assumes "ep \<in> set httpEndpoints" "ep' \<in> set httpEndpoints" "claims ep path h" "claims ep' path h"
    and "starts_with path ''/''"
  shows "ep' = ep"
proof -
  obtain k k' where k: "(ep_name ep, k) \<in> set claim_keys" "(ep_name ep', k') \<in> set claim_keys"
    "starts_with (to_upper path @ end_mark) k" "starts_with (to_upper path @ end_mark) k'"
    using claim_key [OF assms(1,3,5)] claim_key [OF assms(2,4,5)] by blast
  then have "starts_with k k' \<or> starts_with k' k" using starts_with_same by blast
  then have "ep_name ep = ep_name ep'"
    using claim_keys_apart k(1,2) unfolding apart_def list_all_iff by fast
  moreover have "inj_on ep_name (set httpEndpoints)"
    using http_names_distinct by (simp add: distinct_map)
  ultimately show ?thesis using assms(1,2) by (simp add: inj_on_def)
qed

lemma find_claimed:
  assumes "ep \<in> set httpEndpoints" and "claims ep path h" and "starts_with path ''/''"
    and "ep \<in> set l" and "set l \<subseteq> set httpEndpoints"
  shows "find_endpoint l path h = (case matchPath ep path h of Inl e \<Rightarrow> Inl e | Inr b \<Rightarrow> Inr (Some ep))"
  using assms(4,5)
proof (induction l)
  case (Cons e l)
  show ?case
  proof (cases "e = ep")
    case True
    then show ?thesis using assms(2) by (auto simp: claims_def split: sum.splits bool.splits)
  next
    case False
    then have "matchPath e path h = Inr False"
      using http_claims_unique [OF assms(1) _ assms(2) _ assms(3), of e] Cons.prems(2) by (auto simp: claims_def)
    then show ?thesis using Cons False by simp
  qed
qed simp

lemma http_find:
  assumes "ep \<in> set httpEndpoints" and "matchPath ep path h = Inr True" and "starts_with path ''/''"
  shows "find_endpoint httpEndpoints path h = Inr (Some ep)"
  using find_claimed [OF assms(1) _ assms(3,1)] assms(2) by (simp add: claims_def)

lemma http_find_error:
  assumes "ep \<in> set httpEndpoints" and "matchPath ep path h = Inl e" and "starts_with path ''/''"
  shows "find_endpoint httpEndpoints path h = Inl e"
  using find_claimed [OF assms(1) _ assms(3,1)] assms(2) by (simp add: claims_def)

text \<open>
  Routing is unambiguous: whatever the order of the endpoint list, a path is matched by
  the same endpoint, and no endpoint's matcher can throw on a path that belongs to another.
\<close>

theorem http_routing_unambiguous:
  assumes "mset eps = mset httpEndpoints" and "starts_with path ''/''"
  shows "find_endpoint eps path h = find_endpoint httpEndpoints path h"
proof -
  have set: "set eps = set httpEndpoints" using assms(1) by (metis set_mset_mset)
  show ?thesis
  proof (cases "\<exists>ep \<in> set httpEndpoints. claims ep path h")
    case False
    have "find_endpoint l path h = Inr None" if "\<forall>ep \<in> set l. \<not> claims ep path h" for l :: "http_endpoint list"
      using that by (induction l) (auto simp: claims_def)
    then show ?thesis using False set by metis
  next
    case True
    then show ?thesis using find_claimed [OF _ _ assms(2)] set by fastforce
  qed
qed

theorem http_routing_unambiguous_witness:
  "find_endpoint (rev httpEndpoints) ''/json'' None = find_endpoint httpEndpoints ''/json'' None"
  by (rule http_routing_unambiguous) simp_all

section \<open>Chains\<close>

lemma rest_from_shorter: "rest_from k path = Some rest \<Longrightarrow> length rest + k \<le> length path \<and> starts_with rest ''/''"
proof -
  assume "rest_from k path = Some rest"
  then obtain i where i: "find_sub ''/'' (drop k path) = Some i" "rest = drop (i + k) path"
    by (auto simp: rest_from_def index_from_def)
  have "i + 1 \<le> length (drop k path)" "take 1 (drop i (drop k path)) = ''/''" using find_sub_Some [OF i(1)] by auto
  then show ?thesis using i(2) by (auto simp: starts_with_def add.commute)
qed

lemma http_no_rest:
  "getRemainingPath absoluteRedirectN = (\<lambda>_. None)"
  "getRemainingPath anything = (\<lambda>_. None)"
  "getRemainingPath base64Decode = (\<lambda>_. None)"
  "getRemainingPath basicAuth = (\<lambda>_. None)"
  "getRemainingPath bearer = (\<lambda>_. None)"
  "getRemainingPath brotli = (\<lambda>_. None)"
  "getRemainingPath bytesEndpoint = (\<lambda>_. None)"
  "getRemainingPath cache = (\<lambda>_. None)"
  "getRemainingPath cacheWithAge = (\<lambda>_. None)"
  "getRemainingPath closeEndpoint = (\<lambda>_. None)"
  "getRemainingPath deflate = (\<lambda>_. None)"
  "getRemainingPath deleteCookies = (\<lambda>_. None)"
  "getRemainingPath deny = (\<lambda>_. None)"
  "getRemainingPath echo = (\<lambda>_. None)"
  "getRemainingPath etag = (\<lambda>_. None)"
  "getRemainingPath examplePage = (\<lambda>_. None)"
  "getRemainingPath getCookies = (\<lambda>_. None)"
  "getRemainingPath getMethodEndpoint = (\<lambda>_. None)"
  "getRemainingPath gzip = (\<lambda>_. None)"
  "getRemainingPath headers = (\<lambda>_. None)"
  "getRemainingPath hiddenBasicAuth = (\<lambda>_. None)"
  "getRemainingPath html = (\<lambda>_. None)"
  "getRemainingPath identity = (\<lambda>_. None)"
  "getRemainingPath ip = (\<lambda>_. None)"
  "getRemainingPath json = (\<lambda>_. None)"
  "getRemainingPath nonGetMethodEndpoint = (\<lambda>_. None)"
  "getRemainingPath redirectN = (\<lambda>_. None)"
  "getRemainingPath redirectTo = (\<lambda>_. None)"
  "getRemainingPath relativeRedirectN = (\<lambda>_. None)"
  "getRemainingPath resetEndpoint = (\<lambda>_. None)"
  "getRemainingPath responseHeaders = (\<lambda>_. None)"
  "getRemainingPath robotsTxt = (\<lambda>_. None)"
  "getRemainingPath setCookies = (\<lambda>_. None)"
  "getRemainingPath status = (\<lambda>_. None)"
  "getRemainingPath streamBytesEndpoint = (\<lambda>_. None)"
  "getRemainingPath streamEndpoint = (\<lambda>_. None)"
  "getRemainingPath tlsCertificates = (\<lambda>_. None)"
  "getRemainingPath tlsClientHello = (\<lambda>_. None)"
  "getRemainingPath tlsFingerprint = (\<lambda>_. None)"
  "getRemainingPath trailers = (\<lambda>_. None)"
  "getRemainingPath userAgent = (\<lambda>_. None)"
  "getRemainingPath utf8Encoding = (\<lambda>_. None)"
  "getRemainingPath uuid = (\<lambda>_. None)"
  "getRemainingPath versionJson = (\<lambda>_. None)"
  "getRemainingPath xml = (\<lambda>_. None)"
  "getRemainingPath zstd = (\<lambda>_. None)"
  by (simp_all add: http_endpoint_defs)

lemma http_rest:
  "getRemainingPath delayEndpoint = rest_from 7" "getRemainingPath informational = rest_from 6"
  by (simp_all add: delayEndpoint_def informational_def)

lemma http_chaining:
  assumes "ep \<in> set httpEndpoints" and "getRemainingPath ep path = Some rest"
  shows "ep = delayEndpoint \<and> rest_from 7 path = Some rest \<or> ep = informational \<and> rest_from 6 path = Some rest"
proof -
  have "list_all (\<lambda>e. ep_name e = ''delayEndpoint'' \<or> ep_name e = ''informational'' \<or>
      getRemainingPath e = (\<lambda>_. None)) httpEndpoints"
    unfolding httpEndpoints_def list.pred_inject by (simp add: http_no_rest)
  then have "ep_name ep = ep_name delayEndpoint \<or> ep_name ep = ep_name informational"
    using assms unfolding list_all_iff by fastforce
  moreover have "ep = x" if "ep_name ep = ep_name x" "x \<in> set httpEndpoints" for x
    by (rule inj_onD [OF http_names_inj that(1) assms(1) that(2)])
  moreover have "delayEndpoint \<in> set httpEndpoints" "informational \<in> set httpEndpoints"
    unfolding httpEndpoints_def by (simp_all only: list.set insert_iff simp_thms)
  ultimately have "ep = delayEndpoint \<or> ep = informational" by presburger
  then show ?thesis using assms(2) http_rest by metis
qed

interpretation http_chain: chainable httpEndpoints 6
proof
  fix ep path h rest
  assume "ep \<in> set httpEndpoints" "getRemainingPath ep path = Some rest"
  then show "rest = [] \<or> length rest + 6 \<le> length path"
    using http_chaining rest_from_shorter by fastforce
qed simp

end
