(* ===== verification/Http_Handler.thy ===== *)
theory Http_Handler
  imports Http_Endpoints Endpoint_Config
begin

text \<open>
  \<^verbatim>\<open>src/http-handler.ts\<close>: the guards of a request in the order of the code, the run of its
  endpoint chain, and the error handling of the HTTP/1 and HTTP/2 servers around it.
\<close>

section \<open>Options and helpers\<close>

record handler_options =
  acmeChallengeCallback :: "string option \<Rightarrow> string option"
  rootDomain :: string
  usingPublicCA :: bool

definition allowCORS :: "request \<Rightarrow> op list" where
  "allowCORS r =
     (if \<not> header_set r ''origin'' then []
      else
        [SetHeader ''access-control-allow-origin'' [the (header r ''origin'')],
         SetHeader ''access-control-allow-credentials'' [''true'']] @
        (if header_set r ''access-control-request-method''
         then [SetHeader ''access-control-allow-method'' [the (header r ''access-control-request-method'')]] else []) @
        (if header_set r ''access-control-request-headers''
         then [SetHeader ''access-control-allow-headers'' [the (header r ''access-control-request-headers'')]] else []) @
        (if header_set r ''access-control-request-private-network''
         then [SetHeader ''access-control-allow-private-network'' [''true'']] else []))"

fun combined_cert_loop :: "options \<Rightarrow> string list \<Rightarrow> options fallible" where
  "combined_cert_loop acc [] = Inr acc"
| "combined_cert_loop acc (part # parts) =
     (case mergeContribution acc (Option.bind (find_tls_endpoint part) configureCertOptions) of
        Inl e \<Rightarrow> Inl e
      | Inr acc' \<Rightarrow> combined_cert_loop acc' parts)"

definition getCombinedCertOptions :: "string list \<Rightarrow> options fallible" where
  "getCombinedCertOptions prefixParts = combined_cert_loop [] prefixParts"

definition getLocalOnlyRedirectHost :: "bool \<Rightarrow> string \<Rightarrow> string list \<Rightarrow> string option fallible" where
  "getLocalOnlyRedirectHost publicCA domain prefixParts =
     (if \<not> publicCA then Inr None
      else case getCombinedCertOptions prefixParts of
        Inl e \<Rightarrow> Inl e
      | Inr opts \<Rightarrow>
          if get opts ''requiredType'' \<noteq> OStr ''local'' \<or> get opts ''selfSigned'' = OBool True \<or>
             ''untrusted-root'' \<in> set prefixParts
          then Inr None
          else Inr (Some (join ''--'' (prefixParts @ [''untrusted-root'']) @ ''.'' @ domain)))"

text \<open>\<open>authority.replace(/:\d+$/, '').toLowerCase()\<close>.\<close>

definition host_without_port :: "string \<Rightarrow> string" where
  "host_without_port authority =
     (let digits = takeWhile is_digit (rev authority); rest = dropWhile is_digit (rev authority) in
      to_lower (if digits \<noteq> [] \<and> starts_with rest '':'' then rev (tl rest) else authority))"

section \<open>The guards\<close>

text \<open>What happens to the captured raw data of an HTTP/1 connection.\<close>

datatype capture_action = KeepCapture | StopCapture | ClearCapture

datatype decision =
    Answer string "op list" capture_action
  | Fail js_exn
  | RunChain "op list" "(http_endpoint \<times> string) list" query capture_action

definition proxy_reject :: "handler_options \<Rightarrow> services \<Rightarrow> request \<Rightarrow> decision option" where
  "proxy_reject opts sv r =
     (if starts_with (req_url r) ''/'' then None
      else case newURL sv (req_url r) [] of
        None \<Rightarrow> Some (Fail (JsError ''Invalid URL''))
      | Some u \<Rightarrow>
          if ends_with (hostname u) (rootDomain opts) then None
          else Some (Answer ''proxy_reject''
            [WriteHead (Some 400) [(''connection'', ''close'')], End None] KeepCapture))"

definition misdirected :: "request \<Rightarrow> decision option" where
  "misdirected r =
     (if \<not> (over_tls r \<and> is_h2 r \<and> header_set r '':authority'') then None
      else
        let hostWithoutPort = host_without_port (the (header r '':authority''));
            sni = map_option to_lower (Option.bind (getClientHello r) hello_serverName)
        in
        if present sni \<and> the sni \<noteq> hostWithoutPort then
          Some (Answer ''misdirected''
            [WriteHead (Some 421) [(''content-type'', ''text/plain'')],
             End (Some (Text (''Misdirected Request: TLS connection was established for '' @ the sni @
               '' but got a request for '' @ hostWithoutPort)))] KeepCapture)
        else None)"

definition acme_challenge :: "handler_options \<Rightarrow> string \<Rightarrow> decision option" where
  "acme_challenge opts path =
     (if \<not> starts_with path ''/.well-known/acme-challenge/'' then None
      else
        let parts = split_seq ''/'' path;
            response = acmeChallengeCallback opts (if 3 < length parts then Some (parts ! 3) else None)
        in
        Some (Answer ''acme_challenge''
          (if present response
           then [WriteHead (Some 200) [], End (Some (Text (the response)))]
           else [WriteHead (Some 404) [], End (Some (Text ''Unrecognized ACME challenge request''))]) ClearCapture))"

definition redirect_text :: "bool \<Rightarrow> string \<Rightarrow> string" where
  "redirect_text untrusted target =
     (if untrusted
      then ''This local-only endpoint is served by an untrusted CA. Redirecting to the explicit '' @ target
      else ''This endpoint requires HTTPS. Redirecting to '' @ target)"

definition tls_only :: "request \<Rightarrow> string list \<Rightarrow> bool" where
  "tls_only r prefixParts \<longleftrightarrow>
     \<not> over_tls r \<and>
     list_ex (\<lambda>part. case find_tls_endpoint part of None \<Rightarrow> False | Some e \<Rightarrow> \<not> plainTextAllowed e) prefixParts"

definition host_guard :: "handler_options \<Rightarrow> services \<Rightarrow> request \<Rightarrow> string \<Rightarrow> url \<Rightarrow> decision option" where
  "host_guard opts sv r base u =
     (if \<not> present (hostnamePrefix (hostname u) (rootDomain opts)) then None
      else
        let prefixParts = getSNIPrefixParts (hostname u) (rootDomain opts);
            endpointError = validateEndpointParts prefixParts
        in
        if present endpointError then
          Some (Answer ''invalid_endpoint''
            [WriteHead (Some 400) [(''content-type'', ''text/plain'')],
             End (Some (Text (''Invalid endpoint hostname: '' @ the endpointError)))] KeepCapture)
        else
          (case getLocalOnlyRedirectHost (usingPublicCA opts) (rootDomain opts) prefixParts of
             Inl e \<Rightarrow> Some (Fail e)
           | Inr untrustedRootHost \<Rightarrow>
               if tls_only r prefixParts \<or> present untrustedRootHost then
                 let target = https_href sv (req_url r) base untrustedRootHost in
                 Some (Answer
                   (if present untrustedRootHost then ''untrusted_root_redirect'' else ''tls_redirect'')
                   [WriteHead (Some 301) [(''location'', target), (''content-type'', ''text/plain'')],
                    End (Some (Text (redirect_text (present untrustedRootHost) target)))] KeepCapture)
               else None))"

definition docs_page :: "services \<Rightarrow> string \<Rightarrow> string option \<Rightarrow> decision option" where
  "docs_page sv path prefix =
     (if path = ''/'' \<and> prefix \<noteq> Some ''example'' then
        Some (Answer ''docs''
          [WriteHead (Some 200)
             [(''content-type'', ''text/html; charset=utf-8''), (''content-length'', nat_str (length (docs_html sv)))],
           End (Some (Text (docs_html sv)))] KeepCapture)
      else None)"

definition run_endpoints :: "request \<Rightarrow> url \<Rightarrow> string option \<Rightarrow> decision" where
  "run_endpoints r u prefix =
     (if req_method r = ''OPTIONS''
      then Answer ''cors_preflight'' (allowCORS r @ [WriteHead (Some 200) [], End None]) KeepCapture
      else case resolveEndpointChain httpEndpoints (pathname u) prefix of
        Inl e \<Rightarrow> RunChain (allowCORS r @ [Throw e]) [] [] KeepCapture
      | Inr entries \<Rightarrow>
          RunChain (allowCORS r) entries (searchParams u)
            (if list_ex (\<lambda>(ep, _). needsRawData ep) entries then KeepCapture else StopCapture))"

text \<open>The first guard that applies decides.\<close>

fun first_decision :: "decision option list \<Rightarrow> decision \<Rightarrow> decision" where
  "first_decision [] d = d"
| "first_decision (Some d # _) _ = d"
| "first_decision (None # ds) d = first_decision ds d"

definition request_url_base :: "request \<Rightarrow> string" where
  "request_url_base r =
     (if over_tls r then ''https'' else ''http'') @ ''://'' @
     (case (case header r '':authority'' of Some a \<Rightarrow> Some a | None \<Rightarrow> header r ''host'') of
        Some h \<Rightarrow> h | None \<Rightarrow> ''undefined'')"

definition decide :: "handler_options \<Rightarrow> services \<Rightarrow> request \<Rightarrow> decision" where
  "decide opts sv r =
     first_decision [proxy_reject opts sv r, misdirected r]
       (case newURL sv (req_url r) (request_url_base r) of
          None \<Rightarrow> Fail (JsError ''Invalid URL'')
        | Some u \<Rightarrow>
            let prefix = hostnamePrefix (hostname u) (rootDomain opts) in
            first_decision
              [acme_challenge opts (pathname u),
               host_guard opts sv r (request_url_base r) u,
               docs_page sv (pathname u) prefix]
              (run_endpoints r u prefix))"

section \<open>Running the decision\<close>

fun run_chain :: "services \<Rightarrow> request \<Rightarrow> query \<Rightarrow> (http_endpoint \<times> string) list \<Rightarrow> response
    \<Rightarrow> js_exn option \<times> response" where
  "run_chain sv r q [] res = (None, res)"
| "run_chain sv r q ((ep, path) # es) res =
     (if writableEnded res then (None, res)
      else case run_ops (is_h2 r) (handle ep sv r path q) res of
        (Some e, res') \<Rightarrow> (Some e, res')
      | (None, res') \<Rightarrow> run_chain sv r q es res')"

definition handleRequest :: "handler_options \<Rightarrow> services \<Rightarrow> request \<Rightarrow> js_exn option \<times> response" where
  "handleRequest opts sv r =
     (case decide opts sv r of
        Answer label ops act \<Rightarrow> run_ops (is_h2 r) ops new_response
      | Fail e \<Rightarrow> (Some e, new_response)
      | RunChain ops entries q act \<Rightarrow>
          (case run_ops (is_h2 r) ops new_response of
             (Some e, res) \<Rightarrow> (Some e, res)
           | (None, res) \<Rightarrow> run_chain sv r q entries res))"

text \<open>
  The \<open>catch\<close> blocks: a closed response is left alone; once the head is sent the response is destroyed; otherwise HTTP/1 answers
  a \<open>StatusError\<close> with its status and message, and everything else (over HTTP/2, everything)
  is a 500.
\<close>

definition failed_answer :: "op list" where
  "failed_answer = [WriteHead (Some 500) [], End (Some (Text ''HTTP handler failed''))]"

definition http1_catch :: "js_exn option \<times> response \<Rightarrow> response" where
  "http1_catch er =
     (case er of
        (None, res) \<Rightarrow> res
      | (Some e, res) \<Rightarrow>
          if socketClosed res then res
          else if res_head res \<noteq> None then res\<lparr>socketClosed := True\<rparr>
          else case e of
            StatusError code msg \<Rightarrow> snd (run_ops False [WriteHead (Some code) [], End (Some (Text msg))] res)
          | _ \<Rightarrow> snd (run_ops False failed_answer res))"

definition http2_catch :: "js_exn option \<times> response \<Rightarrow> response" where
  "http2_catch er =
     (case er of
        (None, res) \<Rightarrow> res
      | (Some e, res) \<Rightarrow>
          if socketClosed res then res
          else if res_head res \<noteq> None then res\<lparr>socketClosed := True\<rparr>
          else snd (run_ops True failed_answer res))"

definition serve :: "handler_options \<Rightarrow> services \<Rightarrow> request \<Rightarrow> response" where
  "serve opts sv r =
     (if is_h2 r then http2_catch (handleRequest opts sv r) else http1_catch (handleRequest opts sv r))"

section \<open>Pipelining\<close>

text \<open>The counters that the HTTP/1 server keeps on a socket, around each request.\<close>

record batch =
  requestsInBatch :: int
  batchPipelining :: bool

definition new_batch :: batch where
  "new_batch = \<lparr>requestsInBatch = 0, batchPipelining = False\<rparr>"

definition request_start :: "batch \<Rightarrow> batch" where
  "request_start b =
     (let n = requestsInBatch b + 1 in
      \<lparr>requestsInBatch = n, batchPipelining = (if n > 1 then True else batchPipelining b)\<rparr>)"

definition request_end :: "batch \<Rightarrow> batch" where
  "request_end b =
     (let n = requestsInBatch b - 1 in
      \<lparr>requestsInBatch = n, batchPipelining = (if n = 0 then False else batchPipelining b)\<rparr>)"

section \<open>One answer per chain\<close>

text \<open>An endpoint that leaves a rest of the path to others does not touch the final response.\<close>

definition unanswered :: "response \<Rightarrow> response \<Rightarrow> bool" where
  "unanswered res0 res \<longleftrightarrow> res_head res = None \<and> \<not> writableEnded res \<and>
     res_body res = res_body res0 \<and> res_set res = res_set res0"

lemma informational_code:
  assumes "matchPath informational path h = Inr True"
  shows "\<exists>code. parseInfoCode path = Some code"
proof (cases "parseInfoCode path")
  case None
  then show ?thesis using assms by (simp add: informational_def split: if_splits)
qed simp

lemma quiet_handler:
  assumes "ep \<in> set httpEndpoints" and "matchPath ep path h = Inr True"
    and "present (getRemainingPath ep path)" and "unanswered res0 res"
  shows "\<exists>res'. run_ops h2 (handle ep sv r path q) res = (None, res') \<and> unanswered res0 res'"
proof -
  obtain rest where "getRemainingPath ep path = Some rest" using assms(3) by (auto simp: present_def)
  then consider "ep = delayEndpoint" "present (rest_from 7 path)" | "ep = informational" "present (rest_from 6 path)"
    using http_chaining [OF assms(1)] assms(3) by fastforce
  then show ?thesis
  proof cases
    case 1
    then have "handle ep sv r path q = [Delay (scale_num (min_num (parseDelaySeconds path) 10) 1000)]"
      by (simp add: delayEndpoint_def delay_handle_def)
    then show ?thesis using assms(4) by (simp add: unanswered_def)
  next
    case 2
    obtain code where "parseInfoCode path = Some code"
      using informational_code assms(2) unfolding 2(1) by blast
    then have "handle ep sv r path q = [sendInformational sv r code (query_getAll q ''link'')]"
      using 2(2) unfolding 2(1) by (simp add: informational_def informational_handle_def Let_def)
    then show ?thesis using assms(4) by (simp add: unanswered_def sendInformational_def)
  qed
qed

lemma chain_quiet:
  assumes "routes httpEndpoints h path (es @ [(ep, p)])" and "unanswered res0 res"
  shows "\<exists>res'. unanswered res0 res' \<and>
    run_chain sv r q (es @ [(ep, p)]) res = run_ops (is_h2 r) (handle ep sv r p q) res'"
  using assms
proof (induction es arbitrary: path res)
  case Nil
  then show ?case
    by (intro exI [of _ res]) (auto simp: unanswered_def split: prod.splits option.splits)
next
  case (Cons e es)
  obtain ep1 p1 where e: "e = (ep1, p1)" by force
  have r: "present path" "p1 = the path" "find_endpoint httpEndpoints (the path) h = Inr (Some ep1)"
    "routes httpEndpoints h (getRemainingPath ep1 p1) (es @ [(ep, p)])"
    using Cons.prems(1) by (auto simp: e elim: routes_ConsE)
  have "present (getRemainingPath ep1 p1)" using r(4) by (cases es) (auto elim: routes.cases)
  then obtain res1 where res1: "run_ops (is_h2 r) (handle ep1 sv r p1 q) res = (None, res1)" "unanswered res0 res1"
    using quiet_handler [OF _ _ _ Cons.prems(2)] find_endpoint_mem [OF r(3)] r(2) by blast
  then show ?case using Cons.IH [OF r(4) res1(2)] Cons.prems(2) by (simp add: e unanswered_def)
qed

text \<open>
  C23: Only the last endpoint of a chain answers: whatever precedes it (delays, informational
  responses) leaves the head, the body and the prepared headers of the response untouched, and
  the outcome of the whole chain is the outcome of the last handler.
\<close>

theorem chain_answers_once:
  assumes "resolveEndpointChain httpEndpoints path h = Inr (es @ [(ep, p)])"
    and "unanswered res res"
  shows "\<exists>res'. unanswered res res' \<and>
    run_chain sv r q (es @ [(ep, p)]) res = run_ops (is_h2 r) (handle ep sv r p q) res'"
  using assms by (auto simp: resolveEndpointChain_def chain_loop_Inr intro: chain_quiet)

lemma delay_json_chain:
  "resolveEndpointChain httpEndpoints ''/delay/1/json'' None =
    Inr ([(delayEndpoint, ''/delay/1/json'')] @ [(json, ''/json'')])"
proof -
  have mem: "delayEndpoint \<in> set httpEndpoints" "json \<in> set httpEndpoints" by (simp_all add: httpEndpoints_def)
  have "parseDelaySeconds ''/delay/1/json'' \<noteq> NaN" by code_simp
  then have "find_endpoint httpEndpoints ''/delay/1/json'' None = Inr (Some delayEndpoint)"
    by (intro http_find mem) (simp_all add: delayEndpoint_def)
  moreover have "find_endpoint httpEndpoints ''/json'' None = Inr (Some json)"
    by (intro http_find mem) (simp_all add: json_def)
  moreover have "getRemainingPath delayEndpoint ''/delay/1/json'' = Some ''/json''"
    unfolding delayEndpoint_def endpoint.simps by code_simp
  moreover have "getRemainingPath json ''/json'' = None" by (simp add: json_def)
  ultimately show ?thesis
    by (simp add: resolveEndpointChain_def chain_loop.simps present_def MAX_CHAIN_DEPTH_def)
qed

theorem chain_answers_once_witness:
  "\<exists>res'. unanswered new_response res' \<and>
    run_chain sample_services (sample_request ''/delay/1/json'' []) []
      ([(delayEndpoint, ''/delay/1/json'')] @ [(json, ''/json'')]) new_response =
    run_ops False (handle json sample_services (sample_request ''/delay/1/json'' []) ''/json'' []) res'"
proof -
  have "unanswered new_response new_response" by (simp add: unanswered_def new_response_def)
  moreover have "is_h2 (sample_request ''/delay/1/json'' []) = False" by (simp add: sample_request_def)
  ultimately show ?thesis
    using chain_answers_once [OF delay_json_chain, of new_response] by metis
qed

section \<open>Errors\<close>

definition reaches_endpoints :: "handler_options \<Rightarrow> services \<Rightarrow> request \<Rightarrow> url \<Rightarrow> bool" where
  "reaches_endpoints opts sv r u \<longleftrightarrow>
     proxy_reject opts sv r = None \<and> misdirected r = None \<and>
     newURL sv (req_url r) (request_url_base r) = Some u \<and> acme_challenge opts (pathname u) = None \<and>
     host_guard opts sv r (request_url_base r) u = None \<and>
     docs_page sv (pathname u) (hostnamePrefix (hostname u) (rootDomain opts)) = None \<and>
     req_method r \<noteq> ''OPTIONS'' \<and> allowCORS r = []"

text \<open>
  C35: A path that no endpoint accepts is answered over HTTP/1 with the status and the message
  of the error (404 when nothing matches, 400 for a bad parameter), but over HTTP/2 with a
  bare 500: the HTTP/2 server has no case for \<open>StatusError\<close>.
\<close>

theorem routing_error_status:
  assumes "reaches_endpoints opts sv r u"
    and "resolveEndpointChain httpEndpoints (pathname u) (hostnamePrefix (hostname u) (rootDomain opts)) =
      Inl (StatusError code msg)"
    and "400 \<le> code" and "code \<le> 499"
  shows "res_head (serve opts sv r) = Some (if is_h2 r then 500 else code, []) \<and>
    res_body (serve opts sv r) = [Text (if is_h2 r then ''HTTP handler failed'' else msg)]"
proof -
  have "handleRequest opts sv r = (Some (StatusError code msg), new_response)"
    using assms(1,2)
    by (simp add: handleRequest_def decide_def reaches_endpoints_def Let_def run_endpoints_def)
  then show ?thesis
    using assms(3,4)
    by (simp add: serve_def http1_catch_def http2_catch_def failed_answer_def new_response_def write_head_def
        status_ok_def valid_headers_def implicit_head_def)
qed

theorem routing_error_status_witness:
  "res_head (serve \<lparr>acmeChallengeCallback = (\<lambda>_. None), rootDomain = ''localhost'', usingPublicCA = False\<rparr>
      sample_services (sample_request ''/delay/x'' [])) = Some (400, [])"
proof -
  let ?opts = "\<lparr>acmeChallengeCallback = (\<lambda>_. None), rootDomain = ''localhost'', usingPublicCA = False\<rparr>"
  let ?r = "sample_request ''/delay/x'' []" and ?u = "\<lparr>pathname = ''/delay/x'', hostname = ''localhost'', searchParams = []\<rparr>"
  have pre: "hostnamePrefix ''localhost'' ''localhost'' = Some []" by code_simp
  have "parseDelaySeconds ''/delay/x'' = NaN" by code_simp
  then have "find_endpoint httpEndpoints ''/delay/x'' (Some []) = Inl (StatusError 400 ''Invalid delay duration in /delay/x'')"
    by (intro http_find_error [of delayEndpoint]) (simp_all add: httpEndpoints_def delayEndpoint_def)
  then have chain: "resolveEndpointChain httpEndpoints ''/delay/x'' (Some []) = Inl (StatusError 400 ''Invalid delay duration in /delay/x'')"
    by (simp add: resolveEndpointChain_def chain_loop.simps present_def)
  have "newURL sample_services ''/delay/x'' base = Some ?u" for base
    unfolding sample_services_def services.simps by (simp, code_simp)
  then have reach: "reaches_endpoints ?opts sample_services ?r ?u"
    by (simp add: reaches_endpoints_def proxy_reject_def misdirected_def acme_challenge_def host_guard_def
        docs_page_def allowCORS_def sample_request_def header_set_def header_def present_def pre)
  show ?thesis
    using routing_error_status [OF reach, of 400] chain pre by (simp add: sample_request_def)
qed

section \<open>Pipelining\<close>

datatype batch_event = Started | Ended

definition batch_step :: "batch \<Rightarrow> batch_event \<Rightarrow> batch" where
  "batch_step b e = (case e of Started \<Rightarrow> request_start b | Ended \<Rightarrow> request_end b)"

definition in_flight :: "batch_event list \<Rightarrow> int" where
  "in_flight es = int (count_list es Started) - int (count_list es Ended)"

end
