(* ===== verification/Http_Guards.thy ===== *)
theory Http_Guards
  imports Http_Handler
begin

text \<open>
  Properties of the request guards of \<^verbatim>\<open>src/http-handler.ts\<close> beyond the chain itself: where the
  redirect of local-only host names leads, and what the pipelining counters of the HTTP/1 server
  count.
\<close>

section \<open>Local-only host names under a public CA\<close>

lemma combined_cert_loop_eq:
  "combined_cert_loop acc parts = merge_entries acc (cert_entries parts)"
proof (induction parts arbitrary: acc)
  case (Cons p ps)
  have "cert_entries [p] = opt_entries (Option.bind (find_tls_endpoint p) configureCertOptions)"
    by (simp add: cert_entries_def)
  then show ?case
    by (simp add: Cons mergeContribution_entries entries_Cons(2) [of p ps] merge_entries_append split: sum.splits)
qed simp

lemma getCombinedCertOptions_eq: "getCombinedCertOptions parts = merge_entries [] (cert_entries parts)"
  by (simp add: getCombinedCertOptions_def combined_cert_loop_eq)

lemma find_untrusted_root [simp]: "find_tls_endpoint ''untrusted-root'' = Some untrustedRoot"
  by (simp add: find_tls_endpoint_def tlsEndpoints_def)

lemma untrusted_root_entries [simp]:
  "cert_entries [''untrusted-root''] = [(''requiredType'', OStr ''local''), (''selfSigned'', OBool False)]"
  "tls_entries [''untrusted-root''] = []"
  by (simp_all add: cert_entries_def tls_entries_def untrustedRoot_def)

lemma endpoint_self_signed:
  assumes "e \<in> set tlsEndpoints" and "(''selfSigned'', v) \<in> set (opt_entries (configureCertOptions e))"
  shows "v = OBool True \<or> v = OBool False"
proof -
  have "list_all (\<lambda>e. list_all (\<lambda>(k, v). k = ''selfSigned'' \<longrightarrow> v = OBool True \<or> v = OBool False)
      (opt_entries (configureCertOptions e))) tlsEndpoints"
    by (simp add: tlsEndpoints_def tls_endpoint_defs)
  then show ?thesis using assms by (auto simp: list_all_iff)
qed

lemma cert_entries_mem:
  assumes "(k, v) \<in> set (cert_entries parts)"
  obtains p e where "p \<in> set parts" and "e \<in> set tlsEndpoints" and "sniPart e = p"
    and "(k, v) \<in> set (opt_entries (configureCertOptions e))"
proof -
  obtain p where p: "p \<in> set parts" "(k, v) \<in> set (opt_entries (Option.bind (find_tls_endpoint p) configureCertOptions))"
    using assms by (auto simp: cert_entries_def)
  then obtain e where "find_tls_endpoint p = Some e" by (cases "find_tls_endpoint p") simp_all
  then show ?thesis using that p find_tls_endpoint_mem by force
qed

lemma combined_hd: "exclusive key \<Longrightarrow> combined key vs = (if vs = [] then OUndef else hd vs)"
  by (auto simp: combined_def exclusive_def)

lemma exclusive_keys [simp]: "exclusive ''requiredType''" "exclusive ''selfSigned''"
  by (simp_all add: exclusive_def)

lemma agreed_value:
  assumes "agree cs" and "well_typed cs" and "merge_entries [] cs = Inr opts" and "exclusive key"
    and "v \<in> set (field_values key cs)"
  shows "get opts key = v"
proof -
  have "get opts key = hd (field_values key cs)"
    using merge_entries_get [OF assms(2,3), of key] assms(4,5) by (auto simp: combined_hd)
  moreover have "hd (field_values key cs) \<in> set (field_values key cs)"
    using assms(5) by (intro hd_in_set) auto
  ultimately show ?thesis using assms(1,4,5) unfolding agree_def by blast
qed

lemma agree_extend:
  assumes "agree cs" and "\<And>v. v \<in> set (field_values key cs) \<Longrightarrow> v = w"
  shows "agree (cs @ [(key, w)])"
  using assms unfolding agree_def field_values_snoc by fastforce

lemma redirect_agrees:
  assumes agree: "agree (cert_entries parts)" and opts: "merge_entries [] (cert_entries parts) = Inr opts"
    and local: "get opts ''requiredType'' = OStr ''local''" "get opts ''selfSigned'' \<noteq> OBool True"
  shows "agree (cert_entries (parts @ [''untrusted-root'']))"
proof -
  note val = agreed_value [OF agree entries_typed(2) opts]
  have "v = OBool False" if v: "v \<in> set (field_values ''selfSigned'' (cert_entries parts))" for v
  proof -
    have "(''selfSigned'', v) \<in> set (cert_entries parts)" using v by (simp add: field_values_iff)
    then have "v = OBool True \<or> v = OBool False" using endpoint_self_signed by (metis cert_entries_mem)
    then show ?thesis using val [OF _ v] local(2) by auto
  qed
  moreover have "v = OStr ''local''" if v: "v \<in> set (field_values ''requiredType'' (cert_entries parts))" for v
    using val [OF _ v] local(1) by simp
  ultimately have "agree ((cert_entries parts @ [(''requiredType'', OStr ''local'')]) @ [(''selfSigned'', OBool False)])"
    by (intro agree_extend agree) (auto simp: field_values_snoc)
  moreover have "cert_entries (parts @ [''untrusted-root'']) =
      (cert_entries parts @ [(''requiredType'', OStr ''local'')]) @ [(''selfSigned'', OBool False)]"
    using untrusted_root_entries(1) by (simp add: cert_entries_def)
  ultimately show ?thesis by simp
qed

lemma redirect_valid:
  assumes valid: "validateEndpointParts parts = None" and opts: "merge_entries [] (cert_entries parts) = Inr opts"
    and local: "get opts ''requiredType'' = OStr ''local''" "get opts ''selfSigned'' \<noteq> OBool True"
      "''untrusted-root'' \<notin> set parts"
  shows "validateEndpointParts (parts @ [''untrusted-root'']) = None \<longleftrightarrow> length parts \<le> 3"
proof -
  have no_tls: "''no-tls'' \<notin> set parts"
  proof
    assume "''no-tls'' \<in> set parts"
    moreover have "length parts \<le> 1" using valid calculation by (simp add: valid_iff)
    ultimately have "parts = [''no-tls'']" by (cases parts) auto
    moreover have "find_tls_endpoint ''no-tls'' = Some noTls" by (simp add: find_tls_endpoint_def tlsEndpoints_def)
    ultimately have "cert_entries parts = []" by (simp add: cert_entries_def noTls_def)
    then show False using local(1) opts by simp
  qed
  have known: "known ''untrusted-root''" by (simp add: known_def)
  have tls: "tls_entries (parts @ [''untrusted-root'']) = tls_entries parts"
    using untrusted_root_entries(2) by (simp add: tls_entries_def)
  have parts: "distinct parts" "list_all known parts" "agree (cert_entries parts)" "agree (tls_entries parts)"
    using valid by (simp_all add: valid_iff)
  show ?thesis
    unfolding valid_iff tls
    using parts known redirect_agrees [OF parts(3) opts local(1,2)] no_tls local(3)
    by (simp add: MAX_SNI_PARTS_def)
qed

text \<open>
  C24: Under a public CA, a valid host name that asks for a local-only certificate is redirected
  to the same parts with \<open>untrusted-root\<close> appended. That host reads back to exactly those parts
  and is not redirected again; it is itself valid exactly when there were at most three parts, so
  a valid name of four parts is redirected to one that is refused.
\<close>

theorem local_only_redirect:
  assumes "validateEndpointParts parts = None"
    and "getLocalOnlyRedirectHost True domain parts = Inr (Some host)"
  shows "getSNIPrefixParts host domain = parts @ [''untrusted-root''] \<and>
    getLocalOnlyRedirectHost True domain (getSNIPrefixParts host domain) = Inr None \<and>
    (validateEndpointParts (getSNIPrefixParts host domain) = None \<longleftrightarrow> length parts \<le> 3)"
proof -
  obtain opts where opts: "merge_entries [] (cert_entries parts) = Inr opts"
    and local: "get opts ''requiredType'' = OStr ''local''" "get opts ''selfSigned'' \<noteq> OBool True"
      "''untrusted-root'' \<notin> set parts"
    and host: "host = join ''--'' (parts @ [''untrusted-root'']) @ ''.'' @ domain"
    using assms(2)
    by (auto simp: getLocalOnlyRedirectHost_def getCombinedCertOptions_eq split: sum.splits if_splits)
  have parts: "list_all known parts" "agree (cert_entries parts)" using assms(1) by (simp_all add: valid_iff)
  have "known p" if "p \<in> set (parts @ [''untrusted-root''])" for p
    using that parts(1) by (auto simp: list_all_iff known_def)
  then have reread: "getSNIPrefixParts host domain = parts @ [''untrusted-root'']"
    unfolding host using sni_prefix_parts by blast
  obtain opts' where "merge_entries [] (cert_entries (parts @ [''untrusted-root''])) = Inr opts'"
    using merge_entries_Inr_iff [OF entries_typed(2)] redirect_agrees [OF parts(2) opts local(1,2)] by blast
  then have "getLocalOnlyRedirectHost True domain (parts @ [''untrusted-root'']) = Inr None"
    by (simp add: getLocalOnlyRedirectHost_def getCombinedCertOptions_eq)
  then show ?thesis unfolding reread using redirect_valid [OF assms(1) opts local] by simp
qed

lemma no_common_name_local:
  "validateEndpointParts [''no-common-name''] = None"
  "getLocalOnlyRedirectHost True ''localhost'' [''no-common-name''] =
    Inr (Some ''no-common-name--untrusted-root.localhost'')"
proof -
  have find: "find_tls_endpoint ''no-common-name'' = Some noCommonName"
    by (simp add: find_tls_endpoint_def tlsEndpoints_def)
  have entries: "cert_entries [''no-common-name''] = [(''requiredType'', OStr ''local''), (''noCommonName'', OBool True)]"
    "tls_entries [''no-common-name''] = []"
    by (simp_all add: cert_entries_def tls_entries_def find noCommonName_def)
  show "validateEndpointParts [''no-common-name''] = None"
    unfolding valid_iff entries by (auto simp: MAX_SNI_PARTS_def known_def find agree_def field_values_def)
  show "getLocalOnlyRedirectHost True ''localhost'' [''no-common-name''] =
      Inr (Some ''no-common-name--untrusted-root.localhost'')"
    by (simp add: getLocalOnlyRedirectHost_def getCombinedCertOptions_eq entries) (simp add: get_def)
qed

theorem local_only_redirect_witness:
  "getSNIPrefixParts ''no-common-name--untrusted-root.localhost'' ''localhost'' = [''no-common-name'', ''untrusted-root''] \<and>
   validateEndpointParts [''no-common-name'', ''untrusted-root''] = None"
  using local_only_redirect [OF no_common_name_local] by auto

section \<open>Pipelining\<close>

lemma in_flight_snoc:
  "in_flight (es @ [e]) = in_flight es + (case e of Started \<Rightarrow> 1 | Ended \<Rightarrow> - 1)"
  by (simp add: in_flight_def split: batch_event.splits)

lemma batch_step_simps:
  "requestsInBatch (batch_step b e) = requestsInBatch b + (case e of Started \<Rightarrow> 1 | Ended \<Rightarrow> - 1)"
  "batchPipelining (batch_step b e) \<longleftrightarrow>
     (case e of Started \<Rightarrow> 0 < requestsInBatch b \<or> batchPipelining b
      | Ended \<Rightarrow> requestsInBatch b \<noteq> 1 \<and> batchPipelining b)"
  by (auto simp: batch_step_def request_start_def request_end_def Let_def split: batch_event.splits)

lemma batch_count: "requestsInBatch (foldl batch_step new_batch es) = in_flight es"
proof (induction es rule: rev_induct)
  case Nil
  then show ?case by (simp add: new_batch_def in_flight_def)
next
  case (snoc e es)
  then show ?case by (simp add: in_flight_snoc batch_step_simps)
qed

definition overlapped :: "batch_event list \<Rightarrow> bool" where
  "overlapped es \<longleftrightarrow>
     (\<exists>n \<le> length es. 2 \<le> in_flight (take n es) \<and> (\<forall>m. n \<le> m \<and> m \<le> length es \<longrightarrow> in_flight (take m es) \<noteq> 0))"

lemma overlapped_now: "2 \<le> in_flight es \<Longrightarrow> overlapped es"
  unfolding overlapped_def by (intro exI [of _ "length es"]) auto

lemma overlapped_snoc:
  "overlapped (es @ [e]) \<longleftrightarrow>
     in_flight (es @ [e]) \<noteq> 0 \<and> (2 \<le> in_flight (es @ [e]) \<or> overlapped es)"
proof -
  let ?n = "length es + 1"
  have take: "take m (es @ [e]) = take m es" if "m \<le> length es" for m using that by simp
  have last: "take m (es @ [e]) = es @ [e]" if "m = ?n" for m using that by simp
  have m: "m \<le> ?n \<longleftrightarrow> m \<le> length es \<or> m = ?n" for m by auto
  show ?thesis
  proof
    assume "overlapped (es @ [e])"
    then obtain n where n: "n \<le> ?n" "2 \<le> in_flight (take n (es @ [e]))"
      and on: "\<And>m. n \<le> m \<Longrightarrow> m \<le> ?n \<Longrightarrow> in_flight (take m (es @ [e])) \<noteq> 0"
      unfolding overlapped_def by auto
    have "in_flight (es @ [e]) \<noteq> 0" using on [of ?n] n(1) by simp
    moreover have "2 \<le> in_flight (es @ [e]) \<or> overlapped es"
    proof (cases "n = ?n")
      case False
      then have "n \<le> length es" using n(1) by simp
      then show ?thesis unfolding overlapped_def using n(2) on take by (metis m)
    qed (use n(2) in simp)
    ultimately show "in_flight (es @ [e]) \<noteq> 0 \<and> (2 \<le> in_flight (es @ [e]) \<or> overlapped es)" ..
  next
    assume *: "in_flight (es @ [e]) \<noteq> 0 \<and> (2 \<le> in_flight (es @ [e]) \<or> overlapped es)"
    then consider "2 \<le> in_flight (es @ [e])" | n where "n \<le> length es" "2 \<le> in_flight (take n es)"
      "\<And>m. n \<le> m \<Longrightarrow> m \<le> length es \<Longrightarrow> in_flight (take m es) \<noteq> 0"
      unfolding overlapped_def by blast
    then show "overlapped (es @ [e])"
    proof cases
      case 1
      then show ?thesis unfolding overlapped_def by (intro exI [of _ ?n]) (auto simp: le_Suc_eq)
    next
      case 2
      have "in_flight (take m (es @ [e])) \<noteq> 0" if "n \<le> m" "m \<le> ?n" for m
        using that * 2(3) [of m] take [of m] last [of m] by (cases "m = ?n") (simp_all add: le_Suc_eq)
      then show ?thesis unfolding overlapped_def using 2(1,2) take [of n] by (intro exI [of _ n]) auto
    qed
  qed
qed

text \<open>
  However requests on an HTTP/1 connection overlap, the counter is the number in flight, and
  the pipelining flag is set exactly when two were in flight at some moment since the connection
  was last idle.
\<close>

theorem pipelining_flag:
  assumes "\<forall>n \<le> length es. 0 \<le> in_flight (take n es)"
  shows "requestsInBatch (foldl batch_step new_batch es) = in_flight es \<and>
    (batchPipelining (foldl batch_step new_batch es) \<longleftrightarrow> overlapped es)"
  using assms
proof (induction es rule: rev_induct)
  case Nil
  then show ?case by (simp add: new_batch_def in_flight_def overlapped_def)
next
  case (snoc e es)
  have pos: "0 \<le> in_flight (take n es)" if "n \<le> length es" for n
    using snoc.prems [rule_format, of n] that by simp
  then have IH: "batchPipelining (foldl batch_step new_batch es) = overlapped es" and "0 \<le> in_flight es"
    using snoc.IH pos [of "length es"] by auto
  moreover have "0 \<le> in_flight (es @ [e])" using snoc.prems [rule_format, of "Suc (length es)"] by simp
  ultimately show ?case
    using overlapped_now [of es] by (cases e) (auto simp: overlapped_snoc in_flight_snoc batch_count batch_step_simps)
qed

theorem pipelining_flag_witness:
  "batchPipelining (foldl batch_step new_batch [Started, Started, Ended]) \<and>
   \<not> batchPipelining (foldl batch_step new_batch [Started, Started, Ended, Ended, Started])"
proof -
  have "\<forall>n \<le> length [Started, Started, Ended]. 0 \<le> in_flight (take n [Started, Started, Ended])"
    "\<forall>n \<le> length [Started, Started, Ended, Ended, Started]. 0 \<le> in_flight (take n [Started, Started, Ended, Ended, Started])"
    by (auto simp: in_flight_def le_Suc_eq numeral_eq_Suc)
  note flag = this [THEN pipelining_flag]
  have "overlapped [Started, Started, Ended]"
    unfolding overlapped_def by (intro exI [of _ 2]) (auto simp: in_flight_def le_Suc_eq numeral_eq_Suc)
  moreover have "\<not> overlapped [Started, Started, Ended, Ended, Started]"
    using overlapped_snoc [of "[Started, Started, Ended, Ended]" Started] overlapped_snoc [of "[Started, Started, Ended]" Ended]
    by (simp add: in_flight_def)
  ultimately show ?thesis using flag by blast
qed

end
