(* ===== verification/Http_Liveness.thy ===== *)
theory Http_Liveness
  imports Http_Guards
begin

text \<open>
  What holds of the answer to every HTTP request, whatever its endpoint: when there is one, and that the
  delays on the way to it are bounded. The contract of a
  handler (\<open>handler_ok\<close>) is proved for each endpoint of the list; the properties follow by going
  through the chain and the error handling once.
\<close>

section \<open>The contract of a handler\<close>

text \<open>Errors that the HTTP/1 error handling can print.\<close>

fun fine_exn :: "js_exn \<Rightarrow> bool" where
  "fine_exn (StatusError code msg) \<longleftrightarrow> code = 400 \<or> code = 404"
| "fine_exn _ \<longleftrightarrow> True"

fun short_wait :: "num \<Rightarrow> bool" where
  "short_wait (Fin ms) \<longleftrightarrow> ms \<le> 10000"
| "short_wait PosInf \<longleftrightarrow> False"
| "short_wait _ \<longleftrightarrow> True"

fun op_fine :: "op \<Rightarrow> bool" where
  "op_fine (Throw e) \<longleftrightarrow> fine_exn e"
| "op_fine (Delay ms) \<longleftrightarrow> short_wait ms"
| "op_fine _ \<longleftrightarrow> True"

fun op_final :: "op \<Rightarrow> bool" where
  "op_final (End _) \<longleftrightarrow> True"
| "op_final SocketEnd \<longleftrightarrow> True"
| "op_final SocketReset \<longleftrightarrow> True"
| "op_final (Throw _) \<longleftrightarrow> True"
| "op_final _ \<longleftrightarrow> False"

fun op_delay :: "op \<Rightarrow> bool" where
  "op_delay (Delay _) \<longleftrightarrow> True"
| "op_delay _ \<longleftrightarrow> False"

text \<open>The packages behind the services throw ordinary errors, not the server's \<open>StatusError\<close>.\<close>

definition services_ok :: "services \<Rightarrow> bool" where
  "services_ok sv \<longleftrightarrow>
     (\<forall>k v e. cookie_serialize sv k v = Inl e \<longrightarrow> fine_exn e) \<and>
     (\<forall>name e. certDownload sv name = Some (Inl e) \<longrightarrow> fine_exn e)"

definition handler_ok :: "http_endpoint \<Rightarrow> bool" where
  "handler_ok ep \<longleftrightarrow>
     (\<forall>sv r path q. services_ok sv \<longrightarrow>
        list_all op_fine (handle ep sv r path q) \<and>
        length (filter op_delay (handle ep sv r path q)) \<le> 1 \<and>
        (present (getRemainingPath ep path) \<or> list_ex op_final (handle ep sv r path q)))"

text \<open>It composes along the combinators of the handlers.\<close>

definition ops_ok :: "op list \<Rightarrow> bool" where
  "ops_ok ops \<longleftrightarrow> list_all op_fine ops \<and> filter op_delay ops = [] \<and> list_ex op_final ops"

lemma ops_ok_respond [simp]: "ops_ok (respond_json v)"
  by (simp add: ops_ok_def respond_json_def)

lemma ops_ok_throw [simp]: "fine_exn e \<Longrightarrow> ops_ok [Throw e]"
  by (simp add: ops_ok_def)

lemma ops_ok_answer [simp]: "ops_ok [WriteHead c hs, End b]"
  by (simp add: ops_ok_def)

lemma map_sum_id_Inl [simp]: "map_sum id f x = Inl e \<longleftrightarrow> x = Inl e"
  by (cases x) auto

lemma description_error: "full_description sv r = Inl e \<Longrightarrow> fine_exn e"
proof -
  have cap: "map_fallible capitalize_part xs = Inl e \<Longrightarrow> fine_exn e" for xs e
    by (induction xs) (auto split: sum.splits elim: capitalize_part.elims)
  have "map_fallible header_entry xs = Inl e \<Longrightarrow> fine_exn e" for xs e
    using cap by (induction xs) (auto simp: header_entry_def capitalize_name_def split: sum.splits)
  moreover assume "full_description sv r = Inl e"
  ultimately show ?thesis
    by (fastforce simp: full_description_def capitalized_headers_def split: option.splits sum.splits)
qed

lemma ops_ok_with_data [simp]:
  "(\<And>v. ops_ok (k v)) \<Longrightarrow> ops_ok (with_data (buildHttpBinAnythingData sv r f) k)"
  using description_error [of sv r]
  by (cases "full_description sv r") (auto simp: with_data_def buildHttpBinAnythingData_def)

lemma ops_ok_anything [simp]: "ops_ok (buildHttpBinAnythingEndpoint f sv r)"
  by (simp add: buildHttpBinAnythingEndpoint_def)

lemma ops_ok_with_value: "(\<And>e. v = Inl e \<Longrightarrow> fine_exn e) \<Longrightarrow> (\<And>n. ops_ok (k n)) \<Longrightarrow> ops_ok (with_value v k)"
  by (cases v) (auto simp: with_value_def)

lemma ops_ok_if: "(b \<Longrightarrow> ops_ok xs) \<Longrightarrow> (\<not> b \<Longrightarrow> ops_ok ys) \<Longrightarrow> ops_ok (if b then xs else ys)"
  by simp

lemma ops_ok_middle:
  "ops_ok ([p] @ ops @ [End b])" if "op_fine p" "\<not> op_delay p" "list_all (\<lambda>p. op_fine p \<and> \<not> op_delay p) ops"
  using that by (auto simp: ops_ok_def list_all_iff filter_empty_conv)

lemma handler_ok_if:
  "(\<And>sv r path q. services_ok sv \<Longrightarrow> ops_ok (handle ep sv r path q)) \<Longrightarrow> handler_ok ep"
  by (simp add: handler_ok_def ops_ok_def)

lemma count_error_fine [simp]: "fine_exn (count_error w p)"
  by (simp add: count_error_def)

lemma parse_errors:
  "parseBytesN k path = Inl e \<Longrightarrow> fine_exn e"
  "parseStreamN path = Inl e \<Longrightarrow> fine_exn e"
  "parseRedirectN path pre = Inl e \<Longrightarrow> fine_exn e"
  by (auto simp: parseBytesN_def parseStreamN_def parseRedirectN_def split: option.splits if_splits)

lemmas ops_ok_intros = ops_ok_respond ops_ok_answer ops_ok_anything ops_ok_with_data ops_ok_if

section \<open>Every endpoint keeps it\<close>

lemma fixed_ok:
  "handler_ok json" "handler_ok xml" "handler_ok html" "handler_ok deny" "handler_ok robotsTxt"
  "handler_ok utf8Encoding" "handler_ok gzip" "handler_ok deflate" "handler_ok zstd" "handler_ok brotli"
  "handler_ok identity" "handler_ok examplePage" "handler_ok uuid" "handler_ok versionJson"
  by (intro handler_ok_if; simp add: json_def xml_def html_def deny_def robotsTxt_def utf8Encoding_def gzip_def
      deflate_def zstd_def brotli_def identity_def examplePage_def uuid_def versionJson_def encoded_answer_def)+

lemma closing_ok: "handler_ok closeEndpoint" "handler_ok resetEndpoint"
  by (intro handler_ok_if; simp add: closeEndpoint_def resetEndpoint_def ops_ok_def)+

lemma inspection_ok:
  "handler_ok anything" "handler_ok ip" "handler_ok headers" "handler_ok userAgent"
  "handler_ok getMethodEndpoint" "handler_ok nonGetMethodEndpoint" "handler_ok getCookies"
  "handler_ok deleteCookies" "handler_ok tlsClientHello" "handler_ok tlsFingerprint"
  by (intro handler_ok_if; simp add: anything_def ip_def headers_def userAgent_def getMethodEndpoint_def
      nonGetMethodEndpoint_def methodHandler_def getCookies_def deleteCookies_def tlsClientHello_def
      tlsFingerprint_def tlsClientHello_handle_def tlsFingerprint_handle_def not_tls_def Let_def split: option.split)+

lemma trailers_ok: "handler_ok trailers"
  by (intro handler_ok_if) (simp add: trailers_def trailers_handle_def Let_def ops_ok_def)

lemma setCookies_ok: "handler_ok setCookies"
proof (intro handler_ok_if)
  fix sv r path q assume sv: "services_ok sv"
  have "fine_exn e" if "map_fallible (\<lambda>(key, value). cookie_serialize sv key value) xs = Inl e" for xs e
    using that sv by (induction xs) (auto simp: services_ok_def split: sum.splits)
  then have "ops_ok (case map_fallible (\<lambda>(key, value). cookie_serialize sv key value) xs of
      Inl e \<Rightarrow> [Throw e] | Inr cs \<Rightarrow> [WriteHead c (f cs), End None])" for xs c f
    by (simp split: sum.split)
  then show "ops_ok (handle setCookies sv r path q)"
    unfolding setCookies_def setCookies_handle_def Let_def by simp
qed

lemma tlsCertificates_ok: "handler_ok tlsCertificates"
  by (intro handler_ok_if)
    (simp add: tlsCertificates_def tlsCertificates_handle_def Let_def services_ok_def split: option.split sum.split)

lemma echo_ok: "handler_ok echo"
proof (intro handler_ok_if)
  fix sv r path q
  have frame: "op_fine (writeFrame f x) \<and> \<not> op_delay (writeFrame f x)" for f x
    by (simp add: writeFrame_def Let_def)
  have "list_all (\<lambda>p. op_fine p \<and> \<not> op_delay p) (concat (map (later_frame r sid) fs))" for sid fs
    using frame by (induction fs) (auto simp: later_frame_def Let_def)
  then have "ops_ok ([WriteHead c hs] @ (map (\<lambda>f. writeFrame (frameToOutput f) None) gs @
      map (\<lambda>f. writeFrame (frameToOutput f) (Some r)) ss @ concat (map (later_frame r sid) ls)) @ [End None])"
    for c hs gs ss sid ls
    using frame by (intro ops_ok_middle) (auto simp: list_all_iff)
  then show "ops_ok (handle echo sv r path q)"
    by (simp add: echo_def echo_handle_def Let_def split: option.split)
qed

lemma responses_ok:
  "handler_ok status" "handler_ok redirectTo" "handler_ok cache" "handler_ok cacheWithAge" "handler_ok etag"
  "handler_ok basicAuth" "handler_ok hiddenBasicAuth" "handler_ok bearer" "handler_ok base64Decode"
  by (intro handler_ok_if; simp add: status_def redirectTo_def redirectTo_handle_def cache_def cacheWithAge_def
      etag_def etag_handle_def basicAuth_def basicAuth_handle_def hiddenBasicAuth_def bearer_def auth_ok_def
      base64Decode_def base64Decode_handle_def Let_def split: option.split)+

lemma redirects_ok: "handler_ok redirectN" "handler_ok relativeRedirectN" "handler_ok absoluteRedirectN"
  by (intro handler_ok_if; simp add: redirectN_def relativeRedirectN_def absoluteRedirectN_def redirect_answer_def
      ops_ok_with_value parse_errors)+

lemma responseHeaders_ok: "handler_ok responseHeaders"
  by (intro handler_ok_if)
    (auto simp: responseHeaders_def responseHeaders_handle_def Let_def ops_ok_def list_all_iff filter_empty_conv)

lemma bytes_ok: "handler_ok bytesEndpoint" "handler_ok streamBytesEndpoint" "handler_ok streamEndpoint"
proof (intro handler_ok_if)
  fix sv r path q
  show "ops_ok (handle bytesEndpoint sv r path q)"
    by (simp add: bytesEndpoint_def bytes_handle_def ops_ok_with_value parse_errors Let_def)
next
  have "ops_ok ([WriteHead c hs] @ ops @ [End None])"
    if "list_all (\<lambda>p. op_fine p \<and> \<not> op_delay p) ops" for c hs ops
    using that by (intro ops_ok_middle) auto
  then show "handler_ok streamBytesEndpoint"
    by (intro handler_ok_if) (auto simp: streamBytesEndpoint_def stream_bytes_handle_def list_all_iff
        dest: parse_errors intro!: ops_ok_with_value split: option.split)
next
  have "ops_ok ([WriteHead c hs] @ map (\<lambda>i. Write (g i)) ns @ [End None])" for c hs ns and g :: "nat \<Rightarrow> body"
    by (intro ops_ok_middle) (auto simp: list_all_iff)
  then show "handler_ok streamEndpoint"
    by (intro handler_ok_if) (auto simp: streamEndpoint_def stream_handle_def
        dest: parse_errors intro!: ops_ok_with_value ops_ok_with_data)
qed

lemma short_delay: "short_wait (scale_num (min_num v 10) 1000)"
  by (cases v) auto

lemma delay_ok: "handler_ok delayEndpoint"
  using ops_ok_anything
  by (simp add: handler_ok_def delayEndpoint_def delay_handle_def short_delay ops_ok_def)

lemma informational_ok: "handler_ok informational"
  by (simp add: handler_ok_def informational_def informational_handle_def sendInformational_def Let_def split: option.split)

lemma endpoints_ok: "ep \<in> set httpEndpoints \<Longrightarrow> handler_ok ep"
  by (simp add: httpEndpoints_def)
    (elim disjE; simp add: fixed_ok closing_ok inspection_ok trailers_ok setCookies_ok tlsCertificates_ok echo_ok
      responses_ok redirects_ok responseHeaders_ok bytes_ok delay_ok informational_ok)

section \<open>Running operations\<close>

definition settled :: "response \<Rightarrow> bool" where
  "settled res \<longleftrightarrow> writableEnded res \<or> socketClosed res"

lemma exec_error: "exec h2 p res = (Some e, res') \<Longrightarrow> op_fine p \<Longrightarrow> fine_exn e"
  by (cases p) (auto simp: write_head_def split: if_splits)

lemma exec_settled: "exec h2 p res = (None, res') \<Longrightarrow> settled res \<or> op_final p \<Longrightarrow> settled res'"
  by (cases p) (auto simp: settled_def write_head_def implicit_head_def split: if_splits)

lemma run_ops_fine:
  "run_ops h2 ops res = (Some e, res') \<Longrightarrow> list_all op_fine ops \<Longrightarrow> fine_exn e"
  by (induction h2 ops res rule: run_ops.induct) (auto split: prod.splits option.splits dest: exec_error)

lemma run_ops_settled:
  "run_ops h2 ops res = (None, res') \<Longrightarrow> settled res \<or> list_ex op_final ops \<Longrightarrow> settled res'"
proof (induction h2 ops res rule: run_ops.induct)
  case (2 h2 p ps res)
  then obtain res1 where "exec h2 p res = (None, res1)" "run_ops h2 ps res1 = (None, res')"
    by (auto split: prod.splits option.splits)
  then show ?case using 2 exec_settled by fastforce
qed simp

lemma run_chain_outcome:
  assumes "routes httpEndpoints h path es" and "present path" and "services_ok sv"
    and "run_chain sv r q es res = (x, res')"
  shows "case x of Some e \<Rightarrow> fine_exn e | None \<Rightarrow> settled res'"
  using assms
proof (induction arbitrary: res rule: routes.induct)
  case (step path ep es)
  have ok: "handler_ok ep" using find_endpoint_mem [OF step.hyps(2)] endpoints_ok by blast
  let ?ops = "handle ep sv r (the path) q"
  have ops: "list_all op_fine ?ops" "present (getRemainingPath ep (the path)) \<or> list_ex op_final ?ops"
    using ok step.prems(2) by (auto simp: handler_ok_def)
  show ?case
  proof (cases "writableEnded res")
    case True
    then show ?thesis using step.prems(3) by (auto simp: settled_def)
  next
    case False
    obtain y res1 where run: "run_ops (is_h2 r) ?ops res = (y, res1)" by force
    show ?thesis
    proof (cases y)
      case (Some e)
      then show ?thesis using run step.prems(3) False run_ops_fine [OF _ ops(1)] by auto
    next
      case None
      then have rest: "run_chain sv r q es res1 = (x, res')" using run step.prems(3) False by simp
      show ?thesis
      proof (cases "present (getRemainingPath ep (the path))")
        case True
        then show ?thesis using step.IH step.prems(2) rest by blast
      next
        case False
        then have "es = []" using step.hyps(3) by (auto elim: routes.cases)
        then show ?thesis using rest run_ops_settled [OF run [unfolded None]] ops(2) False by auto
      qed
    qed
  qed
qed simp

section \<open>Decisions\<close>

lemma match_error: "ep \<in> set httpEndpoints \<Longrightarrow> matchPath ep path h = Inl e \<Longrightarrow> fine_exn e"
proof -
  have *: "checked b (parseBytesN k path) = Inl e \<Longrightarrow> fine_exn e" "checked b (parseStreamN path) = Inl e \<Longrightarrow> fine_exn e"
    "checked b (parseRedirectN path pre) = Inl e \<Longrightarrow> fine_exn e" for b k pre
    by (auto simp: checked_def split: if_splits sum.splits dest: parse_errors)
  have "list_all (\<lambda>ep. matchPath ep path h = Inl e \<longrightarrow> fine_exn e) httpEndpoints"
    unfolding httpEndpoints_def list.pred_inject
    by (intro conjI impI; (simp add: http_endpoint_defs split: if_splits option.splits; fail)?)
      (auto simp: http_endpoint_defs split: if_splits option.splits dest: *)
  then show "ep \<in> set httpEndpoints \<Longrightarrow> matchPath ep path h = Inl e \<Longrightarrow> fine_exn e"
    unfolding list_all_iff by blast
qed

lemma find_error: "find_endpoint eps path h = Inl e \<Longrightarrow> \<exists>ep \<in> set eps. matchPath ep path h = Inl e"
  by (induction eps) (auto split: sum.splits bool.splits)

lemma chain_error: "chain_loop httpEndpoints i h entries path = Inl e \<Longrightarrow> fine_exn e"
proof (induction httpEndpoints i h entries path rule: chain_loop.induct)
  case (1 i h entries path)
  then show ?case
    by (subst (asm) (2) chain_loop.simps)
      (auto split: if_splits sum.splits option.splits simp: not_found_def too_deep_def
        dest: match_error find_error)
qed

fun decision_ok :: "decision \<Rightarrow> bool" where
  "decision_ok (Answer _ ops _) \<longleftrightarrow> ops_ok ops"
| "decision_ok (Fail e) \<longleftrightarrow> fine_exn e"
| "decision_ok (RunChain ops entries _ _) \<longleftrightarrow>
     list_all op_fine ops \<and> filter op_delay ops = [] \<and>
     (list_ex op_final ops \<and> entries = [] \<or>
      (\<exists>h path. present path \<and> routes httpEndpoints h path entries \<and> length entries \<le> Suc MAX_CHAIN_DEPTH))"

lemma cors_fine [simp]: "list_all op_fine (allowCORS r)" "filter op_delay (allowCORS r) = []"
  by (simp_all add: allowCORS_def)

lemma first_decision_ok:
  "decision_ok d \<Longrightarrow> (\<And>x. Some x \<in> set ds \<Longrightarrow> decision_ok x) \<Longrightarrow> decision_ok (first_decision ds d)"
  by (induction ds d rule: first_decision.induct) auto

lemma proxy_reject_ok: "proxy_reject opts sv r = Some d \<Longrightarrow> decision_ok d"
  by (auto simp: proxy_reject_def split: if_splits option.splits)

lemma misdirected_ok: "misdirected r = Some d \<Longrightarrow> decision_ok d"
  by (auto simp: misdirected_def Let_def split: if_splits)

lemma acme_challenge_ok: "acme_challenge opts path = Some d \<Longrightarrow> decision_ok d"
  by (auto simp: acme_challenge_def Let_def split: if_splits)

lemma docs_page_ok: "docs_page sv path prefix = Some d \<Longrightarrow> decision_ok d"
  by (auto simp: docs_page_def split: if_splits)

lemma redirect_host_no_error:
  "validateEndpointParts parts = None \<Longrightarrow> getLocalOnlyRedirectHost b domain parts \<noteq> Inl e"
proof
  assume "validateEndpointParts parts = None" and err: "getLocalOnlyRedirectHost b domain parts = Inl e"
  then obtain opts where "merge_entries [] (cert_entries parts) = Inr opts"
    using merge_entries_Inr_iff [OF entries_typed(2), of parts] by (auto simp: valid_iff)
  then show False using err
    by (auto simp: getLocalOnlyRedirectHost_def getCombinedCertOptions_eq split: if_splits)
qed

lemma host_guard_ok: "host_guard opts sv r base u = Some d \<Longrightarrow> decision_ok d"
  using redirect_host_no_error
  by (auto simp: host_guard_def Let_def split: if_splits option.splits sum.splits)

lemma run_endpoints_ok:
  assumes "pathname u \<noteq> [] \<or> req_method r = ''OPTIONS''"
  shows "decision_ok (run_endpoints r u prefix)"
proof (cases "resolveEndpointChain httpEndpoints (pathname u) prefix")
  case (Inl e)
  then have "fine_exn e" using chain_error by (simp add: resolveEndpointChain_def)
  then show ?thesis using Inl by (simp add: run_endpoints_def ops_ok_def)
next
  case (Inr entries)
  have "routes httpEndpoints prefix (Some (pathname u)) entries" "length entries \<le> Suc MAX_CHAIN_DEPTH"
    using Inr chain_loop_Inr [of "[]" httpEndpoints "pathname u" prefix "Some (pathname u)" entries]
    by (simp_all add: resolveEndpointChain_def)
  then show ?thesis using Inr assms
    by (auto simp: run_endpoints_def ops_ok_def present_def)
qed

text \<open>
  A request that passes all guards with a URL whose path is empty, as that of a URL with a scheme unknown to
  the URL standard is (\<open>foo://localhost\<close>): it matches no endpoint, and no error either.
\<close>

definition no_path :: "handler_options \<Rightarrow> services \<Rightarrow> request \<Rightarrow> bool" where
  "no_path opts sv r \<longleftrightarrow>
     proxy_reject opts sv r = None \<and> misdirected r = None \<and> req_method r \<noteq> ''OPTIONS'' \<and>
     (case newURL sv (req_url r) (request_url_base r) of
        None \<Rightarrow> False
      | Some u \<Rightarrow> pathname u = [] \<and> host_guard opts sv r (request_url_base r) u = None)"

lemma no_path_decision: "no_path opts sv r \<Longrightarrow> \<exists>q act. decide opts sv r = RunChain (allowCORS r) [] q act"
  by (auto simp: no_path_def decide_def acme_challenge_def docs_page_def run_endpoints_def resolveEndpointChain_def
      chain_loop.simps present_def Let_def split: option.splits)

lemma decide_ok:
  assumes "services_ok sv"
  shows "no_path opts sv r \<or> decision_ok (decide opts sv r)"
proof -
  define b where "b = request_url_base r"
  note defs = decide_def no_path_def Let_def b_def [symmetric]
  show ?thesis
  proof (cases "proxy_reject opts sv r = None \<and> misdirected r = None")
    case False
    then show ?thesis
      by (cases "proxy_reject opts sv r"; cases "misdirected r")
        (simp_all add: decide_def proxy_reject_ok misdirected_ok)
  next
    case guards: True
    show ?thesis
    proof (cases "newURL sv (req_url r) b")
      case None
      then show ?thesis using guards by (simp add: defs)
    next
      case (Some u)
      let ?prefix = "hostnamePrefix (hostname u) (rootDomain opts)"
      let ?ds = "[acme_challenge opts (pathname u), host_guard opts sv r b u, docs_page sv (pathname u) ?prefix]"
      have decision: "decide opts sv r = first_decision ?ds (run_endpoints r u ?prefix)"
        using guards Some by (simp add: defs)
      consider "pathname u \<noteq> [] \<or> req_method r = ''OPTIONS''"
        | d where "pathname u = []" "host_guard opts sv r b u = Some d"
        | "no_path opts sv r"
        using guards Some by (cases "host_guard opts sv r b u") (auto simp: defs)
      then show ?thesis
      proof cases
        case 1
        then have "decision_ok (run_endpoints r u ?prefix)" using run_endpoints_ok by blast
        then show ?thesis unfolding decision
          by (intro disjI2 first_decision_ok) (auto dest: sym acme_challenge_ok host_guard_ok docs_page_ok)
      next
        case 2
        then show ?thesis using host_guard_ok by (simp add: decision acme_challenge_def)
      qed simp
    qed
  qed
qed

section \<open>Which requests are answered\<close>

lemma cors_open:
  assumes "run_ops h2 (allowCORS r) new_response = (x, res)"
  shows "\<not> settled res"
proof -
  have "list_all (\<lambda>p. \<exists>k vs. p = SetHeader k vs) (allowCORS r)" by (simp add: allowCORS_def)
  moreover have "\<not> settled res'" if "list_all (\<lambda>p. \<exists>k vs. p = SetHeader k vs) ops" "run_ops h2 ops res = (x, res')" "\<not> settled res"
    for ops res res'
    using that by (induction h2 ops res rule: run_ops.induct) (auto simp: settled_def split: if_splits)
  moreover have "\<not> settled new_response" by (simp add: settled_def new_response_def)
  ultimately show ?thesis using assms by blast
qed

text \<open>A request that no one answers: the CORS headers are set and nothing follows.\<close>

definition left_open :: "handler_options \<Rightarrow> services \<Rightarrow> request \<Rightarrow> bool" where
  "left_open opts sv r \<longleftrightarrow> no_path opts sv r \<and> fst (run_ops (is_h2 r) (allowCORS r) new_response) = None"

lemma handleRequest_outcome:
  assumes "services_ok sv" and run: "handleRequest opts sv r = (x, res)" and answerable: "\<not> left_open opts sv r"
  shows "case x of Some e \<Rightarrow> fine_exn e | None \<Rightarrow> settled res"
proof (cases "no_path opts sv r")
  case True
  obtain e res1 where cors: "run_ops (is_h2 r) (allowCORS r) new_response = (Some e, res1)"
    using answerable True by (cases "run_ops (is_h2 r) (allowCORS r) new_response") (auto simp: left_open_def)
  then have "fine_exn e" using run_ops_fine cors_fine(1) by blast
  moreover have "x = Some e" using no_path_decision [OF True] cors run by (auto simp: handleRequest_def)
  ultimately show ?thesis by simp
next
  case False
  note ok = decide_ok [OF assms(1), of opts r]
  show ?thesis
  proof (cases "decide opts sv r")
    case (Answer l ops a)
    then have "ops_ok ops" using ok False by simp
    then show ?thesis using run Answer run_ops_fine run_ops_settled
      by (fastforce simp: handleRequest_def ops_ok_def split: option.split)
  next
    case (Fail e)
    then show ?thesis using run ok False by (auto simp: handleRequest_def)
  next
    case (RunChain ops entries q a)
    then have ops_fine: "list_all op_fine ops" and ends: "list_ex op_final ops \<and> entries = [] \<or>
        (\<exists>h path. present path \<and> routes httpEndpoints h path entries)"
      using ok False by auto
    obtain y res1 where ops: "run_ops (is_h2 r) ops new_response = (y, res1)" by force
    show ?thesis
    proof (cases y)
      case (Some e)
      then show ?thesis using run RunChain ops run_ops_fine [OF _ ops_fine] by (auto simp: handleRequest_def)
    next
      case None
      then have "run_chain sv r q entries res1 = (x, res)" using run RunChain ops by (simp add: handleRequest_def)
      then show ?thesis
        using ends run_chain_outcome [OF _ _ assms(1)] run_ops_settled [OF ops [unfolded None]] by auto
    qed
  qed
qed

lemma left_open_unsettled:
  assumes "left_open opts sv r"
  shows "\<not> settled (serve opts sv r)"
proof -
  obtain res where cors: "run_ops (is_h2 r) (allowCORS r) new_response = (None, res)"
    using assms by (cases "run_ops (is_h2 r) (allowCORS r) new_response") (auto simp: left_open_def)
  have "no_path opts sv r" using assms by (simp add: left_open_def)
  then obtain q act where "decide opts sv r = RunChain (allowCORS r) [] q act" by (metis no_path_decision)
  then have "handleRequest opts sv r = (None, res)" using cors by (simp add: handleRequest_def)
  then show ?thesis using cors_open [OF cors] by (simp add: serve_def http1_catch_def http2_catch_def)
qed

lemma catch_settled:
  assumes "fine_exn e"
  shows "settled (http1_catch (Some e, res))" and "settled (http2_catch (Some e, res))"
proof -
  have answer: "settled (snd (run_ops h2 [WriteHead (Some code) [], End (Some (Text msg))] res))"
    if "res_head res = None" "200 \<le> code" "code \<le> 500" for h2 code msg
    using that by (simp add: write_head_def status_ok_def valid_headers_def settled_def implicit_head_def)
  have close: "settled (res\<lparr>socketClosed := True\<rparr>)" "socketClosed res \<Longrightarrow> settled res"
    by (simp_all add: settled_def)
  show "settled (http1_catch (Some e, res))"
    using assms close answer [of 400] answer [of 404] answer [of 500] unfolding http1_catch_def failed_answer_def
    by (cases "res_head res"; cases e) (auto simp del: run_ops.simps)
  show "settled (http2_catch (Some e, res))"
    using close answer [of 500] unfolding http2_catch_def failed_answer_def
    by (cases "res_head res") (auto simp del: run_ops.simps)
qed


abbreviation (input) fixed_url_services :: "string \<Rightarrow> services" where
  "fixed_url_services path \<equiv> sample_services
    \<lparr>newURL := \<lambda>_ _. Some \<lparr>pathname = path, hostname = ''localhost'', searchParams = []\<rparr>\<rparr>"

definition sample_options :: handler_options where
  "sample_options = \<lparr>acmeChallengeCallback = (\<lambda>_. None), rootDomain = ''localhost'', usingPublicCA = False\<rparr>"

lemma sample_services_ok: "services_ok (fixed_url_services path)"
  by (auto simp: services_ok_def sample_services_def)


section \<open>Delays are bounded\<close>

lemma exec_waits:
  "exec h2 p res = (x, res') \<Longrightarrow> res_waits res' = res_waits res \<or> (\<exists>ms. p = Delay ms \<and> res_waits res' = res_waits res @ [ms])"
  by (cases p) (auto simp: write_head_def implicit_head_def split: if_splits)

lemma run_ops_waits:
  assumes "run_ops h2 ops res = (x, res')" and "list_all op_fine ops"
  shows "length (res_waits res') \<le> length (res_waits res) + length (filter op_delay ops) \<and>
    (list_all short_wait (res_waits res) \<longrightarrow> list_all short_wait (res_waits res'))"
  using assms
proof (induction h2 ops res rule: run_ops.induct)
  case (2 h2 p ps res)
  obtain y res1 where e: "exec h2 p res = (y, res1)" by force
  note w = exec_waits [OF e]
  show ?case
  proof (cases y)
    case (Some z)
    then show ?thesis using 2 e w by auto
  next
    case None
    then have "length (res_waits res') \<le> length (res_waits res1) + length (filter op_delay ps) \<and>
        (list_all short_wait (res_waits res1) \<longrightarrow> list_all short_wait (res_waits res'))"
      using 2 e by simp
    then show ?thesis using w 2(3) by auto
  qed
qed simp

lemma run_chain_waits:
  assumes "run_chain sv r q es res = (x, res')" and "list_all (\<lambda>(ep, p). handler_ok ep) es" and "services_ok sv"
  shows "length (res_waits res') \<le> length (res_waits res) + length es \<and>
    (list_all short_wait (res_waits res) \<longrightarrow> list_all short_wait (res_waits res'))"
  using assms(1,2)
proof (induction es arbitrary: res)
  case (Cons e es)
  obtain ep p where e: "e = (ep, p)" by force
  let ?ops = "handle ep sv r p q"
  have ops: "list_all op_fine ?ops" "length (filter op_delay ?ops) \<le> 1"
    using Cons.prems(2) assms(3) by (auto simp: e handler_ok_def)
  obtain y res1 where run: "run_ops (is_h2 r) ?ops res = (y, res1)" by force
  note w = run_ops_waits [OF run ops(1)]
  show ?case
  proof (cases "writableEnded res")
    case True
    then show ?thesis using Cons.prems(1) by (auto simp: e)
  next
    case going: False
    show ?thesis
    proof (cases y)
      case (Some z)
      then have "res' = res1" using Cons.prems(1) run going by (simp add: e)
      then show ?thesis using w ops(2) by auto
    next
      case None
      then have "run_chain sv r q es res1 = (x, res')" using Cons.prems(1) run going by (simp add: e)
      then show ?thesis using Cons.IH [of res1] Cons.prems(2) w ops(2) by auto
    qed
  qed
qed simp

lemma handleRequest_waits:
  assumes "services_ok sv" and run: "handleRequest opts sv r = (x, res)"
  shows "length (res_waits res) \<le> Suc MAX_CHAIN_DEPTH \<and> list_all short_wait (res_waits res)"
proof -
  have new: "res_waits new_response = []" by (simp add: new_response_def)
  have ok: "decision_ok (decide opts sv r) \<or> (\<exists>q act. decide opts sv r = RunChain (allowCORS r) [] q act)"
    using decide_ok [OF assms(1), of opts r] no_path_decision by blast
  show ?thesis
  proof (cases "decide opts sv r")
    case (Answer l ops a)
    then show ?thesis using run ok run_ops_waits [of "is_h2 r" ops new_response x res]
      by (simp add: handleRequest_def ops_ok_def new)
  next
    case (Fail e)
    then show ?thesis using run by (auto simp: handleRequest_def new)
  next
    case (RunChain ops entries q a)
    then have ops: "list_all op_fine ops" "filter op_delay ops = []"
      and entries: "length entries \<le> Suc MAX_CHAIN_DEPTH" "\<forall>(ep, p) \<in> set entries. ep \<in> set httpEndpoints"
      using ok by (auto dest!: routes_mem)
    then have handlers: "list_all (\<lambda>(ep, p). handler_ok ep) entries"
      using endpoints_ok by (auto simp: list_all_iff)
    obtain y res1 where first: "run_ops (is_h2 r) ops new_response = (y, res1)" by force
    then have w: "res_waits res1 = []" using run_ops_waits [OF first ops(1)] ops(2) by (simp add: new)
    then show ?thesis
      using run RunChain first run_chain_waits [OF _ handlers assms(1), of r q res1 x res] entries(1)
      by (cases y) (auto simp: handleRequest_def)
  qed
qed

text \<open>
  C38: The pauses of a request are bounded whatever the durations in its path (\<open>Infinity\<close>
  included): there are at most eleven, one for each entry of the longest chain, and none is longer
  than ten seconds.
\<close>

theorem delays_bounded:
  assumes "services_ok sv"
  shows "length (res_waits (serve opts sv r)) \<le> 11 \<and>
    list_all short_wait (res_waits (serve opts sv r))"
proof -
  obtain x res where run: "handleRequest opts sv r = (x, res)" by force
  have ans: "res_waits (snd (run_ops h2 [WriteHead c [], End b] res)) = res_waits res" for h2 c b
    by (auto simp: write_head_def implicit_head_def)
  have "res_waits (serve opts sv r) = res_waits res"
    using ans by (cases x) (auto simp: serve_def run http1_catch_def http2_catch_def failed_answer_def
        simp del: run_ops.simps split: js_exn.split)
  then show ?thesis using handleRequest_waits [OF assms run] by (simp add: MAX_CHAIN_DEPTH_def)
qed

theorem delays_bounded_witness:
  "list_all short_wait (res_waits (serve sample_options (fixed_url_services ''/delay/Infinity'')
      (sample_request ''/delay/Infinity'' [])))"
  using delays_bounded [of "fixed_url_services ''/delay/Infinity''" sample_options "sample_request ''/delay/Infinity'' []"]
  by (simp add: sample_services_ok)

end
