(* ===== verification/Http_Results.thy ===== *)
theory Http_Results
  imports Http_Handler
begin

text \<open>
  What particular HTTP endpoints promise: the base64 decoder accepts exactly the canonical
  encodings, seeded byte streams equal the byte documents, and redirect chains end at \<open>/get\<close>
  after the announced number of steps.
\<close>

section \<open>Base64\<close>

text \<open>
  C36: \<open>/base64/\<close> answers with the bytes of which its path is an encoding, in either alphabet
  and with or without padding, and with the error text exactly when there are no such bytes.
\<close>

theorem base64_answers:
  "(handle base64Decode sv r (''/base64/'' @ s) q = [WriteHead (Some 200) html_headers, End (Some (Raw bs))] \<longleftrightarrow>
     strip_padding (base64_normalize s) = strip_padding (base64_encode bs)) \<and>
   (handle base64Decode sv r (''/base64/'' @ s) q = [WriteHead (Some 200) html_headers, End (Some (Text base64_error))] \<longleftrightarrow>
     (\<nexists>cs. strip_padding (base64_normalize s) = strip_padding (base64_encode cs)))"
  using decode_canonical [of "base64_normalize s"]
  by (auto simp: base64Decode_def base64Decode_handle_def Let_def) metis+

section \<open>Seeded bytes\<close>

fun body_bytes :: "body list \<Rightarrow> bytes" where
  "body_bytes [] = []"
| "body_bytes (Raw bs # r) = bs @ body_bytes r"
| "body_bytes (Text s # r) = map of_char s @ body_bytes r"

lemma body_bytes_append [simp]: "body_bytes (xs @ ys) = body_bytes xs @ body_bytes ys"
  by (induction xs rule: body_bytes.induct) simp_all

definition digest32 :: "services \<Rightarrow> bool" where
  "digest32 sv \<longleftrightarrow> (\<forall>s. length (sha256 sv s) = 32)"

text \<open>The hash chain from a counter on, in whole digests.\<close>

definition digests :: "services \<Rightarrow> string \<Rightarrow> nat \<Rightarrow> nat \<Rightarrow> bytes" where
  "digests sv seed counter k = concat (map (seed_hash sv seed) [counter..<counter + k])"

lemma digests_Suc: "digests sv s c (Suc k) = seed_hash sv s c @ digests sv s (Suc c) k"
  unfolding digests_def by (simp add: upt_conv_Cons del: upt_Suc)

lemma digests_append: "digests sv s c (j + k) = digests sv s c j @ digests sv s (c + j) k"
  using upt_add_eq_append [of c "c + j" k] by (simp add: digests_def add.assoc)

lemma digests_length: "digest32 sv \<Longrightarrow> length (digests sv s c k) = 32 * k"
  by (induction k arbitrary: c) (simp_all add: digests_Suc seed_hash_def digest32_def, simp add: digests_def)

lemma seeded_parts_digests:
  assumes "digest32 sv"
  shows "concat (fst (seeded_parts sv s c n)) = take n (digests sv s c ((n + 31) div 32)) \<and>
   snd (seeded_parts sv s c n) = c + (n + 31) div 32"
proof (induction n arbitrary: c rule: less_induct)
  case (less n)
  show ?case
  proof (cases "n = 0")
    case True
    then show ?thesis by (simp add: seeded_parts.simps)
  next
    case False
    have k: "(n + 31) div 32 = Suc ((n - 32 + 31) div 32)" using False by (cases "n \<le> 32") auto
    have len: "length (seed_hash sv s c) = 32" using assms by (simp add: seed_hash_def digest32_def)
    obtain parts c' where rec: "seeded_parts sv s (Suc c) (n - HASH_LENGTH) = (parts, c')" by force
    have "concat parts = take (n - 32) (digests sv s (Suc c) ((n - 32 + 31) div 32))"
      "c' = Suc c + (n - 32 + 31) div 32"
      using less [of "n - 32" "Suc c"] rec False by (simp_all add: HASH_LENGTH_def)
    then show ?thesis
      using False rec len unfolding seeded_parts.simps [of sv s c n] k digests_Suc
      by (auto simp: Let_def min_def)
  qed
qed

lemma buffer_concat_length [simp]: "length (buffer_concat parts n) = n"
  by (simp add: buffer_concat_def)

lemma buffer_concat_full: "length (concat parts) = n \<Longrightarrow> buffer_concat parts n = concat parts"
  by (simp add: buffer_concat_def)

lemma seeded_chunk:
  assumes "digest32 sv"
  shows "buffer_concat (fst (seeded_parts sv s c n)) n = take n (digests sv s c ((n + 31) div 32))"
proof -
  have "n \<le> 32 * ((n + 31) div 32)" by linarith
  then have "length (concat (fst (seeded_parts sv s c n))) = n"
    using seeded_parts_digests [OF assms, of s c n] digests_length [OF assms] by simp
  then show ?thesis using buffer_concat_full seeded_parts_digests [OF assms, of s c n] by metis
qed

lemma stream_chunks_digests:
  assumes "digest32 sv" and "32 dvd m \<or> n \<le> m" and "0 < m"
  shows "concat (stream_chunks sv (Some s) m c n) = take n (digests sv s c ((n + 31) div 32))"
  using assms(2)
proof (induction n arbitrary: c rule: less_induct)
  case (less n)
  note unfold = stream_chunks.simps [of sv "Some s" m c n]
  have chunk: "case seeded_parts sv s c k of (parts, c') \<Rightarrow>
      buffer_concat parts k = take k (digests sv s c ((k + 31) div 32)) \<and> c' = c + (k + 31) div 32" for k
    using seeded_chunk [OF assms(1), of s c k] seeded_parts_digests [OF assms(1), of s c k]
    by (cases "seeded_parts sv s c k") simp
  show ?case
  proof (cases "n \<le> m")
    case True
    have "stream_chunks sv (Some s) m c' 0 = []" for c' by (simp add: stream_chunks.simps)
    then show ?thesis using True chunk [of n] assms(3) by (auto simp: unfold Let_def split: prod.splits)
  next
    case False
    then obtain j where m: "m = 32 * j" using less.prems by (auto elim: dvdE)
    have n: "(n + 31) div 32 = j + (n - m + 31) div 32" using False by (simp add: m) 
    have "(m + 31) div 32 = j" by (simp add: m)
    then have "concat (stream_chunks sv (Some s) m c n) =
        take m (digests sv s c j) @ concat (stream_chunks sv (Some s) m (c + j) (n - m))"
      using False chunk [of m] assms(3) by (auto simp: unfold Let_def split: prod.splits)
    also have "concat (stream_chunks sv (Some s) m (c + j) (n - m)) =
        take (n - m) (digests sv s (c + j) ((n - m + 31) div 32))"
      using less.IH [of "n - m" "c + j"] False assms(3) m by simp
    finally show ?thesis
      unfolding n digests_append using False digests_length [OF assms(1), of s c j] by (simp add: m)
  qed
qed

lemma run_writes:
  "run_ops h2 (map (\<lambda>b. Write (Raw b)) bs @ [End None]) res =
    (None, res\<lparr>res_body := res_body res @ map Raw bs, writableEnded := True\<rparr>)"
  if "res_head res = Some hd0" and "\<not> writableEnded res"
  using that by (induction bs arbitrary: res) (auto simp: implicit_head_def)

lemma body_bytes_Raw [simp]: "body_bytes (map Raw bs) = concat bs"
  by (induction bs) simp_all

lemma octet_valid [simp]: "valid_headers octet_headers"
  by code_simp

lemma int_str_valid: "valid_headers [(''content-length'', int_str (int n))]"
proof -
  have "valid_header_name ''content-length''" by code_simp
  moreover have "valid_header_value (nat_str n)"
    unfolding valid_header_value_def list_all_iff Let_def
    using nat_str_digits [of _ n] by (fastforce simp: is_digit_def)
  ultimately show ?thesis by (simp add: valid_headers_def int_str_def)
qed

text \<open>
  C37: With a seed, \<open>/stream-bytes/n\<close> sends exactly the bytes of \<open>/bytes/n\<close>, whenever the chunk
  size is a multiple of 32 (as the default is) or at least \<open>n\<close>.
\<close>

theorem stream_bytes_match:
  assumes "digest32 sv" and "int n \<le> MAX_BYTES" and "query_get q ''seed'' = Some seed"
    and "chunk_size q = Some c" and "32 dvd c \<or> int n \<le> c"
  shows "body_bytes (res_body (snd (run_ops h2
        (handle streamBytesEndpoint sv r (''/stream-bytes/'' @ nat_str n) q) new_response))) =
      body_bytes (res_body (snd (run_ops h2 (handle bytesEndpoint sv r (''/bytes/'' @ nat_str n) q) new_response)))"
proof -
  have "1 \<le> c" using assms(4) by (auto simp: chunk_size_def)
  moreover have "32 dvd c \<Longrightarrow> 32 dvd nat c" by (auto elim!: dvdE simp: nat_mult_distrib)
  ultimately have c: "0 < nat c" "32 dvd nat c \<or> n \<le> nat c" using assms(5) by auto
  have parse: "parseBytesN 7 (''/bytes/'' @ nat_str n) = Inr (int n)"
    "parseBytesN 14 (''/stream-bytes/'' @ nat_str n) = Inr (int n)"
    using assms(2) by (simp_all add: parseBytesN_def)
  let ?res = "new_response\<lparr>res_head := Some (200, octet_headers)\<rparr>"
  have "run_ops h2 (handle streamBytesEndpoint sv r (''/stream-bytes/'' @ nat_str n) q) new_response =
      run_ops h2 (map (\<lambda>b. Write (Raw b)) (stream_chunks sv (Some seed) (nat c) 0 n) @ [End None]) ?res"
    using parse(2) assms(3,4)
    by (simp add: streamBytesEndpoint_def stream_bytes_handle_def with_value_def write_head_def new_response_def status_ok_def o_def)
  also have "\<dots> = (None, ?res\<lparr>res_body := map Raw (stream_chunks sv (Some seed) (nat c) 0 n), writableEnded := True\<rparr>)"
    by (subst run_writes) (simp_all add: new_response_def)
  finally have stream: "res_body (snd (run_ops h2 (handle streamBytesEndpoint sv r (''/stream-bytes/'' @ nat_str n) q) new_response)) =
      map Raw (stream_chunks sv (Some seed) (nat c) 0 n)" by simp
  have "valid_headers (octet_headers @ [(''content-length'', int_str (int n))])"
    using int_str_valid octet_valid by (simp add: valid_headers_def)
  then have "res_body (snd (run_ops h2 (handle bytesEndpoint sv r (''/bytes/'' @ nat_str n) q) new_response)) =
      [Raw (bytes_data sv (Some seed) n)]"
    using parse(1) assms(3)
    by (simp add: bytesEndpoint_def bytes_handle_def with_value_def Let_def write_head_def new_response_def
        status_ok_def implicit_head_def)
  then show ?thesis
    using stream stream_chunks_digests [OF assms(1) c(2,1)] seeded_chunk [OF assms(1)]
    by (simp add: bytes_data_def)
qed

theorem stream_bytes_match_witness:
  "body_bytes (res_body (snd (run_ops False (handle streamBytesEndpoint sample_services (sample_request ''/stream-bytes/70'' [])
        (''/stream-bytes/'' @ nat_str 70) [(''seed'', ''x''), (''chunk_size'', ''64'')]) new_response))) =
    body_bytes (res_body (snd (run_ops False (handle bytesEndpoint sample_services (sample_request ''/stream-bytes/70'' [])
        (''/bytes/'' @ nat_str 70) [(''seed'', ''x''), (''chunk_size'', ''64'')]) new_response)))"
proof (rule stream_bytes_match)
  show "digest32 sample_services" by (simp add: digest32_def sample_services_def)
  show "chunk_size [(''seed'', ''x''), (''chunk_size'', ''64'')] = Some 64" by code_simp
qed (simp_all add: MAX_BYTES_def query_get_def)

section \<open>Redirect chains\<close>

definition redirects_to :: "services \<Rightarrow> request \<Rightarrow> string option \<Rightarrow> string \<Rightarrow> string \<Rightarrow> bool" where
  "redirects_to sv r h path target \<longleftrightarrow>
     (\<exists>ep res. find_endpoint httpEndpoints path h = Inr (Some ep) \<and>
        run_ops (is_h2 r) (handle ep sv r path []) new_response = (None, res) \<and>
        res_head res = Some (302, [(''location'', target)]))"

lemma digits_matched:
  "matches_digits pre (pre @ nat_str n)"
  using nat_str_digits [of _ n] by (simp add: matches_digits_def starts_with_def list_all_iff)

lemma redirect_count: "1 \<le> n \<Longrightarrow> n \<le> 100 \<Longrightarrow> parseRedirectN (pre @ nat_str n) pre = Inr (int n)"
  by (simp add: parseRedirectN_def MAX_REDIRECTS_def)

lemma location_valid: "valid_headers [(''location'', relative_location (int n))]"
proof -
  have "valid_header_name ''location''" "valid_header_value ''/get''" "valid_header_value ''/relative-redirect/''"
    by code_simp+
  moreover have "valid_header_value (nat_str k)" for k
    unfolding valid_header_value_def list_all_iff Let_def
    using nat_str_digits [of _ k] by (fastforce simp: is_digit_def)
  moreover have "int_str (int n - 1) = nat_str (n - 1)" if "1 < n"
    using that by (simp add: int_str_def nat_diff_distrib)
  ultimately show ?thesis
    by (auto simp: valid_headers_def relative_location_def valid_header_value_def)
qed

lemma redirect_step:
  assumes "ep \<in> set httpEndpoints" and "starts_with path ''/''" and "matchPath ep path h = Inr True"
    and "handle ep sv r path [] = redirect_answer 302 (relative_location (int n))"
  shows "redirects_to sv r h path (relative_location (int n))"
  unfolding redirects_to_def
  using http_find [OF assms(1,3,2)] location_valid [of n] assms(4)
  by (simp add: redirect_answer_def write_head_def new_response_def status_ok_def implicit_head_def)

lemma redirects_mem [simp]: "redirectN \<in> set httpEndpoints" "relativeRedirectN \<in> set httpEndpoints"
  by (simp_all add: httpEndpoints_def)

lemma redirect_steps:
  assumes "1 \<le> n" and "n \<le> 100"
  shows "redirects_to sv r h (''/redirect/'' @ nat_str n) (relative_location (int n))"
    and "redirects_to sv r h (''/relative-redirect/'' @ nat_str n) (relative_location (int n))"
proof -
  note count = digits_matched redirect_count [OF assms]
  show "redirects_to sv r h (''/redirect/'' @ nat_str n) (relative_location (int n))"
    using count [of "''/redirect/''"] by (intro redirect_step [OF redirects_mem(1)])
      (simp_all add: redirectN_def checked_def with_value_def starts_with_def)
  show "redirects_to sv r h (''/relative-redirect/'' @ nat_str n) (relative_location (int n))"
    using count [of "''/relative-redirect/''"] by (intro redirect_step [OF redirects_mem(2)])
      (simp_all add: relativeRedirectN_def checked_def with_value_def starts_with_def)
qed

lemma relative_chain:
  "1 \<le> n \<Longrightarrow> n \<le> 100 \<Longrightarrow> (redirects_to sv r h ^^ n) (''/relative-redirect/'' @ nat_str n) ''/get''"
proof (induction n rule: nat_induct_at_least)
  case base
  then show ?case using redirect_steps(2) [of 1 sv r h] by (simp add: relative_location_def eq_OO)
next
  case (Suc n)
  have "relative_location (int (Suc n)) = ''/relative-redirect/'' @ nat_str n"
    using Suc.hyps by (simp add: relative_location_def int_str_def)
  then have "redirects_to sv r h (''/relative-redirect/'' @ nat_str (Suc n)) (''/relative-redirect/'' @ nat_str n)"
    using redirect_steps(2) [of "Suc n" sv r h] Suc.prems by simp
  then show ?case using Suc relpowp_Suc_I2 [of "redirects_to sv r h"] by simp
qed

text \<open>
  Following \<open>/redirect/n\<close> reaches \<open>/get\<close> after exactly \<open>n\<close> redirects, for every count that
  is accepted, over both protocols and under any host name.
\<close>

theorem redirect_chain_ends:
  assumes "1 \<le> n" and "int n \<le> MAX_REDIRECTS"
  shows "(redirects_to sv r h ^^ n) (''/redirect/'' @ nat_str n) ''/get''"
proof -
  obtain m where n: "n = Suc m" using assms(1) by (cases n) auto
  have le: "n \<le> 100" using assms(2) by (simp add: MAX_REDIRECTS_def)
  note first = redirect_steps(1) [OF assms(1) le, of sv r h]
  show ?thesis
  proof (cases "m = 0")
    case True
    then show ?thesis using first by (simp add: n relative_location_def eq_OO)
  next
    case False
    then have "relative_location (int n) = ''/relative-redirect/'' @ nat_str m"
      by (simp add: n relative_location_def int_str_def)
    moreover have "(redirects_to sv r h ^^ m) (''/relative-redirect/'' @ nat_str m) ''/get''"
      using relative_chain [of m sv r h] False le by (simp add: n)
    ultimately show ?thesis unfolding n using first relpowp_Suc_I2 [of "redirects_to sv r h"] n by simp
  qed
qed

theorem redirect_chain_ends_witness:
  "(redirects_to sample_services (sample_request ''/redirect/3'' []) None ^^ 3) (''/redirect/'' @ nat_str 3) ''/get''"
  by (rule redirect_chain_ends) (simp_all add: MAX_REDIRECTS_def)

end
