(* ===== verification/Cert_Definitions.thy ===== *)
theory Cert_Definitions
  imports Tls_Merge
begin

text \<open>
  \<^verbatim>\<open>src/tls-certificates/cert-definitions.ts\<close>: the cache key of a certificate and the leaf of
  a PEM chain. Certificate options are the merged option objects of \<open>Tls_Merge\<close>. The key of a
  certificate determines the domain and exactly the options that are written into it.
\<close>

section \<open>The code\<close>

fun truthy :: "optval \<Rightarrow> bool" where
  "truthy OUndef \<longleftrightarrow> False"
| "truthy (OBool b) \<longleftrightarrow> b"
| "truthy (ONum n) \<longleftrightarrow> n \<noteq> 0"
| "truthy (OStr s) \<longleftrightarrow> s \<noteq> []"
| "truthy (OFlags w) \<longleftrightarrow> w \<noteq> 0"
| "truthy _ \<longleftrightarrow> True"

text \<open>\<open>String(v)\<close> of the values that certificate options have.\<close>

fun opt_text :: "optval \<Rightarrow> string" where
  "opt_text (OStr s) = s"
| "opt_text v = json_opt v"

definition cert_flags :: "string list" where
  "cert_flags = [''expired'', ''revoked'', ''selfSigned'', ''noCommonName'', ''sha1Signature'']"

definition key_parts :: "options \<Rightarrow> string list" where
  "key_parts options =
     filter (\<lambda>k. truthy (get options k)) cert_flags @
     (if truthy (get options ''overridePrefix'') then [''override='' @ opt_text (get options ''overridePrefix'')] else []) @
     (if truthy (get options ''keyBits'') then [''keyBits='' @ opt_text (get options ''keyBits'')] else [])"

definition calculateCertCacheKey :: "string \<Rightarrow> options \<Rightarrow> string" where
  "calculateCertCacheKey domain options = domain @ ''+'' @ join ''+'' (key_parts options)"

definition BEGIN_CERT :: string where
  "BEGIN_CERT = ''-----BEGIN CERTIFICATE-----''"

definition END_CERT :: string where
  "END_CERT = ''-----END CERTIFICATE-----''"

text \<open>
  The first match of \<open>/-----BEGIN CERTIFICATE-----[\s\S]*?-----END CERTIFICATE-----/g\<close>: from the
  first opening line to the nearest closing line after it.
\<close>

definition extractLeafCertificate :: "string \<Rightarrow> string fallible" where
  "extractLeafCertificate certChainPem =
     (case find_sub BEGIN_CERT certChainPem of
        None \<Rightarrow> Inl (JsError ''Could not find any certificate in chain PEM'')
      | Some i \<Rightarrow>
          (case index_from END_CERT (i + length BEGIN_CERT) certChainPem of
             None \<Rightarrow> Inl (JsError ''Could not find any certificate in chain PEM'')
           | Some j \<Rightarrow> Inr (js_slice i (j + length END_CERT) certChainPem @ [CHR 0x0A])))"

section \<open>The key determines the certificate\<close>

text \<open>Options as the endpoints give them: flags, a prefix without \<open>+\<close>, a number of bits.\<close>

definition cert_typed :: "options \<Rightarrow> bool" where
  "cert_typed options \<longleftrightarrow>
     list_all (\<lambda>k. case get options k of OUndef \<Rightarrow> True | OBool _ \<Rightarrow> True | _ \<Rightarrow> False) cert_flags \<and>
     (case get options ''overridePrefix'' of OUndef \<Rightarrow> True | OStr s \<Rightarrow> CHR ''+'' \<notin> set s | _ \<Rightarrow> False) \<and>
     (case get options ''keyBits'' of OUndef \<Rightarrow> True | ONum n \<Rightarrow> 0 \<le> n | _ \<Rightarrow> False)"

definition same_certificate :: "options \<Rightarrow> options \<Rightarrow> bool" where
  "same_certificate o1 o2 \<longleftrightarrow>
     list_all (\<lambda>k. truthy (get o1 k) = truthy (get o2 k)) (cert_flags @ [''overridePrefix'', ''keyBits'']) \<and>
     list_all (\<lambda>k. truthy (get o1 k) \<longrightarrow> get o1 k = get o2 k) [''overridePrefix'', ''keyBits'']"

lemma opt_text_inj:
  assumes "truthy (get o1 ''overridePrefix'')" "truthy (get o2 ''overridePrefix'')" "cert_typed o1" "cert_typed o2"
    and "opt_text (get o1 ''overridePrefix'') = opt_text (get o2 ''overridePrefix'')"
  shows "get o1 ''overridePrefix'' = get o2 ''overridePrefix''"
  using assms by (auto simp: cert_typed_def split: optval.splits)

lemma opt_bits_inj:
  assumes "truthy (get o1 ''keyBits'')" "truthy (get o2 ''keyBits'')" "cert_typed o1" "cert_typed o2"
    and "opt_text (get o1 ''keyBits'') = opt_text (get o2 ''keyBits'')"
  shows "get o1 ''keyBits'' = get o2 ''keyBits''"
  using assms by (auto simp: cert_typed_def int_str_def split: optval.splits)

lemma key_parts_plain:
  assumes "cert_typed options" and "p \<in> set (key_parts options)"
  shows "CHR ''+'' \<notin> set p \<and> p \<noteq> []"
proof -
  have "CHR ''+'' \<notin> set (opt_text (get options ''overridePrefix''))" if "truthy (get options ''overridePrefix'')"
    using that assms(1) by (auto simp: cert_typed_def split: optval.splits)
  moreover have "CHR ''+'' \<notin> set (nat_str n)" for n
    using nat_str_no_char [of "CHR ''+''"] by (simp add: is_digit_def)
  then have "CHR ''+'' \<notin> set (opt_text (get options ''keyBits''))" if "truthy (get options ''keyBits'')"
    using that assms(1) by (auto simp: cert_typed_def int_str_def split: optval.splits)
  ultimately show ?thesis
    using assms(2) by (auto simp: key_parts_def cert_flags_def split: if_splits)
qed

lemma cache_key_split:
  assumes "CHR ''+'' \<notin> set domain" and "cert_typed options"
  shows "split_seq ''+'' (calculateCertCacheKey domain options) =
    domain # (if key_parts options = [] then [[]] else key_parts options)"
proof -
  have plain: "\<And>p. p \<in> set (domain # key_parts options) \<Longrightarrow> CHR ''+'' \<notin> set p"
    using assms key_parts_plain by auto
  show ?thesis
  proof (cases "key_parts options = []")
    case True
    then show ?thesis using assms(1) split_char_step [of "CHR ''+''" domain "[]"]
      by (simp add: calculateCertCacheKey_def split_char_single)
  next
    case False
    then have "calculateCertCacheKey domain options = join ''+'' (domain # key_parts options)"
      by (simp add: calculateCertCacheKey_def join_Cons)
    then show ?thesis using split_char_join [of "domain # key_parts options" "CHR ''+''"] plain False by simp
  qed
qed

lemma key_parts_flag: "k \<in> set cert_flags \<Longrightarrow> k \<in> set (key_parts options) \<longleftrightarrow> truthy (get options k)"
  by (auto simp: key_parts_def cert_flags_def split: if_splits)

lemma key_parts_override:
  "''override='' @ s \<in> set (key_parts options) \<longleftrightarrow>
     truthy (get options ''overridePrefix'') \<and> s = opt_text (get options ''overridePrefix'')"
  by (auto simp: key_parts_def cert_flags_def split: if_splits)

lemma key_parts_bits:
  "''keyBits='' @ s \<in> set (key_parts options) \<longleftrightarrow>
     truthy (get options ''keyBits'') \<and> s = opt_text (get options ''keyBits'')"
  by (auto simp: key_parts_def cert_flags_def split: if_splits)

lemma key_parts_eq_iff:
  assumes "cert_typed o1" and "cert_typed o2"
  shows "key_parts o1 = key_parts o2 \<longleftrightarrow> same_certificate o1 o2"
proof
  assume eq: "key_parts o1 = key_parts o2"
  have flags: "truthy (get o1 k) = truthy (get o2 k)" if "k \<in> set cert_flags" for k
    using key_parts_flag [OF that] eq by metis
  have override: "truthy (get o1 ''overridePrefix'') = truthy (get o2 ''overridePrefix'')"
    "truthy (get o1 ''overridePrefix'') \<Longrightarrow> get o1 ''overridePrefix'' = get o2 ''overridePrefix''"
    using key_parts_override eq opt_text_inj assms by metis+
  have bits: "truthy (get o1 ''keyBits'') = truthy (get o2 ''keyBits'')"
    "truthy (get o1 ''keyBits'') \<Longrightarrow> get o1 ''keyBits'' = get o2 ''keyBits''"
    using key_parts_bits eq opt_bits_inj assms by metis+
  show "same_certificate o1 o2"
    unfolding same_certificate_def list_all_iff using flags override bits by auto
next
  assume same: "same_certificate o1 o2"
  have flags: "filter (\<lambda>k. truthy (get o1 k)) cert_flags = filter (\<lambda>k. truthy (get o2 k)) cert_flags"
    by (rule filter_cong) (use same in \<open>auto simp: same_certificate_def list_all_iff\<close>)
  have valued: "(if truthy (get o1 k) then [p @ opt_text (get o1 k)] else []) =
      (if truthy (get o2 k) then [p @ opt_text (get o2 k)] else [])"
    if "k = ''overridePrefix'' \<or> k = ''keyBits''" for k p
    using same that unfolding same_certificate_def list_all_iff by fastforce
  show "key_parts o1 = key_parts o2"
    unfolding key_parts_def flags valued [OF disjI1 [OF refl]] valued [OF disjI2 [OF refl]] ..
qed

lemma cert_key_eq:
  assumes "CHR ''+'' \<notin> set d1" and "CHR ''+'' \<notin> set d2" and "cert_typed o1" and "cert_typed o2"
  shows "calculateCertCacheKey d1 o1 = calculateCertCacheKey d2 o2 \<longleftrightarrow> d1 = d2 \<and> same_certificate o1 o2"
proof
  assume "calculateCertCacheKey d1 o1 = calculateCertCacheKey d2 o2"
  then have "d1 # (if key_parts o1 = [] then [[]] else key_parts o1) =
      d2 # (if key_parts o2 = [] then [[]] else key_parts o2)"
    using cache_key_split assms by metis
  moreover have "[] \<notin> set (key_parts o1)" "[] \<notin> set (key_parts o2)"
    using key_parts_plain assms(3,4) by blast+
  ultimately have "d1 = d2" "key_parts o1 = key_parts o2" by (auto split: if_splits) (metis list.set_intros(1))
  then show "d1 = d2 \<and> same_certificate o1 o2" using key_parts_eq_iff assms(3,4) by simp
next
  assume "d1 = d2 \<and> same_certificate o1 o2"
  then show "calculateCertCacheKey d1 o1 = calculateCertCacheKey d2 o2"
    using key_parts_eq_iff [OF assms(3,4)] by (simp add: calculateCertCacheKey_def)
qed

text \<open>
  Two certificates share a cache key exactly when they are for the same domain and agree
  on the five flags, the override prefix and the key size. The required type and the
  presentation of the chain are not part of the key.
\<close>

theorem cache_key_determines:
  assumes "CHR ''+'' \<notin> set d1" and "CHR ''+'' \<notin> set d2" and "cert_typed o1" and "cert_typed o2"
  shows "calculateCertCacheKey d1 o1 = calculateCertCacheKey d2 o2 \<longleftrightarrow> d1 = d2 \<and> same_certificate o1 o2"
  using assms by (rule cert_key_eq)

theorem cache_key_determines_witness:
  "calculateCertCacheKey ''a.localhost'' [(''expired'', OBool True), (''requiredType'', OStr ''local'')] =
     calculateCertCacheKey ''a.localhost'' [(''expired'', OBool True)] \<and>
   calculateCertCacheKey ''a.localhost'' [(''keyBits'', ONum 1024)] \<noteq> calculateCertCacheKey ''a.localhost'' []"
proof -
  have typed: "cert_typed [(''expired'', OBool True), (''requiredType'', OStr ''local'')]"
    "cert_typed [(''expired'', OBool True)]" "cert_typed [(''keyBits'', ONum 1024)]" "cert_typed []"
    by (simp_all add: cert_typed_def cert_flags_def get_def)
  show ?thesis
    using cache_key_determines [of "''a.localhost''" "''a.localhost''", OF _ _ typed(1,2)]
      cache_key_determines [of "''a.localhost''" "''a.localhost''", OF _ _ typed(3,4)]
    by (simp add: same_certificate_def cert_flags_def get_def)
qed

section \<open>The leaf of a chain\<close>

lemma find_sub_prefix: "find_sub p (p @ r) = Some 0"
  using starts_with_append [of p r] by (cases "p @ r") auto

lemma extract_leaf:
  assumes "find_sub END_CERT (pem @ END_CERT @ r) = Some (length pem)"
  shows "extractLeafCertificate (BEGIN_CERT @ pem @ END_CERT @ r) = Inr (BEGIN_CERT @ pem @ END_CERT @ [CHR 0x0A])"
proof -
  have "find_sub BEGIN_CERT (BEGIN_CERT @ pem @ END_CERT @ r) = Some 0" by (rule find_sub_prefix)
  moreover have "index_from END_CERT (length BEGIN_CERT) (BEGIN_CERT @ pem @ END_CERT @ r) =
      Some (length BEGIN_CERT + length pem)"
    using assms by (simp add: index_from_def)
  ultimately show ?thesis by (simp add: extractLeafCertificate_def js_slice_def)
qed

end
