(* ===== verification/Secure_Context_Cache.thy ===== *)
theory Secure_Context_Cache
  imports Prelude "HOL-Library.AList"
begin

text \<open>
  \<^verbatim>\<open>src/tls-certificates/secure-context-cache.ts\<close>: a bounded cache of TLS contexts. A JavaScript
  \<open>Map\<close> is an association list in insertion order: \<open>AList.update\<close> replaces in place or appends,
  as \<open>Map.set\<close> does. \<open>getOrCreate\<close> waits for the factory between its two halves, so lookups and
  stores of different calls interleave; the reachable caches are those of any interleaving.
  The eviction loop is a partial function, since nothing in the code bounds it.
\<close>

section \<open>The code\<close>

record 'c entry =
  context_of :: 'c
  expires :: int

type_synonym 'c context_cache = "(string \<times> 'c entry) list"

definition ONE_DAY :: int where
  "ONE_DAY = 24 * 60 * 60 * 1000"

definition DEFAULT_MAX_SIZE :: nat where
  "DEFAULT_MAX_SIZE = 1000"

text \<open>The first half: a hit is moved to the end, an expired entry is dropped.\<close>

definition lookup :: "int \<Rightarrow> string \<Rightarrow> 'c context_cache \<Rightarrow> 'c option \<times> 'c context_cache" where
  "lookup now key c =
     (case map_of c key of
        None \<Rightarrow> (None, c)
      | Some cached \<Rightarrow>
          if expires cached > now
          then (Some (context_of cached), AList.update key cached (AList.delete key c))
          else (None, AList.delete key c))"

text \<open>Capped at one day, and at the expiry of a certificate that is not expired already.\<close>

definition max_expiry :: "int \<Rightarrow> int \<Rightarrow> int" where
  "max_expiry now expiry = (if expiry \<le> now then now + ONE_DAY else min expiry (now + ONE_DAY))"

text \<open>\<open>while (size >= maxSize)\<close>; the empty key is falsy and is never deleted.\<close>

partial_function (option) evict :: "nat \<Rightarrow> 'c context_cache \<Rightarrow> 'c context_cache option" where
  "evict maxSize c =
     (if length c \<ge> maxSize then
        (case c of
           [] \<Rightarrow> evict maxSize c
         | (oldestKey, _) # _ \<Rightarrow>
             if oldestKey \<noteq> [] then evict maxSize (AList.delete oldestKey c) else evict maxSize c)
      else Some c)"

text \<open>The second half, with the time that was read before the factory ran.\<close>

definition store_context :: "nat \<Rightarrow> int \<Rightarrow> string \<Rightarrow> 'c \<Rightarrow> int \<Rightarrow> 'c context_cache \<Rightarrow> 'c context_cache option" where
  "store_context maxSize now key context expiry c =
     map_option (AList.update key \<lparr>context_of = context, expires = max_expiry now expiry\<rparr>) (evict maxSize c)"

text \<open>One call that is not interleaved with others.\<close>

definition getOrCreate :: "nat \<Rightarrow> int \<Rightarrow> string \<Rightarrow> 'c \<times> int \<Rightarrow> 'c context_cache \<Rightarrow> ('c \<times> 'c context_cache) option" where
  "getOrCreate maxSize now key made c =
     (case lookup now key c of
        (Some context, c') \<Rightarrow> Some (context, c')
      | (None, c') \<Rightarrow> map_option (Pair (fst made)) (store_context maxSize now key (fst made) (snd made) c'))"

section \<open>Eviction\<close>

lemma delete_head: "distinct (map fst ((k, v) # r)) \<Longrightarrow> AList.delete k ((k, v) # r) = r"
  by simp

lemma update_absent: "k \<notin> fst ` set c \<Longrightarrow> AList.update k v c = c @ [(k, v)]"
  by (induction c) auto

lemma set_delete_subset: "set (AList.delete k c) \<subseteq> set c"
  by (induction c) auto

lemma length_delete_less: "k \<in> fst ` set c \<Longrightarrow> length (AList.delete k c) < length c"
proof (induction c)
  case (Cons e c)
  show ?case
  proof (cases "fst e = k")
    case True
    then show ?thesis by (cases e) (simp add: length_delete_le less_Suc_eq_le)
  next
    case False
    then show ?thesis using Cons by (cases e) auto
  qed
qed simp

lemma evict_some:
  assumes "0 < maxSize" and "distinct (map fst c)" and "[] \<notin> fst ` set c"
  shows "evict maxSize c = Some (drop (Suc (length c) - maxSize) c)"
  using assms(2,3)
proof (induction c)
  case Nil
  then show ?case using assms(1) by (simp add: evict.simps)
next
  case (Cons e c)
  obtain k v where e: "e = (k, v)" by force
  show ?case
  proof (cases "length (e # c) \<ge> maxSize")
    case True
    have "evict maxSize (e # c) = evict maxSize c"
      using True Cons.prems delete_head [of k v c] by (auto simp: e evict.simps [of maxSize "(k, v) # c"])
    then show ?thesis using Cons True by (simp add: Suc_diff_le)
  next
    case False
    then show ?thesis by (simp add: evict.simps [of maxSize "e # c"])
  qed
qed

lemma evict_below: "evict maxSize c = Some c' \<Longrightarrow> length c' < maxSize"
  by (rule evict.raw_induct [where P = "\<lambda>m c c'. length c' < m"]) (auto split: if_splits list.splits)

text \<open>
  C34: The eviction loop returns for every positive capacity, having dropped exactly the oldest
  entries that leave room for one more, and never returns for capacity zero.
\<close>

theorem eviction_terminates:
  assumes "distinct (map fst c)" and "[] \<notin> fst ` set c"
  shows "evict maxSize c = (if maxSize = 0 then None else Some (drop (Suc (length c) - maxSize) c))"
proof (cases "maxSize = 0")
  case True
  then have "evict maxSize c = None" using evict_below [of maxSize c] by (cases "evict maxSize c") auto
  then show ?thesis using True by simp
next
  case False
  then show ?thesis using evict_some assms by simp
qed

theorem eviction_terminates_witness:
  "evict 2 [(''a'', \<lparr>context_of = (1::nat), expires = 5\<rparr>), (''b'', \<lparr>context_of = 2, expires = 5\<rparr>)] =
     Some [(''b'', \<lparr>context_of = 2, expires = 5\<rparr>)]"
  by (subst eviction_terminates) simp_all

section \<open>Reachable caches\<close>

text \<open>The log has what was stored under each key, the latest first: context, time and expiry.\<close>

inductive reachable :: "nat \<Rightarrow> (string \<times> 'c \<times> int \<times> int) list \<Rightarrow> 'c context_cache \<Rightarrow> bool" for maxSize where
  start: "reachable maxSize [] []"
| look: "reachable maxSize log c \<Longrightarrow> lookup now key c = (hit, c') \<Longrightarrow> reachable maxSize log c'"
| put: "reachable maxSize log c \<Longrightarrow> key \<noteq> [] \<Longrightarrow> store_context maxSize now key context expiry c = Some c' \<Longrightarrow>
    reachable maxSize ((key, context, now, expiry) # log) c'"

definition logged :: "(string \<times> 'c \<times> int \<times> int) list \<Rightarrow> 'c context_cache \<Rightarrow> bool" where
  "logged log c \<longleftrightarrow>
     (\<forall>(k, e) \<in> set c. k \<noteq> [] \<and>
        (\<exists>t x. map_of log k = Some (context_of e, t, x) \<and> expires e = max_expiry t x))"

lemma logged_subset: "set c' \<subseteq> set c \<Longrightarrow> logged log c \<Longrightarrow> logged log c'"
  unfolding logged_def by blast

lemma lookup_subset:
  assumes "lookup now key c = (hit, c')" and "distinct (map fst c)"
  shows "set c' \<subseteq> set c \<and> distinct (map fst c') \<and> length c' \<le> length c"
proof (cases "map_of c key")
  case None
  then show ?thesis using assms by (simp add: lookup_def)
next
  case (Some e)
  have mem: "(key, e) \<in> set c" using Some by (rule map_of_SomeD)
  have len: "length (AList.delete key c) < length c" using mem by (intro length_delete_less) force
  have upd: "AList.update key e (AList.delete key c) = AList.delete key c @ [(key, e)]"
    by (rule update_absent [OF delete_notin_dom])
  have "c' = AList.delete key c @ [(key, e)] \<or> c' = AList.delete key c"
    using assms(1) Some by (auto simp: lookup_def upd split: if_splits)
  then show ?thesis
    using mem len set_delete_subset [of key c] distinct_delete [OF assms(2), of key] delete_notin_dom [of key c] by auto
qed

lemma store_cases:
  assumes "store_context maxSize now key context expiry c = Some c'" and "distinct (map fst c)" and "[] \<notin> fst ` set c"
  obtains d where "set d \<subseteq> set c" and "distinct (map fst d)" and "length d < maxSize"
    and "c' = AList.update key \<lparr>context_of = context, expires = max_expiry now expiry\<rparr> d"
proof -
  obtain d where d: "evict maxSize c = Some d"
    "c' = AList.update key \<lparr>context_of = context, expires = max_expiry now expiry\<rparr> d"
    using assms(1) by (auto simp: store_context_def)
  have "0 < maxSize" using evict_below [OF d(1)] by simp
  then have "d = drop (Suc (length c) - maxSize) c" using evict_some [OF _ assms(2,3), of maxSize] d(1) by simp
  then have "set d \<subseteq> set c" "distinct (map fst d)"
    using assms(2) by (auto simp: drop_map [symmetric] dest: in_set_dropD)
  then show ?thesis using that d(2) evict_below [OF d(1)] by blast
qed

lemma length_update: "length (AList.update k v c) \<le> Suc (length c)"
  by (induction c) auto

lemma set_update: "distinct (map fst d) \<Longrightarrow> (j, x) \<in> set (AList.update k v d) \<Longrightarrow> (j = k \<and> x = v) \<or> (j \<noteq> k \<and> (j, x) \<in> set d)"
  by (induction d) (auto split: if_splits simp: image_iff)

lemma logged_update:
  assumes "logged log d" and "key \<noteq> []" and "distinct (map fst d)"
  shows "logged ((key, context, now, expiry) # log)
    (AList.update key \<lparr>context_of = context, expires = max_expiry now expiry\<rparr> d)"
  using assms(1,2) set_update [OF assms(3)] unfolding logged_def by fastforce

definition cache_ok :: "nat \<Rightarrow> (string \<times> 'c \<times> int \<times> int) list \<Rightarrow> 'c context_cache \<Rightarrow> bool" where
  "cache_ok maxSize log c \<longleftrightarrow> distinct (map fst c) \<and> length c \<le> maxSize \<and> logged log c"

lemma logged_keys: "logged log c \<Longrightarrow> [] \<notin> fst ` set c"
  by (fastforce simp: logged_def)

lemma reachable_ok: "reachable maxSize log c \<Longrightarrow> cache_ok maxSize log c"
proof (induction rule: reachable.induct)
  case start
  then show ?case by (simp add: cache_ok_def logged_def)
next
  case (look log c now key hit c')
  then show ?case using lookup_subset [of now key c hit c'] logged_subset [of c' c log] by (auto simp: cache_ok_def)
next
  case (put log c key now ctx expiry c')
  obtain d where d: "set d \<subseteq> set c" "distinct (map fst d)" "length d < maxSize"
    "c' = AList.update key \<lparr>context_of = ctx, expires = max_expiry now expiry\<rparr> d"
    using store_cases [OF put.hyps(3)] put.IH logged_keys by (metis cache_ok_def)
  then show ?case
    using put.IH logged_update [of log d key] logged_subset [OF d(1)] put.hyps(2) length_update [of key _ d]
      distinct_update [OF d(2)] by (fastforce simp: cache_ok_def intro: order_trans)
qed

text \<open>
  C18: Whatever calls were interleaved before, the cache holds at most its capacity, and a context
  it returns is the one last stored under the key, stored less than a day before and not expired
  unless it was expired when it was made.
\<close>

theorem cached_context_fresh:
  assumes "reachable maxSize log c" and "lookup now key c = (Some context, c')"
  shows "length c' \<le> maxSize \<and>
    (\<exists>t x. map_of log key = Some (context, t, x) \<and> now < t + ONE_DAY \<and> (now < x \<or> x \<le> t))"
proof -
  have ok: "cache_ok maxSize log c" using reachable_ok [OF assms(1)] .
  obtain e where e: "map_of c key = Some e" "expires e > now" "context_of e = context"
    using assms(2) by (auto simp: lookup_def split: option.splits if_splits)
  have "logged log c" using ok by (simp add: cache_ok_def)
  then obtain t x where "map_of log key = Some (context, t, x)" "expires e = max_expiry t x"
    using map_of_SomeD [OF e(1)] e(3) unfolding logged_def by fastforce
  moreover have "length c' \<le> maxSize"
    using lookup_subset [OF assms(2)] ok by (auto simp: cache_ok_def)
  ultimately show ?thesis using e(2) by (auto simp: max_expiry_def split: if_splits)
qed

theorem cached_context_fresh_witness:
  "length [(''k'', \<lparr>context_of = (7::nat), expires = 90\<rparr>)] \<le> 1 \<and>
   (\<exists>t x. map_of [(''k'', 7::nat, 10::int, 90)] ''k'' = Some (7, t, x) \<and> 20 < t + ONE_DAY \<and> (20 < x \<or> x \<le> t))"
proof (rule cached_context_fresh)
  have "store_context 1 10 ''k'' (7::nat) 90 [] = Some [(''k'', \<lparr>context_of = 7, expires = 90\<rparr>)]"
    by (subst store_context_def, subst evict.simps) (simp add: max_expiry_def ONE_DAY_def)
  then show "reachable 1 [(''k'', 7::nat, 10, 90)] [(''k'', \<lparr>context_of = 7, expires = 90\<rparr>)]"
    by (rule reachable.put [OF reachable.start, rotated]) simp
  show "lookup 20 ''k'' [(''k'', \<lparr>context_of = (7::nat), expires = 90\<rparr>)] =
      (Some 7, [(''k'', \<lparr>context_of = 7, expires = 90\<rparr>)])"
    by (simp add: lookup_def)
qed

end
