(* ===== verification/Json_Parse.thy ===== *)
theory Json_Parse
  imports Js_Uri Json
begin

text \<open>
  \<open>JSON.parse\<close>, which the certificate stores read their files with: a parser of the JSON grammar
  by recursive descent. The fuel bounds the depth of the descent; \<open>json_fuel\<close> shows that what any
  fuel can parse is parsed with the fuel given. \<open>json_roundtrip\<close> is \<open>JSON.parse(JSON.stringify(v))\<close>.
  Numbers are exact rationals. An escaped lone surrogate is held in its three-byte encoding.
\<close>

datatype parsed =
    PNull
  | PBool bool
  | PNum rat
  | PStr string
  | PArr "parsed list"
  | PObj "(string \<times> parsed) list"

section \<open>Strings\<close>

datatype str_unit = Plain char | Escaped nat

definition hex4 :: "string \<Rightarrow> (nat \<times> string) option" where
  "hex4 s =
     (if 4 \<le> length s \<and> list_all (\<lambda>c. hex_val c \<noteq> None) (take 4 s)
      then Some (foldl (\<lambda>n c. 16 * n + the (hex_val c)) 0 (take 4 s), drop 4 s) else None)"

definition simple_escape :: "char \<Rightarrow> char option" where
  "simple_escape e =
     (if e = CHR 0x22 then Some e
      else if e = CHR 0x5C then Some e
      else if e = CHR ''/'' then Some e
      else if e = CHR ''n'' then Some (CHR 0x0A)
      else if e = CHR ''r'' then Some (CHR 0x0D)
      else if e = CHR ''t'' then Some (CHR 0x09)
      else if e = CHR ''b'' then Some (CHR 0x08)
      else if e = CHR ''f'' then Some (CHR 0x0C)
      else None)"

definition escape_unit :: "string \<Rightarrow> (str_unit \<times> string) option" where
  "escape_unit s =
     (case s of
        [] \<Rightarrow> None
      | e # r \<Rightarrow>
          if e = CHR ''u'' then map_option (map_prod Escaped id) (hex4 r)
          else map_option (\<lambda>c. (Plain c, r)) (simple_escape e))"

lemma escape_unit_shorter: "escape_unit s = Some (u, r) \<Longrightarrow> length r < length s"
  by (auto simp: escape_unit_def hex4_def split: list.splits if_splits)

text \<open>The characters up to the closing quote.\<close>

function str_units :: "string \<Rightarrow> (str_unit list \<times> string) option" where
  "str_units s =
     (case s of
        [] \<Rightarrow> None
      | c # r \<Rightarrow>
          if c = CHR 0x22 then Some ([], r)
          else if c = CHR 0x5C then
            (case escape_unit r of
               None \<Rightarrow> None
             | Some (u, r') \<Rightarrow> map_option (map_prod (Cons u) id) (str_units r'))
          else if of_char c < (32::nat) then None
          else map_option (map_prod (Cons (Plain c)) id) (str_units r))"
  by pat_completeness auto
termination
  by (relation "measure length") (auto dest!: escape_unit_shorter)

declare str_units.simps [simp del]

definition utf8 :: "nat \<Rightarrow> string" where
  "utf8 n = map char_of
     (if n < 128 then [n]
      else if n < 2048 then [192 + n div 64, 128 + n mod 64]
      else if n < 65536 then [224 + n div 4096, 128 + n div 64 mod 64, 128 + n mod 64]
      else [240 + n div 262144, 128 + n div 4096 mod 64, 128 + n div 64 mod 64, 128 + n mod 64])"

fun unit_text :: "str_unit list \<Rightarrow> string" where
  "unit_text [] = []"
| "unit_text (Plain c # us) = c # unit_text us"
| "unit_text (Escaped h # Escaped l # us) =
     (if h div 1024 = 54 \<and> l div 1024 = 55
      then utf8 (65536 + 1024 * (h - 55296) + (l - 56320)) @ unit_text us
      else utf8 h @ unit_text (Escaped l # us))"
| "unit_text (Escaped h # us) = utf8 h @ unit_text us"

definition json_string :: "string \<Rightarrow> (string \<times> string) option" where
  "json_string s = map_option (map_prod unit_text id) (str_units s)"

section \<open>Numbers\<close>

definition json_fraction :: "string \<Rightarrow> (string \<times> string) option" where
  "json_fraction s =
     (if starts_with s ''.''
      then let ds = takeWhile is_digit (tl s)
           in if ds = [] then None else Some (ds, dropWhile is_digit (tl s))
      else Some ([], s))"

definition json_exponent :: "string \<Rightarrow> (int \<times> string) option" where
  "json_exponent s =
     (case s of
        [] \<Rightarrow> Some (0, s)
      | c # r \<Rightarrow>
          if c = CHR ''e'' \<or> c = CHR ''E'' then
            let negative = starts_with r ''-'';
                r' = (if negative \<or> starts_with r ''+'' then tl r else r);
                ds = takeWhile is_digit r'
            in if ds = [] then None
               else Some ((if negative then - int (digits_val ds) else int (digits_val ds)), dropWhile is_digit r')
          else Some (0, s))"

definition json_number :: "string \<Rightarrow> (rat \<times> string) option" where
  "json_number s =
     (let negative = starts_with s ''-'';
          s' = (if negative then tl s else s);
          ds = takeWhile is_digit s'
      in if ds = [] \<or> (starts_with ds ''0'' \<and> 1 < length ds) then None
         else case json_fraction (dropWhile is_digit s') of
             None \<Rightarrow> None
           | Some (fs, r) \<Rightarrow>
               (case json_exponent r of
                  None \<Rightarrow> None
                | Some (e, r') \<Rightarrow>
                    let m = scale10 (of_nat (digits_val (ds @ fs))) (e - int (length fs))
                    in Some ((if negative then - m else m), r')))"

section \<open>Values\<close>

definition is_json_space :: "char \<Rightarrow> bool" where
  "is_json_space c \<longleftrightarrow> of_char c \<in> {9::nat, 10, 13, 32}"

definition skip :: "string \<Rightarrow> string" where
  "skip = dropWhile is_json_space"

text \<open>One character after white space, and the rest after it.\<close>

definition expect :: "char \<Rightarrow> string \<Rightarrow> string option" where
  "expect c s = (case skip s of d # r \<Rightarrow> if d = c then Some r else None | [] \<Rightarrow> None)"

definition literals :: "(string \<times> parsed) list" where
  "literals = [(''null'', PNull), (''true'', PBool True), (''false'', PBool False)]"

definition json_scalar :: "string \<Rightarrow> (parsed \<times> string) option" where
  "json_scalar s =
     (case find (\<lambda>(w, _). starts_with s w) literals of
        Some (w, v) \<Rightarrow> Some (v, drop (length w) s)
      | None \<Rightarrow> map_option (map_prod PNum id) (json_number s))"

fun json_value :: "nat \<Rightarrow> string \<Rightarrow> (parsed \<times> string) option"
and json_elements :: "nat \<Rightarrow> string \<Rightarrow> (parsed list \<times> string) option"
and json_members :: "nat \<Rightarrow> string \<Rightarrow> ((string \<times> parsed) list \<times> string) option" where
  "json_value 0 s = None"
| "json_value (Suc n) s =
     (case expect (CHR 0x22) s of
        Some r \<Rightarrow> map_option (map_prod PStr id) (json_string r)
      | None \<Rightarrow>
     (case expect (CHR ''['') s of
        Some r \<Rightarrow>
          (case expect (CHR '']'') r of
             Some r' \<Rightarrow> Some (PArr [], r')
           | None \<Rightarrow> map_option (map_prod PArr id) (json_elements n r))
      | None \<Rightarrow>
     (case expect (CHR ''{'') s of
        Some r \<Rightarrow>
          (case expect (CHR ''}'') r of
             Some r' \<Rightarrow> Some (PObj [], r')
           | None \<Rightarrow> map_option (map_prod PObj id) (json_members n r))
      | None \<Rightarrow> json_scalar (skip s))))"
| "json_elements 0 s = None"
| "json_elements (Suc n) s =
     (case json_value n s of
        None \<Rightarrow> None
      | Some (v, r) \<Rightarrow>
          (case expect (CHR '','') r of
             Some r' \<Rightarrow> map_option (map_prod (Cons v) id) (json_elements n r')
           | None \<Rightarrow> map_option (Pair [v]) (expect (CHR '']'') r)))"
| "json_members 0 s = None"
| "json_members (Suc n) s =
     (case expect (CHR 0x22) s of
        None \<Rightarrow> None
      | Some r \<Rightarrow>
     (case json_string r of
        None \<Rightarrow> None
      | Some (k, r) \<Rightarrow>
     (case expect (CHR '':'') r of
        None \<Rightarrow> None
      | Some r \<Rightarrow>
     (case json_value n r of
        None \<Rightarrow> None
      | Some (v, r) \<Rightarrow>
          (case expect (CHR '','') r of
             Some r' \<Rightarrow> map_option (map_prod (Cons (k, v)) id) (json_members n r')
           | None \<Rightarrow> map_option (Pair [(k, v)]) (expect (CHR ''}'') r))))))"

declare json_value.simps(2) [simp del] json_elements.simps(2) [simp del] json_members.simps(2) [simp del]

text \<open>\<open>JSON.parse(s)\<close>; \<open>None\<close> is the \<open>SyntaxError\<close>.\<close>

definition json_parse :: "string \<Rightarrow> parsed option" where
  "json_parse s =
     (case json_value (2 * length s + 2) s of
        Some (v, r) \<Rightarrow> if skip r = [] then Some v else None
      | None \<Rightarrow> None)"

text \<open>A field of a parsed object; the last of two fields with one name counts.\<close>

definition parsed_field :: "parsed \<Rightarrow> string \<Rightarrow> parsed option" where
  "parsed_field v k = (case v of PObj fs \<Rightarrow> map_of (rev fs) k | _ \<Rightarrow> None)"

section \<open>The fuel is enough\<close>

lemma expect_shorter: "expect c s = Some r \<Longrightarrow> length r < length s"
  using length_dropWhile_le [of is_json_space s] by (auto simp: expect_def skip_def split: list.splits if_splits)

lemma str_units_shorter: "str_units s = Some (us, r) \<Longrightarrow> length r < length s"
proof (induction s arbitrary: us rule: str_units.induct)
  case (1 s)
  show ?case
  proof (cases s)
    case Nil
    then show ?thesis using 1(3) by (simp add: str_units.simps [of "[]"])
  next
    case (Cons c t)
    note step = 1(3) [unfolded Cons, unfolded str_units.simps [of "c # t"], unfolded list.case]
    consider "c = CHR 0x22" | "c = CHR 0x5C" | "c \<noteq> CHR 0x22" "c \<noteq> CHR 0x5C" by blast
    then show ?thesis
    proof cases
      case 1
      then show ?thesis using step Cons by auto
    next
      case 2
      then obtain u t' us' where "escape_unit t = Some (u, t')" "str_units t' = Some (us', r)"
        using step by (auto split: option.splits)
      then show ?thesis using 1(1) [OF Cons, of "(u, t')" u t' us'] 2 escape_unit_shorter [of t u t'] Cons by auto
    next
      case 3
      then obtain us' where "str_units t = Some (us', r)" "\<not> of_char c < (32::nat)"
        using step by (auto split: if_splits)
      then show ?thesis using 1(2) [OF Cons, of us'] 3 Cons by auto
    qed
  qed
qed

lemma json_string_shorter: "json_string s = Some (t, r) \<Longrightarrow> length r < length s"
  by (auto simp: json_string_def dest: str_units_shorter)

lemma dropWhile_less: "takeWhile P s \<noteq> [] \<Longrightarrow> length (dropWhile P s) < length s"
  using arg_cong [OF takeWhile_dropWhile_id [of P s], of length] length_greater_0_conv [of "takeWhile P s"]
  by (simp del: takeWhile_dropWhile_id length_greater_0_conv)

lemma fraction_le: "json_fraction s = Some (ds, r) \<Longrightarrow> length r \<le> length s"
  using length_dropWhile_le [of is_digit "tl s"] length_tl [of s]
  by (auto simp: json_fraction_def Let_def split: if_splits simp del: length_tl)

lemma exponent_le: "json_exponent s = Some (e, r) \<Longrightarrow> length r \<le> length s"
proof (cases s)
  case (Cons c t)
  have "length (dropWhile is_digit u) \<le> length (c # t)" if "length u \<le> length t" for u
    using that length_dropWhile_le [of is_digit u] by simp
  moreover have "length (tl t) \<le> length t" by simp
  moreover assume "json_exponent s = Some (e, r)"
  ultimately show ?thesis using Cons by (fastforce simp: json_exponent_def Let_def simp del: starts_with_Cons split: if_splits)
qed (simp add: json_exponent_def)

lemma number_shorter: "json_number s = Some (q, r) \<Longrightarrow> length r < length s"
proof -
  assume h: "json_number s = Some (q, r)"
  define t where "t = (if starts_with s ''-'' then tl s else s)"
  have ds: "takeWhile is_digit t \<noteq> []" using h by (auto simp: json_number_def t_def Let_def split: if_splits)
  obtain fs r1 e where "json_fraction (dropWhile is_digit t) = Some (fs, r1)" "json_exponent r1 = Some (e, r)"
    using h by (auto simp: json_number_def t_def Let_def split: if_splits option.splits)
  then have "length r \<le> length (dropWhile is_digit t)" by (meson exponent_le fraction_le order_trans)
  also have "\<dots> < length t" by (rule dropWhile_less [OF ds])
  also have "\<dots> \<le> length s" by (simp add: t_def)
  finally show ?thesis .
qed

lemma scalar_shorter: "json_scalar s = Some (v, r) \<Longrightarrow> length r < length s"
proof -
  have w: "starts_with s w \<Longrightarrow> w \<noteq> [] \<Longrightarrow> length (drop (length w) s) < length s" for w :: string
    by (auto simp: starts_with_iff)
  show "json_scalar s = Some (v, r) \<Longrightarrow> length r < length s"
    using w [of "''null''"] w [of "''true''"] w [of "''false''"]
    by (auto simp: json_scalar_def literals_def number_shorter simp del: starts_with_Cons length_drop split: if_splits)
qed

lemma skip_le: "length (skip s) \<le> length s"
  by (simp add: skip_def length_dropWhile_le)

lemma json_shorter:
  "(\<forall>s v r. json_value n s = Some (v, r) \<longrightarrow> length r < length s) \<and>
   (\<forall>s v r. json_elements n s = Some (v, r) \<longrightarrow> length r < length s) \<and>
   (\<forall>s v r. json_members n s = Some (v, r) \<longrightarrow> length r < length s)"
proof (induction n)
  case (Suc n)
  have sub: "json_value n s = Some (v, r) \<Longrightarrow> length r < length s"
    "json_elements n s = Some (vs, r) \<Longrightarrow> length r < length s"
    "json_members n s = Some (fs, r) \<Longrightarrow> length r < length s" for s v vs fs r
    using Suc by blast+
  have "length r < length s" if "json_value (Suc n) s = Some (v, r)" for s v r
    using that skip_le [of s]
    by (auto simp: json_value.simps(2) split: option.splits dest!: sub expect_shorter json_string_shorter scalar_shorter)
  moreover have "length r < length s" if "json_elements (Suc n) s = Some (v, r)" for s v r
    using that by (auto simp: json_elements.simps(2) split: option.splits dest!: sub expect_shorter)
  moreover have "length r < length s" if "json_members (Suc n) s = Some (v, r)" for s v r
    using that by (auto simp: json_members.simps(2) split: option.splits dest!: sub expect_shorter json_string_shorter)
  ultimately show ?case by blast
qed simp

lemmas value_shorter = json_shorter [THEN conjunct1, rule_format]

text \<open>A parse with any fuel is the parse with every fuel above twice the length.\<close>

lemma json_fuel:
  "(\<forall>s x m. json_value n s = Some x \<longrightarrow> 2 * length s < m \<longrightarrow> json_value m s = Some x) \<and>
   (\<forall>s x m. json_elements n s = Some x \<longrightarrow> 2 * length s + 1 < m \<longrightarrow> json_elements m s = Some x) \<and>
   (\<forall>s x m. json_members n s = Some x \<longrightarrow> 2 * length s + 1 < m \<longrightarrow> json_members m s = Some x)"
proof (induction n)
  case (Suc n)
  have sub: "json_value n s = Some x \<Longrightarrow> 2 * length s < m \<Longrightarrow> json_value m s = Some x"
    "json_elements n s = Some xs \<Longrightarrow> 2 * length s + 1 < m \<Longrightarrow> json_elements m s = Some xs"
    "json_members n s = Some fs \<Longrightarrow> 2 * length s + 1 < m \<Longrightarrow> json_members m s = Some fs" for s x xs fs m
    using Suc by blast+
  have "json_value m s = Some x" if h: "json_value (Suc n) s = Some x" "2 * length s < m" for s x m
  proof -
    obtain k where m: "m = Suc k" using h(2) by (cases m) auto
    have arr: "expect c s = Some r \<Longrightarrow> json_elements n r = Some xs \<Longrightarrow> json_elements k r = Some xs"
      and obj: "expect c s = Some r \<Longrightarrow> json_members n r = Some fs \<Longrightarrow> json_members k r = Some fs" for c r xs fs
      using sub(2,3) [of r _ k] expect_shorter [of c s r] h(2) m by fastforce+
    show ?thesis
      using h(1) unfolding m json_value.simps(2) by (auto split: option.splits dest: arr obj)
  qed
  moreover have "json_elements m s = Some x" if h: "json_elements (Suc n) s = Some x" "2 * length s + 1 < m" for s x m
  proof -
    obtain k where m: "m = Suc k" using h(2) by (cases m) auto
    obtain v r where v: "json_value n s = Some (v, r)"
      using h(1) by (auto simp: json_elements.simps(2) split: option.splits)
    have more: "expect c r = Some r' \<Longrightarrow> json_elements n r' = Some xs \<Longrightarrow> json_elements k r' = Some xs" for c r' xs
      using sub(2) [of r' xs k] expect_shorter [of c r r'] value_shorter [OF v] h(2) m by fastforce
    have "json_value k s = Some (v, r)" using sub(1) [OF v, of k] h(2) m by simp
    then show ?thesis
      using h(1) v unfolding m json_elements.simps(2) by (auto split: option.splits dest: more)
  qed
  moreover have "json_members m s = Some x" if h: "json_members (Suc n) s = Some x" "2 * length s + 1 < m" for s x m
  proof -
    obtain k where m: "m = Suc k" using h(2) by (cases m) auto
    obtain r k' r1 r2 v r3 where v: "expect (CHR 0x22) s = Some r" "json_string r = Some (k', r1)"
      "expect (CHR '':'') r1 = Some r2" "json_value n r2 = Some (v, r3)"
      using h(1) by (auto simp: json_members.simps(2) split: option.splits)
    have len: "length r3 < length s" "length r2 < length s"
      using expect_shorter [OF v(1)] json_string_shorter [OF v(2)] expect_shorter [OF v(3)] value_shorter [OF v(4)] by auto
    have more: "expect c r3 = Some r' \<Longrightarrow> json_members n r' = Some fs \<Longrightarrow> json_members k r' = Some fs" for c r' fs
      using sub(3) [of r' fs k] expect_shorter [of c r3 r'] len h(2) m by fastforce
    have "json_value k r2 = Some (v, r3)" using sub(1) [OF v(4), of k] len h(2) m by simp
    then show ?thesis
      using h(1) v unfolding m json_members.simps(2) by (auto split: option.splits dest: more)
  qed
  ultimately show ?case by blast
qed simp

section \<open>Round trip\<close>

fun of_json :: "json \<Rightarrow> parsed" where
  "of_json JUndefined = PNull"
| "of_json JNull = PNull"
| "of_json (JBool b) = PBool b"
| "of_json (JNum n) = PNum (of_int n)"
| "of_json (JStr s) = PStr s"
| "of_json (JArr vs) = PArr (map of_json vs)"
| "of_json (JObj fs) = PObj (map (\<lambda>(k, v). (k, of_json v)) (filter (\<lambda>(k, v). defined v) fs))"

text \<open>What may follow a number that is not part of it.\<close>

definition stops :: "string \<Rightarrow> bool" where
  "stops r \<longleftrightarrow> (case r of [] \<Rightarrow> True | c # _ \<Rightarrow> \<not> is_digit c \<and> c \<noteq> CHR ''.'' \<and> c \<noteq> CHR ''e'' \<and> c \<noteq> CHR ''E'')"

lemma expect_Cons [simp]:
  "\<not> is_json_space d \<Longrightarrow> expect c (d # r) = (if d = c then Some r else None)"
  by (simp add: expect_def skip_def)

lemma skip_Cons [simp]: "\<not> is_json_space d \<Longrightarrow> skip (d # r) = d # r"
  by (simp add: skip_def)

subsection \<open>Strings\<close>

definition char_unit :: "char \<Rightarrow> str_unit" where
  "char_unit c = (if of_char c < (32::nat) \<and> of_char c \<notin> {8::nat, 9, 10, 12, 13} then Escaped (of_char c) else Plain c)"

lemma hex_val_digit_char: "d < 16 \<Longrightarrow> hex_val (digit_char d) = Some d"
  by (auto simp: hex_val_def of_char_digit_char Let_def)

lemma str_units_plain:
  "c \<noteq> CHR 0x22 \<Longrightarrow> c \<noteq> CHR 0x5C \<Longrightarrow> \<not> of_char c < (32::nat) \<Longrightarrow>
    str_units (c # r) = map_option (map_prod (Cons (Plain c)) id) (str_units r)"
  by (simp add: str_units.simps [of "c # r"])

lemma str_units_escape:
  "escape_unit s = Some (u, r) \<Longrightarrow>
    str_units (CHR 0x5C # s) = map_option (map_prod (Cons u) id) (str_units r)"
  by (simp add: str_units.simps [of "CHR 0x5C # s"])

lemma json_char_units:
  "str_units (json_char c @ r) = map_option (map_prod (Cons (char_unit c)) id) (str_units r)"
proof -
  have code: "of_char c = (n::nat) \<longleftrightarrow> c = char_of n" if "n < 256" for n
    using that by (metis char_of_char of_char_of mod_less)
  have controls: "char_of (8::nat) = CHR 0x08" "char_of (9::nat) = CHR 0x09" "char_of (10::nat) = CHR 0x0A"
    "char_of (12::nat) = CHR 0x0C" "char_of (13::nat) = CHR 0x0D" by code_simp+
  show ?thesis
  proof (cases "c \<in> {CHR 0x22, CHR 0x5C, CHR 0x0A, CHR 0x0D, CHR 0x09, CHR 0x08, CHR 0x0C}")
    case True
    have esc: "simple_escape e \<noteq> None \<Longrightarrow> e \<noteq> CHR ''u'' \<Longrightarrow>
        str_units (CHR 0x5C # e # r) = map_option (map_prod (Cons (Plain (the (simple_escape e)))) id) (str_units r)" for e
      by (auto simp: escape_unit_def intro!: str_units_escape)
    have simple: "simple_escape (CHR 0x22) = Some (CHR 0x22)" "simple_escape (CHR 0x5C) = Some (CHR 0x5C)"
      "simple_escape (CHR ''n'') = Some (CHR 0x0A)" "simple_escape (CHR ''r'') = Some (CHR 0x0D)"
      "simple_escape (CHR ''t'') = Some (CHR 0x09)" "simple_escape (CHR ''b'') = Some (CHR 0x08)"
      "simple_escape (CHR ''f'') = Some (CHR 0x0C)" by (simp_all add: simple_escape_def)
    show ?thesis
      using True by (elim insertE emptyE; simp add: json_char_def char_unit_def esc simple)
  next
    case False
    then have other: "json_char c = (if (of_char c :: nat) < 32
        then CHR 0x5C # CHR ''u'' # CHR ''0'' # CHR ''0'' #
          [digit_char (of_char c div 16), digit_char (of_char c mod 16)] else [c])"
      by (simp add: json_char_def)
    show ?thesis
    proof (cases "of_char c < (32::nat)")
      case True
      have "hex_val (CHR ''0'') = Some 0" by (simp add: hex_val_def Let_def)
      then have "escape_unit (CHR ''u'' # CHR ''0'' # CHR ''0'' #
          digit_char (of_char c div 16) # digit_char (of_char c mod 16) # r) = Some (Escaped (of_char c), r)"
        using True by (simp add: escape_unit_def hex4_def hex_val_digit_char)
      moreover have "char_unit c = Escaped (of_char c)"
        using True False by (auto simp: char_unit_def code controls)
      ultimately show ?thesis using True by (simp add: other str_units_escape)
    next
      case large: False
      then show ?thesis using False by (simp add: other str_units_plain char_unit_def)
    qed
  qed
qed

lemma unit_text_char: "unit_text (map char_unit s) = s"
proof (induction s)
  case (Cons c s)
  have escaped: "unit_text (Escaped n # us) = char_of n # unit_text us" if "n < 32" for n us
    using that by (cases us rule: unit_text.cases) (auto simp: utf8_def div_less split: if_splits)
  show ?case using Cons escaped by (simp add: char_unit_def)
qed simp

lemma json_string_str: "json_string (tl (json_str s) @ r) = Some (s, r)"
proof -
  have "str_units (concat (map json_char s) @ CHR 0x22 # r) = Some (map char_unit s, r)"
    by (induction s) (simp_all add: json_char_units str_units.simps [of "CHR 0x22 # r"])
  then show ?thesis by (simp add: json_string_def json_str_def unit_text_char)
qed

subsection \<open>Numbers\<close>

lemma nat_str_zero: "starts_with (nat_str n) ''0'' \<Longrightarrow> length (nat_str n) = 1"
proof (induction n rule: less_induct)
  case (less n)
  show ?case
  proof (cases "n < 10")
    case True
    then show ?thesis by (simp add: nat_str_def radix_str.simps [of 10 n])
  next
    case False
    then have n: "nat_str n = nat_str (n div 10) @ [digit_char (n mod 10)]"
      by (simp add: nat_str_def radix_str.simps [of 10 n])
    then have zero: "starts_with (nat_str (n div 10)) ''0''"
      using less.prems nat_str_not_Nil [of "n div 10"] by (auto split: list.splits)
    then have "length (nat_str (n div 10)) = 1" using less.IH False by simp
    then have "nat_str (n div 10) = nat_str 0"
      using zero by (auto simp: length_Suc_conv nat_str_def [of 0] radix_str.simps [of 10 0] digit_char_zero)
    then show ?thesis using False by simp
  qed
qed

lemma digits_then:
  assumes "stops r"
  shows "takeWhile is_digit (nat_str n @ r) = nat_str n" and "dropWhile is_digit (nat_str n @ r) = r"
proof -
  show t: "takeWhile is_digit (nat_str n @ r) = nat_str n"
    using assms by (intro takeWhile_digits_nat_str) (auto simp: stops_def split: list.splits)
  show "dropWhile is_digit (nat_str n @ r) = r"
    using takeWhile_dropWhile_id [of is_digit "nat_str n @ r"] unfolding t by simp
qed

lemma json_number_int:
  assumes "stops r"
  shows "json_number (int_str n @ r) = Some (of_int n, r)"
proof -
  have "json_fraction r = Some ([], r)" "json_exponent r = Some (0, r)"
    using assms by (auto simp: json_fraction_def json_exponent_def stops_def split: list.splits)
  moreover have "\<not> (starts_with (nat_str m) ''0'' \<and> 1 < length (nat_str m))" for m
    using nat_str_zero [of m] by auto
  moreover have "\<not> starts_with (nat_str m @ r) ''-''" for m
    using nat_str_hd [of m] nat_str_not_Nil [of m] by (cases "nat_str m") (auto simp: is_digit_def)
  ultimately show ?thesis
    using digits_then [OF assms] by (simp add: json_number_def int_str_def Let_def scale10_def)
qed

lemma int_str_start: "\<exists>c s. int_str n = c # s \<and> (c = CHR ''-'' \<or> is_digit c)"
proof -
  have "\<exists>c s. nat_str m = c # s \<and> is_digit c" for m
    using nat_str_hd [of m] nat_str_not_Nil [of m] by (cases "nat_str m") auto
  from this [of "nat n"] this [of "nat (- n)"] show ?thesis by (auto simp: int_str_def)
qed

lemma json_scalar_int:
  assumes "stops r"
  shows "json_scalar (int_str n @ r) = Some (PNum (of_int n), r)"
proof -
  obtain c s where c: "int_str n = c # s" "c = CHR ''-'' \<or> is_digit c" using int_str_start by blast
  have "find (\<lambda>(w, _). starts_with (int_str n @ r) w) literals = None"
    using c(2) by (auto simp: literals_def c(1) is_digit_def)
  then show ?thesis using json_number_int [OF assms, of n] by (simp add: json_scalar_def)
qed

subsection \<open>Values\<close>

lemma stops_marks [simp]: "stops (CHR '','' # r)" "stops (CHR '']'' # r)" "stops (CHR ''}'' # r)" "stops []"
  by (simp_all add: stops_def is_digit_def)

lemma marks_not_space [simp]:
  "\<not> is_json_space (CHR '','')" "\<not> is_json_space (CHR '']'')" "\<not> is_json_space (CHR ''}'')" "\<not> is_json_space (CHR '':'')"
  "\<not> is_json_space (CHR ''['')" "\<not> is_json_space (CHR ''{'')" "\<not> is_json_space (CHR 0x22)"
  by (simp_all add: is_json_space_def)

lemma expect_None: "s = d # r \<Longrightarrow> \<not> is_json_space d \<Longrightarrow> d \<noteq> c \<Longrightarrow> expect c s = None"
  by simp

text \<open>A text that is read back as a value whatever follows.\<close>

definition reads_as :: "string \<Rightarrow> parsed \<Rightarrow> bool" where
  "reads_as t v \<longleftrightarrow> (\<forall>r m. stops r \<longrightarrow> 2 * length (t @ r) < m \<longrightarrow> json_value m (t @ r) = Some (v, r))"

lemma reads_asI:
  assumes "\<And>r. stops r \<Longrightarrow> \<exists>m. json_value m (t @ r) = Some (v, r)"
  shows "reads_as t v"
  unfolding reads_as_def using assms json_fuel by metis

lemma reads_asD: "reads_as t v \<Longrightarrow> stops r \<Longrightarrow> \<exists>m. json_value m (t @ r) = Some (v, r)"
  unfolding reads_as_def by blast

text \<open>A value that starts with no structural character is read as a scalar.\<close>

lemma reads_scalar:
  assumes "t = d # t'" and "\<not> is_json_space d" and "d \<notin> {CHR 0x22, CHR ''['', CHR ''{''}"
    and "\<And>r. stops r \<Longrightarrow> json_scalar (t @ r) = Some (v, r)"
  shows "reads_as t v"
proof (rule reads_asI)
  fix r assume "stops r"
  then have "json_value (Suc 0) (t @ r) = Some (v, r)"
    using assms by (simp add: json_value.simps(2))
  then show "\<exists>m. json_value m (t @ r) = Some (v, r)" ..
qed

lemma reads_str: "reads_as (json_str s) (PStr s)"
proof (rule reads_asI)
  fix r
  have "json_value (Suc 0) (json_str s @ r) = Some (PStr s, r)"
    using json_string_str [of s r] by (simp add: json_value.simps(2) json_str_def)
  then show "\<exists>m. json_value m (json_str s @ r) = Some (PStr s, r)" ..
qed

lemma reads_word:
  assumes "(w, v) \<in> set literals"
  shows "reads_as w v"
proof -
  have "json_scalar (w @ r) = Some (v, r)" for r
    using assms by (auto simp: json_scalar_def literals_def)
  then show ?thesis using assms by (auto simp: literals_def is_json_space_def intro!: reads_scalar)
qed

lemma reads_int: "reads_as (int_str n) (PNum (of_int n))"
proof -
  obtain c s where c: "int_str n = c # s" "c = CHR ''-'' \<or> is_digit c" using int_str_start by blast
  then have "\<not> is_json_space c" "c \<notin> {CHR 0x22, CHR ''['', CHR ''{''}"
    by (auto simp: is_json_space_def is_digit_def)
  then show ?thesis using reads_scalar [OF c(1)] json_scalar_int by blast
qed

lemma reads_elements:
  assumes "list_all2 reads_as ts vs" and "ts \<noteq> []"
  shows "\<exists>m. json_elements m (join '','' ts @ '']'' @ r) = Some (vs, r)"
  using assms
proof (induction ts vs rule: list_all2_induct)
  case (Cons t ts v vs)
  show ?case
  proof (cases "ts = []")
    case True
    then have "vs = []" using Cons.hyps by simp
    obtain m where "json_value m (t @ '']'' @ r) = Some (v, '']'' @ r)"
      using reads_asD [OF Cons.hyps(1), of "'']'' @ r"] by auto
    then have "json_elements (Suc m) (join '','' (t # ts) @ '']'' @ r) = Some (v # vs, r)"
      using True \<open>vs = []\<close> by (simp add: json_elements.simps(2))
    then show ?thesis ..
  next
    case False
    let ?rest = "join '','' ts @ '']'' @ r"
    obtain m1 where m1: "json_value m1 (t @ '','' @ ?rest) = Some (v, '','' @ ?rest)"
      using reads_asD [OF Cons.hyps(1), of "'','' @ ?rest"] by auto
    obtain m2 where m2: "json_elements m2 ?rest = Some (vs, r)" using Cons.IH False by blast
    define m where "m = 2 * length (t @ '','' @ ?rest) + 2"
    have "json_value m (t @ '','' @ ?rest) = Some (v, '','' @ ?rest)" "json_elements m ?rest = Some (vs, r)"
      using json_fuel [THEN conjunct1, rule_format, OF m1, of m]
        json_fuel [THEN conjunct2, THEN conjunct1, rule_format, OF m2, of m] by (simp_all add: m_def)
    then have "json_elements (Suc m) (join '','' (t # ts) @ '']'' @ r) = Some (v # vs, r)"
      using False by (simp add: json_elements.simps(2) join_Cons)
    then show ?thesis ..
  qed
qed simp

lemma reads_members:
  assumes "list_all2 (\<lambda>(k, t) (j, v). k = j \<and> reads_as t v) fs vs" and "fs \<noteq> []"
  shows "\<exists>m. json_members m (join '','' (map (\<lambda>(k, t). json_str k @ '':'' @ t) fs) @ ''}'' @ r) = Some (vs, r)"
  using assms
proof (induction fs vs rule: list_all2_induct)
  case (Cons f fs jv vs)
  obtain k t v where f: "f = (k, t)" "jv = (k, v)" "reads_as t v" using Cons.hyps(1) by (cases f; cases jv) auto
  have name: "expect (CHR 0x22) (json_str k @ s) = Some (tl (json_str k) @ s)" for s by (simp add: json_str_def)
  show ?case
  proof (cases "fs = []")
    case True
    then have "vs = []" using Cons.hyps by simp
    obtain m where "json_value m (t @ ''}'' @ r) = Some (v, ''}'' @ r)"
      using reads_asD [OF f(3), of "''}'' @ r"] by auto
    then have "json_members (Suc m) (json_str k @ '':'' @ t @ ''}'' @ r) = Some ([(k, v)], r)"
      by (simp add: json_members.simps(2) name json_string_str)
    then show ?thesis using True \<open>vs = []\<close> f by auto
  next
    case False
    let ?rest = "join '','' (map (\<lambda>(k, t). json_str k @ '':'' @ t) fs) @ ''}'' @ r"
    obtain m1 where m1: "json_value m1 (t @ '','' @ ?rest) = Some (v, '','' @ ?rest)"
      using reads_asD [OF f(3), of "'','' @ ?rest"] by auto
    obtain m2 where m2: "json_members m2 ?rest = Some (vs, r)" using Cons.IH False by blast
    define m where "m = 2 * length (t @ '','' @ ?rest) + 2"
    have "json_value m (t @ '','' @ ?rest) = Some (v, '','' @ ?rest)" "json_members m ?rest = Some (vs, r)"
      using json_fuel [THEN conjunct1, rule_format, OF m1, of m]
        json_fuel [THEN conjunct2, THEN conjunct2, rule_format, OF m2, of m] by (simp_all add: m_def)
    then have "json_members (Suc m) (json_str k @ '':'' @ t @ '','' @ ?rest) = Some ((k, v) # vs, r)"
      by (simp add: json_members.simps(2) name json_string_str)
    then show ?thesis using False f by (auto simp: join_Cons)
  qed
qed simp

lemma join_start: "ts \<noteq> [] \<Longrightarrow> hd ts = c # s \<Longrightarrow> \<exists>s'. join sep ts @ r = c # s'"
  by (cases ts; cases "tl ts") auto

lemma stringify_start: "\<exists>c s. stringify v = c # s \<and> \<not> is_json_space c \<and> c \<noteq> CHR '']''"
proof (cases v)
  case (JNum n)
  then show ?thesis using int_str_start [of n] by (auto simp: is_json_space_def is_digit_def)
qed (auto simp: json_str_def is_json_space_def)

text \<open>An array or object around what its contents read as.\<close>

lemma reads_array:
  assumes "list_all2 reads_as (map stringify vs) ws"
  shows "reads_as (stringify (JArr vs)) (PArr ws)"
proof (rule reads_asI)
  fix r
  show "\<exists>m. json_value m (stringify (JArr vs) @ r) = Some (PArr ws, r)"
  proof (cases "vs = []")
    case True
    then have "json_value (Suc 0) (stringify (JArr vs) @ r) = Some (PArr ws, r)"
      using assms by (simp add: json_value.simps(2))
    then show ?thesis ..
  next
    case False
    obtain m where "json_elements m (join '','' (map stringify vs) @ '']'' @ r) = Some (ws, r)"
      using reads_elements [OF assms] False by auto
    moreover obtain c s where c: "hd (map stringify vs) = c # s" "\<not> is_json_space c" "c \<noteq> CHR '']''"
      using stringify_start [of "hd vs"] False by (auto simp: hd_map)
    have "expect (CHR '']'') (join '','' (map stringify vs) @ '']'' @ r) = None"
      using join_start [OF _ c(1)] False c(2,3) expect_None by (metis map_is_Nil_conv)
    ultimately have "json_value (Suc m) (stringify (JArr vs) @ r) = Some (PArr ws, r)"
      by (simp add: json_value.simps(2))
    then show ?thesis ..
  qed
qed

definition object_text :: "(string \<times> string) list \<Rightarrow> string" where
  "object_text fs = ''{'' @ join '','' (map (\<lambda>(k, t). json_str k @ '':'' @ t) fs) @ ''}''"

lemma reads_object:
  assumes "list_all2 (\<lambda>(k, t) (j, v). k = j \<and> reads_as t v) fs vs"
  shows "reads_as (object_text fs) (PObj vs)"
proof (rule reads_asI)
  fix r
  let ?ms = "map (\<lambda>(k, t). json_str k @ '':'' @ t) fs"
  show "\<exists>m. json_value m (object_text fs @ r) = Some (PObj vs, r)"
  proof (cases "fs = []")
    case True
    then have "json_value (Suc 0) (object_text fs @ r) = Some (PObj vs, r)"
      using assms by (simp add: json_value.simps(2) object_text_def)
    then show ?thesis ..
  next
    case False
    obtain m where "json_members m (join '','' ?ms @ ''}'' @ r) = Some (vs, r)"
      using reads_members [OF assms] False by blast
    moreover obtain s where s: "hd ?ms = CHR 0x22 # s"
      using False by (cases fs) (auto simp: json_str_def split: prod.splits)
    have "expect (CHR ''}'') (join '','' ?ms @ ''}'' @ r) = None"
      using join_start [OF _ s] False expect_None [where c = "CHR ''}''" and d = "CHR 0x22"] by fastforce
    ultimately have "json_value (Suc m) (object_text fs @ r) = Some (PObj vs, r)"
      by (simp add: json_value.simps(2) object_text_def)
    then show ?thesis ..
  qed
qed

lemma reads_stringify: "reads_as (stringify v) (of_json v)"
proof (induction v)
  case (JArr vs)
  then show ?case using reads_array [of vs "map of_json vs"] by (simp add: list_all2_conv_all_nth)
next
  case (JObj fs)
  let ?fs = "filter (\<lambda>(k, v). defined v) fs"
  have "list_all2 (\<lambda>(k, t) (j, v). k = j \<and> reads_as t v)
      (map (\<lambda>(k, v). (k, stringify v)) ?fs) (map (\<lambda>(k, v). (k, of_json v)) ?fs)"
    using JObj by (auto simp: list_all2_map1 list_all2_map2 intro!: list.rel_refl_strong)
  then show ?case using reads_object by (fastforce simp: object_text_def)
qed (auto intro: reads_str reads_int reads_word simp: literals_def)

text \<open>\<open>JSON.parse(JSON.stringify(v))\<close> gives back every value; \<open>undefined\<close> fields are left out.\<close>

lemma json_roundtrip: "json_parse (stringify v) = Some (of_json v)"
proof -
  have "json_value (2 * length (stringify v) + 2) (stringify v) = Some (of_json v, [])"
    using reads_stringify [of v, unfolded reads_as_def, rule_format, of "[]"] by simp
  then show ?thesis by (simp add: json_parse_def skip_def)
qed

end
