(* ===== verification/Cert_Store.thy ===== *)
theory Cert_Store
  imports Json_Parse
begin

text \<open>
  \<^verbatim>\<open>src/tls-certificates/cert-cache.ts\<close>, \<^verbatim>\<open>fs-cert-store.ts\<close> and \<^verbatim>\<open>s3-cert-store.ts\<close>: stored
  certificates, the two stores and the cache in front of them. A store backend is a record of
  operations on a state. The state of the file store is one directory with Node's file
  operations on it; the S3 client is a parameter, with what its documentation promises in
  \<open>s3_laws\<close>. \<open>cert_store\<close> is the contract the two backends share.
\<close>

section \<open>Stored certificates\<close>

record CachedCertificate =
  cacheKey_of :: string
  domain_of :: string
  key_of :: string
  cert_of :: string
  expiry_of :: int

definition cert_json :: "CachedCertificate \<Rightarrow> json" where
  "cert_json c = JObj
     [(''cacheKey'', JStr (cacheKey_of c)), (''domain'', JStr (domain_of c)), (''key'', JStr (key_of c)),
      (''cert'', JStr (cert_of c)), (''expiry'', JNum (expiry_of c))]"

text \<open>\<open>hash\<close> is \<open>crypto.hash('sha256', _, 'hex')\<close>.\<close>

definition certObjectId :: "(string \<Rightarrow> string) \<Rightarrow> string \<Rightarrow> string" where
  "certObjectId hash k = take 16 (hash k)"

fun parsed_truthy :: "parsed option \<Rightarrow> bool" where
  "parsed_truthy None \<longleftrightarrow> False"
| "parsed_truthy (Some PNull) \<longleftrightarrow> False"
| "parsed_truthy (Some (PBool b)) \<longleftrightarrow> b"
| "parsed_truthy (Some (PNum n)) \<longleftrightarrow> n \<noteq> 0"
| "parsed_truthy (Some (PStr s)) \<longleftrightarrow> s \<noteq> []"
| "parsed_truthy (Some _) \<longleftrightarrow> True"

definition cert_fields :: "string list" where
  "cert_fields = [''cacheKey'', ''domain'', ''key'', ''cert'', ''expiry'']"

text \<open>
  The checks in their order. A document with the five fields but of other types than
  \<open>CachedCertificate\<close> declares, which the stores never write, is an error here.
\<close>

definition typed_cert :: "parsed \<Rightarrow> CachedCertificate fallible" where
  "typed_cert data =
     (case map (parsed_field data) cert_fields of
        [Some (PStr k), Some (PStr d), Some (PStr p), Some (PStr c), Some (PNum x)] \<Rightarrow>
          if of_int \<lfloor>x\<rfloor> = x
          then Inr \<lparr>cacheKey_of = k, domain_of = d, key_of = p, cert_of = c, expiry_of = \<lfloor>x\<rfloor>\<rparr>
          else Inl (JsError ''not a certificate'')
      | _ \<Rightarrow> Inl (JsError ''not a certificate''))"

definition parseStoredCertificate :: "string \<Rightarrow> CachedCertificate fallible" where
  "parseStoredCertificate raw =
     (case json_parse raw of
        None \<Rightarrow> Inl (JsError ''SyntaxError'')
      | Some PNull \<Rightarrow> Inl (JsError ''TypeError'')
      | Some data \<Rightarrow>
          (case find (\<lambda>k. \<not> parsed_truthy (parsed_field data k)) cert_fields of
             Some k \<Rightarrow> Inl (JsError (''No '' @ k @ '' in cert''))
           | None \<Rightarrow> typed_cert data))"

text \<open>A certificate that can be stored: every field is truthy.\<close>

definition cert_ok :: "CachedCertificate \<Rightarrow> bool" where
  "cert_ok c \<longleftrightarrow> cacheKey_of c \<noteq> [] \<and> domain_of c \<noteq> [] \<and> key_of c \<noteq> [] \<and> cert_of c \<noteq> [] \<and> expiry_of c \<noteq> 0"

lemma cert_fields_back:
  "parsed_field (of_json (cert_json c)) ''cacheKey'' = Some (PStr (cacheKey_of c))"
  "parsed_field (of_json (cert_json c)) ''domain'' = Some (PStr (domain_of c))"
  "parsed_field (of_json (cert_json c)) ''key'' = Some (PStr (key_of c))"
  "parsed_field (of_json (cert_json c)) ''cert'' = Some (PStr (cert_of c))"
  "parsed_field (of_json (cert_json c)) ''expiry'' = Some (PNum (of_int (expiry_of c)))"
  by (simp_all add: cert_json_def parsed_field_def)

lemma parse_stored: "cert_ok c \<Longrightarrow> parseStoredCertificate (stringify (cert_json c)) = Inr c"
proof -
  assume ok: "cert_ok c"
  obtain fs where "of_json (cert_json c) = PObj fs" by (simp add: cert_json_def)
  then show ?thesis
    using ok cert_fields_back [of c]
    by (simp add: parseStoredCertificate_def json_roundtrip cert_ok_def cert_fields_def typed_cert_def)
qed

text \<open>
  Parsing what a store wrote gives back the certificate, and a certificate with an empty
  field or a zero expiry is refused with the name of its first such field.
\<close>

theorem stored_certificate_roundtrip:
  "parseStoredCertificate (stringify (cert_json c)) =
     (if cert_ok c then Inr c
      else Inl (JsError (''No '' @
        (if cacheKey_of c = [] then ''cacheKey'' else if domain_of c = [] then ''domain''
         else if key_of c = [] then ''key'' else if cert_of c = [] then ''cert'' else ''expiry'') @ '' in cert'')))"
proof -
  obtain fs where obj: "of_json (cert_json c) = PObj fs" by (simp add: cert_json_def)
  show ?thesis
    using cert_fields_back [of c]
    by (simp add: parseStoredCertificate_def json_roundtrip obj cert_ok_def cert_fields_def typed_cert_def)
qed

section \<open>Backends\<close>

text \<open>\<open>CertStoreBackend\<close>; \<open>writeIfAbsent\<close> gives whether it wrote.\<close>

record 's CertStoreBackend =
  backend_readAll :: "'s \<Rightarrow> CachedCertificate list fallible \<times> 's"
  backend_read :: "'s \<Rightarrow> string \<Rightarrow> CachedCertificate option fallible"
  backend_write :: "'s \<Rightarrow> CachedCertificate \<Rightarrow> unit fallible \<times> 's"
  backend_writeIfAbsent :: "'s \<Rightarrow> CachedCertificate \<Rightarrow> bool fallible \<times> 's"
  backend_delete :: "'s \<Rightarrow> string \<Rightarrow> unit fallible \<times> 's"

text \<open>
  What a store holds is a map from object ids to certificates; an unreadable object is \<open>corrupt\<close>.
  A failed operation may have been performed all the same. \<open>inv\<close> says that every object is where its key says, and
  \<open>env\<close> is what happens to the store on its own (it becomes unavailable, or available again).
\<close>

locale cert_store =
  fixes b :: "'s CertStoreBackend"
    and ident :: "string \<Rightarrow> string"
    and held :: "'s \<Rightarrow> string \<Rightarrow> CachedCertificate option"
    and inv :: "'s \<Rightarrow> bool"
    and env :: "'s \<Rightarrow> 's \<Rightarrow> bool"
    and corrupt :: "'s \<Rightarrow> string \<Rightarrow> bool"
  assumes read_held: "backend_read b s k = Inr x \<Longrightarrow> held s (ident k) = x"
    and write_held: "cert_ok c \<Longrightarrow> backend_write b s c = (r, s') \<Longrightarrow>
      held s' = (held s) (ident (cacheKey_of c) \<mapsto> c) \<or> r \<noteq> Inr () \<and> held s' = held s"
    and absent_held: "cert_ok c \<Longrightarrow> backend_writeIfAbsent b s c = (w, s') \<Longrightarrow>
      held s' = (held s) (ident (cacheKey_of c) \<mapsto> c) \<and> held s (ident (cacheKey_of c)) = None \<or>
      w \<noteq> Inr True \<and> held s' = held s"
    and delete_held: "backend_delete b s k = (r, s') \<Longrightarrow>
      held s' = (held s) (ident k := None) \<or> r \<noteq> Inr () \<and> held s' = held s"
    and readAll_held: "inv s \<Longrightarrow> backend_readAll b s = (a, s') \<Longrightarrow> held s' = held s"
    and readAll_mem: "inv s \<Longrightarrow> backend_readAll b s = (Inr cs, s') \<Longrightarrow> c \<in> set cs \<Longrightarrow>
      held s (ident (cacheKey_of c)) = Some c"
    and inv_write: "inv s \<Longrightarrow> cert_ok c \<Longrightarrow> inv (snd (backend_write b s c))"
    and inv_absent: "inv s \<Longrightarrow> cert_ok c \<Longrightarrow> inv (snd (backend_writeIfAbsent b s c))"
    and inv_delete: "inv s \<Longrightarrow> inv (snd (backend_delete b s k))"
    and inv_readAll: "inv s \<Longrightarrow> inv (snd (backend_readAll b s))"
    and absent_taken: "inv s \<Longrightarrow> cert_ok c \<Longrightarrow> backend_writeIfAbsent b s c = (Inr False, s') \<Longrightarrow>
      held s' (ident (cacheKey_of c)) \<noteq> None \<or> corrupt s' (ident (cacheKey_of c))"
    and corrupt_absent: "cert_ok c \<Longrightarrow> corrupt (snd (backend_writeIfAbsent b s c)) j \<Longrightarrow> corrupt s j"
    and corrupt_write: "cert_ok c \<Longrightarrow> corrupt (snd (backend_write b s c)) j \<Longrightarrow> corrupt s j"
    and corrupt_delete: "corrupt (snd (backend_delete b s k)) j \<Longrightarrow> corrupt s j"
    and corrupt_env: "env s s' \<Longrightarrow> corrupt s' j \<Longrightarrow> corrupt s j"
    and inv_ident: "inv s \<Longrightarrow> held s j = Some c \<Longrightarrow> ident (cacheKey_of c) = j"
    and env_held: "env s s' \<Longrightarrow> held s' = held s"
    and env_inv: "env s s' \<Longrightarrow> inv s \<Longrightarrow> inv s'"

section \<open>The file store\<close>

text \<open>
  One directory: its files in the order \<open>readdir\<close> lists them (\<open>None\<close> when it does not exist), and
  the code with which every access fails while the disk is unavailable.
\<close>

datatype outage = EACCES | EIO | EMFILE | EROFS

fun errno :: "outage \<Rightarrow> string" where
  "errno EACCES = ''EACCES''"
| "errno EIO = ''EIO''"
| "errno EMFILE = ''EMFILE''"
| "errno EROFS = ''EROFS''"

lemma errno_other [simp]: "errno e \<noteq> ''ENOENT''" "errno e \<noteq> ''EEXIST''"
  by (cases e; simp)+

record directory =
  listing :: "(string \<times> string) list option"
  failure :: "outage option"

definition fs_readdir :: "directory \<Rightarrow> string + string list" where
  "fs_readdir d =
     (case failure d of Some e \<Rightarrow> Inl (errno e)
      | None \<Rightarrow> (case listing d of None \<Rightarrow> Inl ''ENOENT'' | Some fs \<Rightarrow> Inr (map fst fs)))"

text \<open>\<open>mkdir\<close> with \<open>recursive\<close>: an existing directory is left alone.\<close>

definition fs_mkdir :: "directory \<Rightarrow> (string + unit) \<times> directory" where
  "fs_mkdir d =
     (case failure d of Some e \<Rightarrow> (Inl (errno e), d)
      | None \<Rightarrow> (Inr (), (case listing d of None \<Rightarrow> d\<lparr>listing := Some []\<rparr> | Some _ \<Rightarrow> d)))"

definition file_at :: "directory \<Rightarrow> string \<Rightarrow> string option" where
  "file_at d name = (case listing d of None \<Rightarrow> None | Some fs \<Rightarrow> map_of fs name)"

definition fs_readFile :: "directory \<Rightarrow> string \<Rightarrow> string + string" where
  "fs_readFile d name =
     (case failure d of Some e \<Rightarrow> Inl (errno e)
      | None \<Rightarrow> (case file_at d name of None \<Rightarrow> Inl ''ENOENT'' | Some content \<Rightarrow> Inr content))"

text \<open>\<open>writeFile\<close>; with the flag \<open>wx\<close> it fails when the file exists.\<close>

definition fs_writeFile :: "directory \<Rightarrow> string \<Rightarrow> string \<Rightarrow> bool \<Rightarrow> (string + unit) \<times> directory" where
  "fs_writeFile d name content wx =
     (case failure d of Some e \<Rightarrow> (Inl (errno e), d)
      | None \<Rightarrow>
          (case listing d of
             None \<Rightarrow> (Inl ''ENOENT'', d)
           | Some fs \<Rightarrow>
               if wx \<and> file_at d name \<noteq> None then (Inl ''EEXIST'', d)
               else (Inr (), d\<lparr>listing := Some (AList.update name content fs)\<rparr>)))"

definition fs_unlink :: "directory \<Rightarrow> string \<Rightarrow> (string + unit) \<times> directory" where
  "fs_unlink d name =
     (case failure d of Some e \<Rightarrow> (Inl (errno e), d)
      | None \<Rightarrow>
          (case file_at d name of
             None \<Rightarrow> (Inl ''ENOENT'', d)
           | Some _ \<Rightarrow> (Inr (), d\<lparr>listing := map_option (AList.delete name) (listing d)\<rparr>)))"

definition filePath :: "(string \<Rightarrow> string) \<Rightarrow> string \<Rightarrow> string" where
  "filePath hash k = certObjectId hash k @ ''.cert.json''"

definition fs_load :: "directory \<Rightarrow> string \<Rightarrow> CachedCertificate option" where
  "fs_load d name =
     (if \<not> ends_with name ''.cert.json'' then None
      else case fs_readFile d name of
          Inl e \<Rightarrow> None
        | Inr content \<Rightarrow> (case parseStoredCertificate content of Inl e \<Rightarrow> None | Inr c \<Rightarrow> Some c))"

definition fs_readAll :: "directory \<Rightarrow> CachedCertificate list fallible \<times> directory" where
  "fs_readAll d =
     (case fs_readdir d of
        Inl e \<Rightarrow>
          if e = ''ENOENT''
          then (case fs_mkdir d of (Inl e', d') \<Rightarrow> (Inl (JsError e'), d') | (Inr _, d') \<Rightarrow> (Inr [], d'))
          else (Inl (JsError e), d)
      | Inr names \<Rightarrow> (Inr (List.map_filter (fs_load d) names), d))"

definition fs_read :: "(string \<Rightarrow> string) \<Rightarrow> directory \<Rightarrow> string \<Rightarrow> CachedCertificate option fallible" where
  "fs_read hash d k =
     (case fs_readFile d (filePath hash k) of
        Inl e \<Rightarrow> if e = ''ENOENT'' then Inr None else Inl (JsError e)
      | Inr content \<Rightarrow> map_sum id Some (parseStoredCertificate content))"

definition fs_put :: "(string \<Rightarrow> string) \<Rightarrow> directory \<Rightarrow> CachedCertificate \<Rightarrow> bool \<Rightarrow> bool fallible \<times> directory" where
  "fs_put hash d c onlyIfAbsent =
     (case fs_mkdir d of
        (Inl e, d') \<Rightarrow> (Inl (JsError e), d')
      | (Inr _, d') \<Rightarrow>
          (case fs_writeFile d' (filePath hash (cacheKey_of c)) (stringify (cert_json c)) onlyIfAbsent of
             (Inr _, d'') \<Rightarrow> (Inr True, d'')
           | (Inl e, d'') \<Rightarrow>
               if onlyIfAbsent \<and> e = ''EEXIST'' then (Inr False, d'') else (Inl (JsError e), d'')))"

definition fs_delete :: "(string \<Rightarrow> string) \<Rightarrow> directory \<Rightarrow> string \<Rightarrow> unit fallible \<times> directory" where
  "fs_delete hash d k =
     (case fs_unlink d (filePath hash k) of
        (Inl e, d') \<Rightarrow> if e \<noteq> ''ENOENT'' then (Inl (JsError e), d') else (Inr (), d')
      | (Inr _, d') \<Rightarrow> (Inr (), d'))"

definition FilesystemCertStore :: "(string \<Rightarrow> string) \<Rightarrow> directory CertStoreBackend" where
  "FilesystemCertStore hash =
     \<lparr>backend_readAll = fs_readAll,
      backend_read = fs_read hash,
      backend_write = (\<lambda>d c. map_prod (map_sum id (\<lambda>_. ())) id (fs_put hash d c False)),
      backend_writeIfAbsent = (\<lambda>d c. fs_put hash d c True),
      backend_delete = fs_delete hash\<rparr>"

text \<open>What the directory holds, and that every certificate is in the file named after its key.\<close>

definition stored_cert :: "string option \<Rightarrow> CachedCertificate option" where
  "stored_cert content =
     (case content of None \<Rightarrow> None
      | Some t \<Rightarrow> (case parseStoredCertificate t of Inl _ \<Rightarrow> None | Inr c \<Rightarrow> Some c))"

definition fs_held :: "directory \<Rightarrow> string \<Rightarrow> CachedCertificate option" where
  "fs_held d i = stored_cert (file_at d (i @ ''.cert.json''))"

definition fs_inv :: "(string \<Rightarrow> string) \<Rightarrow> directory \<Rightarrow> bool" where
  "fs_inv hash d \<longleftrightarrow>
     (\<forall>name c. stored_cert (file_at d name) = Some c \<longrightarrow> ends_with name ''.cert.json'' \<longrightarrow>
        name = filePath hash (cacheKey_of c))"

lemma stored_cert_back [simp]: "cert_ok c \<Longrightarrow> stored_cert (Some (stringify (cert_json c))) = Some c"
  by (simp add: stored_cert_def parse_stored)

lemma file_at_mkdir: "fs_mkdir d = (r, d') \<Longrightarrow> file_at d' = file_at d"
  by (auto simp: fs_mkdir_def file_at_def fun_eq_iff split: option.splits)

lemma file_at_put:
  "fs_put hash d c w = (r, d') \<Longrightarrow>
    file_at d' = (if r = Inr True then (file_at d) (filePath hash (cacheKey_of c) \<mapsto> stringify (cert_json c)) else file_at d) \<and>
    (r = Inr True \<longrightarrow> w \<longrightarrow> file_at d (filePath hash (cacheKey_of c)) = None)"
  by (auto simp: fs_put_def fs_writeFile_def file_at_def fun_eq_iff update_conv' fs_mkdir_def split: option.splits if_splits)

lemma file_at_delete:
  "fs_delete hash d k = (r, d') \<Longrightarrow>
    file_at d' = (if r = Inr () then (file_at d) (filePath hash k := None) else file_at d)"
  by (auto simp: fs_delete_def fs_unlink_def file_at_def fun_eq_iff delete_conv' split: option.splits if_splits)

lemma file_at_readAll: "fs_readAll d = (r, d') \<Longrightarrow> file_at d' = file_at d"
  by (auto simp: fs_readAll_def dest: file_at_mkdir split: sum.splits if_splits prod.splits)

lemma fs_readAll_loaded:
  assumes "fs_readAll d = (Inr cs, d')" and "c \<in> set cs"
  shows "\<exists>name. ends_with name ''.cert.json'' \<and> stored_cert (file_at d name) = Some c"
proof -
  have load: "ends_with name ''.cert.json'' \<and> stored_cert (file_at d name) = Some c" if "fs_load d name = Some c" for name
    using that by (auto simp: fs_load_def fs_readFile_def stored_cert_def split: if_splits sum.splits option.splits)
  obtain names where "cs = List.map_filter (fs_load d) names"
    using assms by (auto simp: fs_readAll_def split: sum.splits if_splits prod.splits)
  then obtain name where "fs_load d name = Some c" using assms(2) by (auto simp: map_filter_def)
  then show ?thesis using load by blast
qed

lemma fs_read_stored: "fs_read hash d k = Inr x \<Longrightarrow> stored_cert (file_at d (filePath hash k)) = x"
  by (auto simp: fs_read_def fs_readFile_def stored_cert_def map_sum_def split: option.splits sum.splits if_splits)

lemma fs_held_at: "fs_held d (certObjectId hash k) = stored_cert (file_at d (filePath hash k))"
  by (simp add: fs_held_def filePath_def)

lemma file_name_eq: "i @ ''.cert.json'' = filePath hash k \<longleftrightarrow> i = certObjectId hash k"
  by (simp add: filePath_def)

lemma held_update:
  assumes "file_at d' = (file_at d) (filePath hash k := content)"
  shows "fs_held d' = (fs_held d) (certObjectId hash k := stored_cert content)"
  by (rule ext) (simp add: fs_held_def assms file_name_eq)

lemma inv_update:
  assumes "fs_inv hash d" and "file_at d' = (file_at d) (filePath hash k := content)"
    and "\<And>c. stored_cert content = Some c \<Longrightarrow> cacheKey_of c = k"
  shows "fs_inv hash d'"
  using assms unfolding fs_inv_def by auto

lemma fs_same:
  assumes "file_at d' = file_at d"
  shows "fs_held d' = fs_held d" and "fs_inv hash d' = fs_inv hash d"
  by (simp_all add: fs_held_def fs_inv_def assms fun_eq_iff)

lemma fs_write_put:
  "backend_write (FilesystemCertStore hash) d c = (r, d') \<longleftrightarrow>
     (\<exists>q. fs_put hash d c False = (q, d') \<and> r = map_sum id (\<lambda>_. ()) q)"
  by (cases "fs_put hash d c False") (auto simp: FilesystemCertStore_def)

lemma fs_put_total: "fs_put hash d c w = (Inr False, d') \<Longrightarrow> w"
  by (auto simp: fs_put_def fs_writeFile_def split: prod.splits sum.splits if_splits)

lemma fs_put_effect:
  assumes "cert_ok c" and "fs_put hash d c w = (r, d')"
  shows "fs_held d' = (if r = Inr True then (fs_held d) (certObjectId hash (cacheKey_of c) \<mapsto> c) else fs_held d)"
    and "fs_inv hash d \<Longrightarrow> fs_inv hash d'"
proof -
  have upd: "file_at d' = (if r = Inr True then (file_at d) (filePath hash (cacheKey_of c) \<mapsto> stringify (cert_json c)) else file_at d)"
    using file_at_put [OF assms(2)] by blast
  have readable: "stored_cert (Some (stringify (cert_json c))) = Some c" using assms(1) by (rule stored_cert_back)
  show "fs_held d' = (if r = Inr True then (fs_held d) (certObjectId hash (cacheKey_of c) \<mapsto> c) else fs_held d)"
  proof (cases "r = Inr True")
    case True
    then show ?thesis using held_update [OF upd [unfolded if_P [OF True]]] readable by simp
  next
    case False
    then show ?thesis using fs_same(1) [OF upd [unfolded if_not_P [OF False]]] by simp
  qed
  show "fs_inv hash d'" if "fs_inv hash d"
  proof (cases "r = Inr True")
    case True
    then show ?thesis using inv_update [OF that upd [unfolded if_P [OF True]]] readable by simp
  next
    case False
    then show ?thesis using fs_same(2) [OF upd [unfolded if_not_P [OF False]]] that by simp
  qed
qed

lemma fs_delete_effect:
  assumes "fs_delete hash d k = (r, d')"
  shows "fs_held d' = (if r = Inr () then (fs_held d) (certObjectId hash k := None) else fs_held d)"
    and "fs_inv hash d \<Longrightarrow> fs_inv hash d'"
proof -
  note upd = file_at_delete [OF assms]
  show "fs_held d' = (if r = Inr () then (fs_held d) (certObjectId hash k := None) else fs_held d)"
  proof (cases "r = Inr ()")
    case True
    then show ?thesis using held_update [OF upd [unfolded if_P [OF True]]] by (simp add: stored_cert_def)
  next
    case False
    then show ?thesis using fs_same(1) [OF upd [unfolded if_not_P [OF False]]] by simp
  qed
  show "fs_inv hash d'" if "fs_inv hash d"
  proof (cases "r = Inr ()")
    case True
    then show ?thesis using inv_update [OF that upd [unfolded if_P [OF True]]] by (simp add: stored_cert_def)
  next
    case False
    then show ?thesis using fs_same(2) [OF upd [unfolded if_not_P [OF False]]] that by simp
  qed
qed

definition unreadable :: "string option \<Rightarrow> bool" where
  "unreadable content \<longleftrightarrow> content \<noteq> None \<and> stored_cert content = None"

definition fs_corrupt :: "directory \<Rightarrow> string \<Rightarrow> bool" where
  "fs_corrupt d i \<longleftrightarrow> unreadable (file_at d (i @ ''.cert.json''))"

lemma fs_absent_taken:
  assumes "fs_put hash d c True = (Inr False, d')"
  shows "file_at d' (filePath hash (cacheKey_of c)) \<noteq> None"
proof -
  have "file_at d (filePath hash (cacheKey_of c)) \<noteq> None"
    using assms by (auto simp: fs_put_def fs_writeFile_def dest!: file_at_mkdir split: option.splits if_splits sum.splits prod.splits)
  then show ?thesis using file_at_put [OF assms] by simp
qed

lemma unreadable_put:
  assumes "cert_ok c" and "m' = m \<or> m' = m(p \<mapsto> stringify (cert_json c))" and "unreadable (m' q)"
  shows "unreadable (m q)"
  using assms by (auto simp: unreadable_def split: if_splits)

lemma fs_put_corrupt:
  assumes "cert_ok c" and "fs_put hash d c w = (r, d')" and "fs_corrupt d' j"
  shows "fs_corrupt d j"
  using unreadable_put [OF assms(1), of "file_at d'" "file_at d" "filePath hash (cacheKey_of c)" "j @ ''.cert.json''"]
    file_at_put [OF assms(2), THEN conjunct1] assms(3)
  by (simp add: fs_corrupt_def del: fun_upd_apply split: if_splits)

definition fs_env :: "directory \<Rightarrow> directory \<Rightarrow> bool" where
  "fs_env d d' \<longleftrightarrow> listing d' = listing d"

lemma fs_env_file: "fs_env d d' \<Longrightarrow> file_at d' = file_at d"
  by (simp add: fs_env_def file_at_def fun_eq_iff)

interpretation fs: cert_store "FilesystemCertStore hash" "certObjectId hash" fs_held "fs_inv hash" fs_env fs_corrupt
proof (unfold_locales, goal_cases)
  case (1 s k x)
  then show ?case by (simp add: FilesystemCertStore_def fs_held_at fs_read_stored)
next
  case (2 c s r s')
  then obtain q where "fs_put hash s c False = (q, s')" "r = map_sum id (\<lambda>_. ()) q" by (auto simp: fs_write_put)
  then show ?case
    using fs_put_effect(1) [OF 2(1)] fs_put_total [of hash s c False] by (cases q) (auto split: if_splits)
next
  case (3 c s w s')
  then show ?case
    using fs_put_effect(1) [of c hash s True w s'] file_at_put [of hash s c True w s']
    by (auto simp: FilesystemCertStore_def fs_held_at stored_cert_def)
next
  case (4 s k r s')
  then show ?case using fs_delete_effect(1) [of hash s k r s'] by (simp add: FilesystemCertStore_def)
next
  case (5 s a s')
  then show ?case using fs_same(1) [OF file_at_readAll] by (simp add: FilesystemCertStore_def)
next
  case (6 s cs s' c)
  then obtain name where "ends_with name ''.cert.json''" "stored_cert (file_at s name) = Some c"
    using fs_readAll_loaded [of s cs s' c] by (auto simp: FilesystemCertStore_def)
  then show ?case using 6(1) unfolding fs_inv_def by (metis fs_held_at)
next
  case (7 s c)
  then show ?case using fs_put_effect(2) [OF 7(2)] by (cases "fs_put hash s c False") (simp add: FilesystemCertStore_def)
next
  case (8 s c)
  then show ?case using fs_put_effect(2) [OF 8(2)] by (cases "fs_put hash s c True") (simp add: FilesystemCertStore_def)
next
  case (9 s k)
  then show ?case using fs_delete_effect(2) by (cases "fs_delete hash s k") (simp add: FilesystemCertStore_def)
next
  case (10 s)
  then show ?case
    using fs_same(2) [OF file_at_readAll] by (cases "fs_readAll s") (simp add: FilesystemCertStore_def)
next
  case (11 s c s')
  then have "file_at s' (filePath hash (cacheKey_of c)) \<noteq> None"
    by (simp add: FilesystemCertStore_def fs_absent_taken)
  then show ?case by (auto simp: fs_held_at fs_corrupt_def unreadable_def simp flip: filePath_def)
next
  case (12 c s j)
  obtain r d' where put: "fs_put hash s c True = (r, d')" by force
  then show ?case using fs_put_corrupt [OF 12(1) put] 12(2) by (simp add: FilesystemCertStore_def)
next
  case (13 c s j)
  obtain r d' where put: "fs_put hash s c False = (r, d')" by force
  then show ?case using fs_put_corrupt [OF 13(1) put] 13(2) by (simp add: FilesystemCertStore_def)
next
  case (14 s k j)
  obtain r d' where del: "fs_delete hash s k = (r, d')" by force
  then show ?case
    using file_at_delete [OF del] 14 by (auto simp: FilesystemCertStore_def fs_corrupt_def unreadable_def split: if_splits)
next
  case (15 s s' j)
  then show ?case by (simp add: fs_corrupt_def fs_env_file)
next
  case (16 s j c)
  then have "j @ ''.cert.json'' = filePath hash (cacheKey_of c)" by (auto simp: fs_inv_def fs_held_def)
  then show ?case by (simp add: file_name_eq)
next
  case (17 s s')
  then show ?case by (rule fs_same(1) [OF fs_env_file])
next
  case (18 s s')
  then show ?case using fs_same(2) [OF fs_env_file] by simp
qed

section \<open>The S3 store\<close>

text \<open>
  The client of \<^verbatim>\<open>@aws-sdk/client-s3\<close>, over the state of the service. An error is the HTTP
  status it carries, if any; a page of a listing may have no \<open>Contents\<close>, an object no \<open>Key\<close>.
\<close>

record 's s3_client =
  s3_get :: "'s \<Rightarrow> string \<Rightarrow> string \<Rightarrow> nat option + string option"
  s3_put :: "'s \<Rightarrow> string \<Rightarrow> string \<Rightarrow> string \<Rightarrow> bool \<Rightarrow> (nat option + unit) \<times> 's"
  s3_delete :: "'s \<Rightarrow> string \<Rightarrow> string \<Rightarrow> (nat option + unit) \<times> 's"
  s3_list :: "'s \<Rightarrow> string \<Rightarrow> string \<Rightarrow> nat option + string option list option list"

record S3Config =
  config_endpoint :: string
  config_region :: string
  config_bucket :: string
  config_accessKeyId :: string
  config_secretAccessKey :: string
  config_prefix :: "string option"

definition s3_prefix :: "S3Config \<Rightarrow> string" where
  "s3_prefix config = (case config_prefix config of None \<Rightarrow> [] | Some p \<Rightarrow> p)"

definition objectKey :: "(string \<Rightarrow> string) \<Rightarrow> S3Config \<Rightarrow> string \<Rightarrow> string" where
  "objectKey hash config k = s3_prefix config @ certObjectId hash k @ ''.json''"

definition s3_error :: js_exn where
  "s3_error = JsError ''S3ServiceException''"

text \<open>A missing or empty body is no certificate.\<close>

definition parse_body :: "string option \<Rightarrow> CachedCertificate option fallible" where
  "parse_body body =
     (case body of
        None \<Rightarrow> Inr None
      | Some t \<Rightarrow> if t = [] then Inr None else map_sum id Some (parseStoredCertificate t))"

definition listed_keys :: "string option list option list \<Rightarrow> string list" where
  "listed_keys pages =
     concat (map (\<lambda>page. case page of None \<Rightarrow> [] | Some objs \<Rightarrow>
       List.map_filter (\<lambda>k. case k of Some n \<Rightarrow> if n = [] then None else Some n | None \<Rightarrow> None) objs) pages)"

definition s3_load :: "'s s3_client \<Rightarrow> S3Config \<Rightarrow> 's \<Rightarrow> string \<Rightarrow> CachedCertificate option" where
  "s3_load client config s k =
     (case s3_get client s (config_bucket config) k of
        Inl e \<Rightarrow> None
      | Inr body \<Rightarrow> (case parse_body body of Inl e \<Rightarrow> None | Inr c \<Rightarrow> c))"

definition s3_readAll :: "'s s3_client \<Rightarrow> S3Config \<Rightarrow> 's \<Rightarrow> CachedCertificate list fallible \<times> 's" where
  "s3_readAll client config s =
     (case s3_list client s (config_bucket config) (s3_prefix config) of
        Inl e \<Rightarrow> (Inl s3_error, s)
      | Inr pages \<Rightarrow> (Inr (List.map_filter (s3_load client config s) (listed_keys pages)), s))"

definition s3_read :: "(string \<Rightarrow> string) \<Rightarrow> 's s3_client \<Rightarrow> S3Config \<Rightarrow> 's \<Rightarrow> string \<Rightarrow> CachedCertificate option fallible" where
  "s3_read hash client config s k =
     (case s3_get client s (config_bucket config) (objectKey hash config k) of
        Inl e \<Rightarrow> if e = Some 404 then Inr None else Inl s3_error
      | Inr body \<Rightarrow> parse_body body)"

definition s3_store_put ::
    "(string \<Rightarrow> string) \<Rightarrow> 's s3_client \<Rightarrow> S3Config \<Rightarrow> 's \<Rightarrow> CachedCertificate \<Rightarrow> bool \<Rightarrow> bool fallible \<times> 's" where
  "s3_store_put hash client config s c onlyIfAbsent =
     (case s3_put client s (config_bucket config) (objectKey hash config (cacheKey_of c)) (stringify (cert_json c)) onlyIfAbsent of
        (Inr _, s') \<Rightarrow> (Inr True, s')
      | (Inl e, s') \<Rightarrow> if onlyIfAbsent \<and> e = Some 412 then (Inr False, s') else (Inl s3_error, s'))"

definition s3_store_delete :: "(string \<Rightarrow> string) \<Rightarrow> 's s3_client \<Rightarrow> S3Config \<Rightarrow> 's \<Rightarrow> string \<Rightarrow> unit fallible \<times> 's" where
  "s3_store_delete hash client config s k =
     map_prod (map_sum (\<lambda>_. s3_error) id) id (s3_delete client s (config_bucket config) (objectKey hash config k))"

definition S3CertStore :: "(string \<Rightarrow> string) \<Rightarrow> 's s3_client \<Rightarrow> S3Config \<Rightarrow> 's CertStoreBackend" where
  "S3CertStore hash client config =
     \<lparr>backend_readAll = s3_readAll client config,
      backend_read = s3_read hash client config,
      backend_write = (\<lambda>s c. map_prod (map_sum id (\<lambda>_. ())) id (s3_store_put hash client config s c False)),
      backend_writeIfAbsent = (\<lambda>s c. s3_store_put hash client config s c True),
      backend_delete = s3_store_delete hash client config\<rparr>"

text \<open>
  What the service documents for one bucket, \<open>objects\<close> being its contents: a read is of the current
  object and 404 means there is none; a conditional write is performed only without an object, and
  412 means there is one; a listing has the keys with the prefix. A failed request (a timeout, an error of the
  service, a retry) may have been performed or not.
\<close>

definition s3_laws :: "'s s3_client \<Rightarrow> string \<Rightarrow> ('s \<Rightarrow> string \<Rightarrow> string option) \<Rightarrow> bool" where
  "s3_laws client bucket objects \<longleftrightarrow>
     (\<forall>s k body. s3_get client s bucket k = Inr body \<longrightarrow> body \<noteq> None \<and> objects s k = body) \<and>
     (\<forall>s k. s3_get client s bucket k = Inl (Some 404) \<longrightarrow> objects s k = None) \<and>
     (\<forall>s k t absent s'. s3_put client s bucket k t absent = (Inr (), s') \<longrightarrow>
        objects s' = (objects s)(k \<mapsto> t) \<and> (absent \<longrightarrow> objects s k = None)) \<and>
     (\<forall>s k t absent e s'. s3_put client s bucket k t absent = (Inl e, s') \<longrightarrow>
        (objects s' = objects s \<or> objects s' = (objects s)(k \<mapsto> t) \<and> (absent \<longrightarrow> objects s k = None)) \<and>
        (absent \<longrightarrow> e = Some 412 \<longrightarrow> objects s' k \<noteq> None)) \<and>
     (\<forall>s k s'. s3_delete client s bucket k = (Inr (), s') \<longrightarrow> objects s' = (objects s)(k := None)) \<and>
     (\<forall>s k e s'. s3_delete client s bucket k = (Inl e, s') \<longrightarrow>
        objects s' = objects s \<or> objects s' = (objects s)(k := None)) \<and>
     (\<forall>s p pages k. s3_list client s bucket p = Inr pages \<longrightarrow> k \<in> set (listed_keys pages) \<longrightarrow> starts_with k p)"

definition s3_held :: "S3Config \<Rightarrow> ('s \<Rightarrow> string \<Rightarrow> string option) \<Rightarrow> 's \<Rightarrow> string \<Rightarrow> CachedCertificate option" where
  "s3_held config objects s i = stored_cert (objects s (s3_prefix config @ i @ ''.json''))"

definition s3_corrupt :: "S3Config \<Rightarrow> ('s \<Rightarrow> string \<Rightarrow> string option) \<Rightarrow> 's \<Rightarrow> string \<Rightarrow> bool" where
  "s3_corrupt config objects s i \<longleftrightarrow> unreadable (objects s (s3_prefix config @ i @ ''.json''))"

definition s3_inv :: "(string \<Rightarrow> string) \<Rightarrow> S3Config \<Rightarrow> ('s \<Rightarrow> string \<Rightarrow> string option) \<Rightarrow> 's \<Rightarrow> bool" where
  "s3_inv hash config objects s \<longleftrightarrow>
     (\<forall>k c. stored_cert (objects s k) = Some c \<longrightarrow> starts_with k (s3_prefix config) \<longrightarrow>
        k = objectKey hash config (cacheKey_of c))"

lemma s3_get_law:
  assumes "s3_laws client bucket objects" and "s3_get client s bucket k = Inr body"
  shows "body \<noteq> None \<and> objects s k = body"
  using assms(1) [unfolded s3_laws_def, THEN conjunct1] assms(2) by blast

lemma s3_missing_law:
  assumes "s3_laws client bucket objects" and "s3_get client s bucket k = Inl (Some 404)"
  shows "objects s k = None"
  using assms(1) [unfolded s3_laws_def, THEN conjunct2, THEN conjunct1] assms(2) by blast

lemma s3_put_law:
  assumes "s3_laws client bucket objects" and "s3_put client s bucket k t absent = (q, s')"
  shows "objects s' = (objects s)(k \<mapsto> t) \<and> (absent \<longrightarrow> objects s k = None) \<or> q \<noteq> Inr () \<and> objects s' = objects s"
    and "absent \<Longrightarrow> q = Inl (Some 412) \<Longrightarrow> objects s' k \<noteq> None"
proof -
  have put: "\<forall>s k t absent s'. s3_put client s bucket k t absent = (Inr (), s') \<longrightarrow>
        objects s' = (objects s)(k \<mapsto> t) \<and> (absent \<longrightarrow> objects s k = None)"
    using assms(1) [unfolded s3_laws_def] by (elim conjE)
  have err: "\<forall>s k t absent e s'. s3_put client s bucket k t absent = (Inl e, s') \<longrightarrow>
        (objects s' = objects s \<or> objects s' = (objects s)(k \<mapsto> t) \<and> (absent \<longrightarrow> objects s k = None)) \<and>
        (absent \<longrightarrow> e = Some 412 \<longrightarrow> objects s' k \<noteq> None)"
    using assms(1) [unfolded s3_laws_def] by (elim conjE)
  show "objects s' = (objects s)(k \<mapsto> t) \<and> (absent \<longrightarrow> objects s k = None) \<or> q \<noteq> Inr () \<and> objects s' = objects s"
  proof (cases q)
    case (Inl e)
    then show ?thesis using err [rule_format, OF assms(2) [unfolded Inl]] by simp blast
  next
    case (Inr u)
    then show ?thesis using put [rule_format, of s k t absent s'] assms(2) by simp
  qed
  show "objects s' k \<noteq> None" if "absent" "q = Inl (Some 412)"
    using err [rule_format, OF assms(2) [unfolded that(2)]] that(1) by simp
qed

lemma s3_delete_law:
  assumes "s3_laws client bucket objects" and "s3_delete client s bucket k = (q, s')"
  shows "objects s' = (objects s)(k := None) \<or> q \<noteq> Inr () \<and> objects s' = objects s"
proof -
  have ok: "\<forall>s k s'. s3_delete client s bucket k = (Inr (), s') \<longrightarrow> objects s' = (objects s)(k := None)"
    using assms(1) [unfolded s3_laws_def] by (elim conjE)
  have err: "\<forall>s k e s'. s3_delete client s bucket k = (Inl e, s') \<longrightarrow> objects s' = objects s \<or> objects s' = (objects s)(k := None)"
    using assms(1) [unfolded s3_laws_def] by (elim conjE)
  show ?thesis
  proof (cases q)
    case (Inl e)
    then show ?thesis using err [rule_format, OF assms(2) [unfolded Inl]] by auto
  next
    case (Inr u)
    then show ?thesis using ok [rule_format, of s k s'] assms(2) by simp
  qed
qed

lemma s3_list_law:
  assumes "s3_laws client bucket objects" and "s3_list client s bucket p = Inr pages" and "k \<in> set (listed_keys pages)"
  shows "starts_with k p"
  using assms(1) [unfolded s3_laws_def, THEN conjunct2, THEN conjunct2, THEN conjunct2, THEN conjunct2, THEN conjunct2, THEN conjunct2]
    assms(2,3) by blast

lemma s3_put_objects:
  assumes laws: "s3_laws client (config_bucket config) objects"
    and "s3_store_put hash client config s c w = (r, s')"
  shows "objects s' = (objects s) (objectKey hash config (cacheKey_of c) \<mapsto> stringify (cert_json c)) \<and>
        (w \<longrightarrow> objects s (objectKey hash config (cacheKey_of c)) = None) \<or>
      r \<noteq> Inr True \<and> objects s' = objects s"
    and "r = Inr False \<Longrightarrow> w \<and> objects s' (objectKey hash config (cacheKey_of c)) \<noteq> None"
proof -
  obtain q where q: "s3_put client s (config_bucket config) (objectKey hash config (cacheKey_of c)) (stringify (cert_json c)) w = (q, s')"
      "r = (case q of Inr _ \<Rightarrow> Inr True | Inl e \<Rightarrow> if w \<and> e = Some 412 then Inr False else Inl s3_error)"
    using assms(2) by (auto simp: s3_store_put_def split: prod.splits sum.splits if_splits)
  have "r = Inr True \<longleftrightarrow> q = Inr ()" using q(2) by (cases q) auto
  then show "objects s' = (objects s) (objectKey hash config (cacheKey_of c) \<mapsto> stringify (cert_json c)) \<and>
        (w \<longrightarrow> objects s (objectKey hash config (cacheKey_of c)) = None) \<or>
      r \<noteq> Inr True \<and> objects s' = objects s"
    using s3_put_law(1) [OF laws q(1)] by simp
  show "w \<and> objects s' (objectKey hash config (cacheKey_of c)) \<noteq> None" if "r = Inr False"
    using s3_put_law(2) [OF laws q(1)] q(2) that by (cases q) (auto split: if_splits)
qed

lemma s3_delete_objects:
  assumes "s3_laws client (config_bucket config) objects" and "s3_store_delete hash client config s k = (r, s')"
  shows "objects s' = (objects s) (objectKey hash config k := None) \<or> r \<noteq> Inr () \<and> objects s' = objects s"
proof -
  obtain q where q: "s3_delete client s (config_bucket config) (objectKey hash config k) = (q, s')"
      "r = map_sum (\<lambda>_. s3_error) id q"
    using assms(2) by (auto simp: s3_store_delete_def map_prod_def split: prod.splits)
  then show ?thesis using s3_delete_law [OF assms(1) q(1)] by (cases q) auto
qed

lemma s3_held_at: "s3_held config objects s (certObjectId hash k) = stored_cert (objects s (objectKey hash config k))"
  by (simp add: s3_held_def objectKey_def)

lemma s3_held_update:
  assumes "objects s' = (objects s) (objectKey hash config k := content)"
  shows "s3_held config objects s' = (s3_held config objects s) (certObjectId hash k := stored_cert content)"
  by (rule ext) (simp add: s3_held_def assms objectKey_def)

lemma s3_inv_update:
  assumes "s3_inv hash config objects s" and "objects s' = (objects s) (objectKey hash config k := content)"
    and "\<And>c. stored_cert content = Some c \<Longrightarrow> cacheKey_of c = k"
  shows "s3_inv hash config objects s'"
  using assms unfolding s3_inv_def by auto

lemma s3_same:
  assumes "objects s' = objects s"
  shows "s3_held config objects s' = s3_held config objects s"
    and "s3_inv hash config objects s' = s3_inv hash config objects s"
  by (simp_all add: s3_held_def s3_inv_def assms fun_eq_iff)

lemma stringify_not_Nil: "stringify v \<noteq> []"
  using stringify_start [of v] by auto

lemma s3_put_effect:
  assumes "s3_laws client (config_bucket config) objects" and "cert_ok c"
    and "s3_store_put hash client config s c w = (r, s')"
  shows "s3_held config objects s' = (s3_held config objects s) (certObjectId hash (cacheKey_of c) \<mapsto> c) \<and>
        (w \<longrightarrow> s3_held config objects s (certObjectId hash (cacheKey_of c)) = None) \<or>
      r \<noteq> Inr True \<and> s3_held config objects s' = s3_held config objects s"
    and "s3_inv hash config objects s \<Longrightarrow> s3_inv hash config objects s'"
proof -
  note upd = s3_put_objects(1) [OF assms(1,3)]
  have readable: "stored_cert (Some (stringify (cert_json c))) = Some c" using assms(2) by (rule stored_cert_back)
  have empty: "objects s (objectKey hash config (cacheKey_of c)) = None \<Longrightarrow>
      s3_held config objects s (certObjectId hash (cacheKey_of c)) = None"
    by (simp add: s3_held_at stored_cert_def)
  show "s3_held config objects s' = (s3_held config objects s) (certObjectId hash (cacheKey_of c) \<mapsto> c) \<and>
        (w \<longrightarrow> s3_held config objects s (certObjectId hash (cacheKey_of c)) = None) \<or>
      r \<noteq> Inr True \<and> s3_held config objects s' = s3_held config objects s"
    using upd
  proof
    assume "objects s' = (objects s) (objectKey hash config (cacheKey_of c) \<mapsto> stringify (cert_json c)) \<and>
        (w \<longrightarrow> objects s (objectKey hash config (cacheKey_of c)) = None)"
    then show ?thesis
      using s3_held_update [of objects s' s hash config "cacheKey_of c"] readable empty by metis
  next
    assume "r \<noteq> Inr True \<and> objects s' = objects s"
    then show ?thesis using s3_same(1) [of objects s' s] by metis
  qed
  show "s3_inv hash config objects s'" if "s3_inv hash config objects s"
    using upd
  proof
    assume "objects s' = (objects s) (objectKey hash config (cacheKey_of c) \<mapsto> stringify (cert_json c)) \<and>
        (w \<longrightarrow> objects s (objectKey hash config (cacheKey_of c)) = None)"
    then show ?thesis by (intro s3_inv_update [OF that conjunct1]) (use readable in auto)
  next
    assume "r \<noteq> Inr True \<and> objects s' = objects s"
    then show ?thesis using s3_same(2) [of objects s' s] that by metis
  qed
qed

lemma s3_delete_effect:
  assumes "s3_laws client (config_bucket config) objects" and "s3_store_delete hash client config s k = (r, s')"
  shows "s3_held config objects s' = (s3_held config objects s) (certObjectId hash k := None) \<or>
      r \<noteq> Inr () \<and> s3_held config objects s' = s3_held config objects s"
    and "s3_inv hash config objects s \<Longrightarrow> s3_inv hash config objects s'"
proof -
  note upd = s3_delete_objects [OF assms]
  have none: "stored_cert None = None" by (simp add: stored_cert_def)
  show "s3_held config objects s' = (s3_held config objects s) (certObjectId hash k := None) \<or>
      r \<noteq> Inr () \<and> s3_held config objects s' = s3_held config objects s"
    using upd s3_held_update [of objects s' s hash config k None] s3_same(1) [of objects s' s] none by metis
  show "s3_inv hash config objects s'" if "s3_inv hash config objects s"
    using upd s3_inv_update [OF that, of s' k None] s3_same(2) [of objects s' s] that none by force
qed

lemma s3_get_stored:
  assumes "s3_laws client bucket objects" and "s3_get client s bucket k = Inr body" and "parse_body body = Inr x"
    and "objects s k \<noteq> Some []"
  shows "stored_cert (objects s k) = x"
proof -
  obtain t where t: "body = Some t" "objects s k = Some t" using s3_get_law [OF assms(1,2)] by auto
  then show ?thesis using assms(3,4)
    by (cases "parseStoredCertificate t") (auto simp: parse_body_def stored_cert_def)
qed

text \<open>An object that is only read as nothing because it is empty is no certificate either.\<close>

lemma s3_read_stored:
  assumes "s3_laws client (config_bucket config) objects" and "s3_read hash client config s k = Inr x"
  shows "stored_cert (objects s (objectKey hash config k)) = x"
proof (cases "s3_get client s (config_bucket config) (objectKey hash config k)")
  case (Inl e)
  then have "e = Some 404" "x = None" using assms(2) by (auto simp: s3_read_def split: if_splits)
  then show ?thesis using s3_missing_law [OF assms(1)] Inl by (simp add: stored_cert_def)
next
  case (Inr body)
  have empty: "stored_cert (Some []) = None" by (simp add: stored_cert_def parseStoredCertificate_def json_parse_def) code_simp
  show ?thesis
  proof (cases "objects s (objectKey hash config k) = Some []")
    case True
    then have "body = Some []" using s3_get_law [OF assms(1) Inr] by simp
    then show ?thesis using assms(2) Inr True empty by (simp add: s3_read_def parse_body_def)
  next
    case False
    then show ?thesis using s3_get_stored [OF assms(1) Inr] assms(2) Inr by (simp add: s3_read_def)
  qed
qed

lemma s3_load_stored:
  assumes "s3_laws client (config_bucket config) objects" and "s3_load client config s k = Some c"
  shows "stored_cert (objects s k) = Some c"
proof -
  obtain body where body: "s3_get client s (config_bucket config) k = Inr body" "parse_body body = Inr (Some c)"
    using assms(2) by (auto simp: s3_load_def split: sum.splits)
  moreover have "objects s k \<noteq> Some []"
  proof
    assume "objects s k = Some []"
    then have "body = Some []" using s3_get_law [OF assms(1) body(1)] by simp
    then show False using body(2) by (simp add: parse_body_def)
  qed
  ultimately show ?thesis using s3_get_stored [OF assms(1)] by blast
qed

lemma s3_put_corrupt:
  assumes "s3_laws client (config_bucket config) objects" and "cert_ok c"
    and "s3_store_put hash client config s c w = (r, s')" and "s3_corrupt config objects s' j"
  shows "s3_corrupt config objects s j"
  using unreadable_put [OF assms(2), of "objects s'" "objects s" "objectKey hash config (cacheKey_of c)"
      "s3_prefix config @ j @ ''.json''"]
    s3_put_objects(1) [OF assms(1,3)] assms(4)
  unfolding s3_corrupt_def by blast

text \<open>An S3 client that keeps the documented laws makes the second implementation of the contract.\<close>

lemma s3_store:
  assumes laws: "s3_laws client (config_bucket config) objects"
  shows "cert_store (S3CertStore hash client config) (certObjectId hash) (s3_held config objects)
    (s3_inv hash config objects) (\<lambda>s s'. objects s' = objects s) (s3_corrupt config objects)"
proof (unfold_locales, goal_cases)
  case (1 s k x)
  then show ?case using s3_read_stored [OF laws] by (simp add: S3CertStore_def s3_held_at)
next
  case (2 c s r s')
  then obtain q where q: "s3_store_put hash client config s c False = (q, s')" "r = map_sum id (\<lambda>_. ()) q"
    by (auto simp: S3CertStore_def map_prod_def split: prod.splits)
  have "q \<noteq> Inr False" using s3_put_objects(2) [OF laws q(1)] by blast
  then have "r = Inr () \<longleftrightarrow> q = Inr True" using q(2) by (cases q) auto
  then show ?case using s3_put_effect(1) [OF laws 2(1) q(1)] by auto
next
  case (3 c s w s')
  then show ?case using s3_put_effect(1) [OF laws 3(1), of hash s True w s'] by (simp add: S3CertStore_def)
next
  case (4 s k r s')
  then show ?case using s3_delete_effect(1) [OF laws] by (simp add: S3CertStore_def)
next
  case (5 s a s')
  then show ?case by (auto simp: S3CertStore_def s3_readAll_def split: sum.splits)
next
  case (6 s cs s' c)
  obtain pages k where k: "s3_list client s (config_bucket config) (s3_prefix config) = Inr pages"
      "k \<in> set (listed_keys pages)" "s3_load client config s k = Some c"
    using 6(2,3) by (auto simp: S3CertStore_def s3_readAll_def map_filter_def split: sum.splits)
  have "starts_with k (s3_prefix config)" using s3_list_law [OF laws k(1,2)] .
  then have "k = objectKey hash config (cacheKey_of c)"
    using 6(1) s3_load_stored [OF laws k(3)] unfolding s3_inv_def by blast
  then show ?case using s3_load_stored [OF laws k(3)] by (simp add: s3_held_at)
next
  case (7 s c)
  then show ?case using s3_put_effect(2) [OF laws 7(2)]
    by (cases "s3_store_put hash client config s c False") (simp add: S3CertStore_def)
next
  case (8 s c)
  then show ?case using s3_put_effect(2) [OF laws 8(2)]
    by (cases "s3_store_put hash client config s c True") (simp add: S3CertStore_def)
next
  case (9 s k)
  then show ?case using s3_delete_effect(2) [OF laws]
    by (cases "s3_store_delete hash client config s k") (simp add: S3CertStore_def)
next
  case (10 s)
  then show ?case by (auto simp: S3CertStore_def s3_readAll_def split: sum.splits)
next
  case (11 s c s')
  then have "objects s' (objectKey hash config (cacheKey_of c)) \<noteq> None"
    using s3_put_objects(2) [OF laws] by (simp add: S3CertStore_def)
  then show ?case by (auto simp: s3_held_at s3_corrupt_def unreadable_def simp flip: objectKey_def)
next
  case (12 c s j)
  obtain r s' where put: "s3_store_put hash client config s c True = (r, s')" by force
  then show ?case using s3_put_corrupt [OF laws 12(1) put] 12(2) by (simp add: S3CertStore_def)
next
  case (13 c s j)
  obtain r s' where put: "s3_store_put hash client config s c False = (r, s')" by force
  then show ?case using s3_put_corrupt [OF laws 13(1) put] 13(2) by (simp add: S3CertStore_def)
next
  case (14 s k j)
  obtain r s' where del: "s3_store_delete hash client config s k = (r, s')" by force
  then show ?case
    using s3_delete_objects [OF laws del] 14 by (auto simp: S3CertStore_def s3_corrupt_def unreadable_def split: if_splits)
next
  case (15 s s' j)
  then show ?case by (simp add: s3_corrupt_def)
next
  case (16 s j c)
  then have "s3_prefix config @ j @ ''.json'' = objectKey hash config (cacheKey_of c)"
    by (simp add: s3_inv_def s3_held_def)
  then show ?case by (simp add: objectKey_def)
next
  case (17 s s')
  then show ?case by (rule s3_same(1))
next
  case (18 s s')
  then show ?case using s3_same(2) by metis
qed

end
