(* ===== verification/Cert_Cache.thy ===== *)
theory Cert_Cache
  imports Cert_Store
begin

text \<open>
  \<^verbatim>\<open>PersistentCertCache\<close> of \<^verbatim>\<open>src/tls-certificates/cert-cache.ts\<close>: the in-memory cache in front of a
  shared store. Writes and deletes are not awaited, so they are in flight until the store performs
  them, in any order. \<open>fleet\<close> is any number of servers with one store: everything that the code awaits (the reads of
  \<open>fetchCert\<close> and \<open>loadCache\<close>) is a step of its own, between which anything else may happen.
\<close>

section \<open>The cache\<close>

type_synonym cert_cache = "string \<Rightarrow> CachedCertificate option"

datatype store_op = WriteOp CachedCertificate | DeleteOp string

definition cache_all :: "CachedCertificate list \<Rightarrow> cert_cache \<Rightarrow> cert_cache" where
  "cache_all certs cached = fold (\<lambda>c m. m(cacheKey_of c \<mapsto> c)) certs cached"

definition loadCache :: "'s CertStoreBackend \<Rightarrow> cert_cache \<Rightarrow> 's \<Rightarrow> cert_cache \<times> 's" where
  "loadCache b cached s =
     (case backend_readAll b s of
        (Inl e, s') \<Rightarrow> (cached, s')
      | (Inr certs, s') \<Rightarrow> (cache_all certs cached, s'))"

text \<open>\<open>cacheCert\<close> and \<open>clearCache\<close>, with the operation that they start on the store.\<close>

definition cacheCert :: "CachedCertificate \<Rightarrow> cert_cache \<Rightarrow> cert_cache \<times> store_op" where
  "cacheCert c cached = (cached(cacheKey_of c \<mapsto> c), WriteOp c)"

definition clearCache :: "string \<Rightarrow> cert_cache \<Rightarrow> cert_cache \<times> store_op" where
  "clearCache k cached = (cached(k := None), DeleteOp k)"

definition getCert :: "cert_cache \<Rightarrow> string \<Rightarrow> CachedCertificate option" where
  "getCert cached k = cached k"

text \<open>\<open>fetchCert\<close>, and what it does with the answer of the store.\<close>

definition take_fetched :: "string \<Rightarrow> CachedCertificate option fallible \<Rightarrow> cert_cache \<Rightarrow> cert_cache" where
  "take_fetched k answer cached =
     (case answer of Inr (Some stored) \<Rightarrow> cached(k \<mapsto> stored) | _ \<Rightarrow> cached)"

definition fetchCert ::
    "'s CertStoreBackend \<Rightarrow> 's \<Rightarrow> cert_cache \<Rightarrow> string \<Rightarrow> CachedCertificate option fallible \<times> cert_cache" where
  "fetchCert b s cached k =
     (case cached k of
        Some c \<Rightarrow> (Inr (Some c), cached)
      | None \<Rightarrow> (let answer = backend_read b s k in (answer, take_fetched k answer cached)))"

text \<open>A failure of a write or a delete is only logged.\<close>

fun perform :: "'s CertStoreBackend \<Rightarrow> store_op \<Rightarrow> 's \<Rightarrow> 's" where
  "perform b (WriteOp c) s = snd (backend_write b s c)"
| "perform b (DeleteOp k) s = snd (backend_delete b s k)"

section \<open>Servers on one store\<close>

text \<open>A call of \<open>fetchCert\<close> that missed the cache: waiting for the store, or with its answer.\<close>

datatype fetch =
    Asked nat string
  | Answered nat string "CachedCertificate option fallible"

fun fetch_server :: "fetch \<Rightarrow> nat" where
  "fetch_server (Asked i k) = i"
| "fetch_server (Answered i k answer) = i"

text \<open>\<open>loading\<close> has what a server that is starting has read so far.\<close>

record 's fleet =
  shared :: 's
  caches :: "nat \<Rightarrow> cert_cache"
  fetches :: "fetch list"
  loading :: "nat \<Rightarrow> CachedCertificate list option"
  in_flight :: "store_op list"
  issued :: "CachedCertificate list"

definition new_fleet :: "'s \<Rightarrow> 's fleet" where
  "new_fleet s0 =
     \<lparr>shared = s0, caches = \<lambda>_ _. None, fetches = [], loading = \<lambda>_. None, in_flight = [], issued = []\<rparr>"

text \<open>
  The steps. A server starts, with an empty cache; it reads the stored certificates one by one, each at a
  moment of its own, and caches them when all are there, or none if the store fails. It caches a
  new certificate or clears a key. It asks the store for a key that is not in its cache, the store answers, and the
  call goes on with the answer, whatever happened to the cache in between. An operation in
  flight is performed, once or (when the request is repeated, or reported as failed and performed all the same) more
  often. The store changes on its own.
\<close>

inductive fleet_step :: "'s CertStoreBackend \<Rightarrow> ('s \<Rightarrow> 's \<Rightarrow> bool) \<Rightarrow> 's fleet \<Rightarrow> 's fleet \<Rightarrow> bool"
  for b env where
  start: "fleet_step b env f
    (f\<lparr>caches := (caches f)(i := \<lambda>_. None), loading := (loading f)(i \<mapsto> []),
      fetches := filter (\<lambda>x. fetch_server x \<noteq> i) (fetches f)\<rparr>)"
| load: "loading f i = Some cs \<Longrightarrow> backend_readAll b (shared f) = (Inr found, s) \<Longrightarrow> c \<in> set found \<Longrightarrow>
    fleet_step b env f (f\<lparr>shared := s, loading := (loading f)(i \<mapsto> cs @ [c])\<rparr>)"
| loaded: "loading f i = Some cs \<Longrightarrow>
    fleet_step b env f (f\<lparr>caches := (caches f)(i := cache_all cs (caches f i)), loading := (loading f)(i := None)\<rparr>)"
| not_loaded: "loading f i = Some cs \<Longrightarrow> backend_readAll b (shared f) = (Inl e, s) \<Longrightarrow>
    fleet_step b env f (f\<lparr>shared := s, loading := (loading f)(i := None)\<rparr>)"
| put: "cert_ok c \<Longrightarrow> cacheCert c (caches f i) = (m, op) \<Longrightarrow>
    fleet_step b env f
      (f\<lparr>caches := (caches f)(i := m), in_flight := op # in_flight f, issued := c # issued f\<rparr>)"
| clear: "clearCache k (caches f i) = (m, op) \<Longrightarrow>
    fleet_step b env f (f\<lparr>caches := (caches f)(i := m), in_flight := op # in_flight f\<rparr>)"
| ask: "caches f i k = None \<Longrightarrow> fleet_step b env f (f\<lparr>fetches := Asked i k # fetches f\<rparr>)"
| answer: "fetches f = xs @ Asked i k # ys \<Longrightarrow>
    fleet_step b env f (f\<lparr>fetches := xs @ Answered i k (backend_read b (shared f) k) # ys\<rparr>)"
| resume: "fetches f = xs @ Answered i k a # ys \<Longrightarrow>
    fleet_step b env f (f\<lparr>caches := (caches f)(i := take_fetched k a (caches f i)), fetches := xs @ ys\<rparr>)"
| land: "in_flight f = xs @ op # ys \<Longrightarrow>
    fleet_step b env f (f\<lparr>shared := perform b op (shared f), in_flight := xs @ ys\<rparr>)"
| again: "op \<in> set (in_flight f) \<Longrightarrow> fleet_step b env f (f\<lparr>shared := perform b op (shared f)\<rparr>)"
| outside: "env (shared f) s \<Longrightarrow> fleet_step b env f (f\<lparr>shared := s\<rparr>)"

inductive fleet_reachable :: "'s CertStoreBackend \<Rightarrow> ('s \<Rightarrow> 's \<Rightarrow> bool) \<Rightarrow> 's \<Rightarrow> 's fleet \<Rightarrow> bool"
  for b env s0 where
  boot: "fleet_reachable b env s0 (new_fleet s0)"
| step: "fleet_reachable b env s0 f \<Longrightarrow> fleet_step b env f f' \<Longrightarrow> fleet_reachable b env s0 f'"

text \<open>With nothing in between, the three steps of a fetch are \<open>fetchCert\<close>.\<close>

lemma fetch_steps:
  assumes "caches f i k = None" and "fetchCert b (shared f) (caches f i) k = (a, m)"
  shows "(fleet_step b env)\<^sup>*\<^sup>* f (f\<lparr>caches := (caches f)(i := m)\<rparr>)"
proof -
  let ?f1 = "f\<lparr>fetches := Asked i k # fetches f\<rparr>"
  let ?f2 = "f\<lparr>fetches := Answered i k a # fetches f\<rparr>"
  have a: "a = backend_read b (shared f) k" "m = take_fetched k a (caches f i)"
    using assms by (auto simp: fetchCert_def Let_def)
  have "fleet_step b env f ?f1" by (rule fleet_step.ask [OF assms(1)])
  moreover have "fleet_step b env ?f1 ?f2"
    using fleet_step.answer [of ?f1 "[]" i k "fetches f" b env] a(1) by simp
  moreover have "fleet_step b env ?f2 (f\<lparr>caches := (caches f)(i := m)\<rparr>)"
    using fleet_step.resume [of ?f2 "[]" i k a "fetches f" b env] a(2) by simp
  ultimately show ?thesis by (meson rtranclp.rtrancl_into_rtrancl rtranclp.rtrancl_refl)
qed

section \<open>What a cache can hold\<close>

context cert_store
begin

text \<open>A certificate is known when it was held at the start or issued since.\<close>

definition known :: "'s \<Rightarrow> CachedCertificate list \<Rightarrow> CachedCertificate \<Rightarrow> bool" where
  "known s0 made c \<longleftrightarrow> c \<in> set made \<or> held s0 (ident (cacheKey_of c)) = Some c"

definition known_for :: "'s \<Rightarrow> CachedCertificate list \<Rightarrow> string \<Rightarrow> CachedCertificate \<Rightarrow> bool" where
  "known_for s0 made k c \<longleftrightarrow> known s0 made c \<and> ident (cacheKey_of c) = ident k"

definition fleet_ok :: "'s \<Rightarrow> 's fleet \<Rightarrow> bool" where
  "fleet_ok s0 f \<longleftrightarrow>
     inv (shared f) \<and>
     (\<forall>i k c. caches f i k = Some c \<longrightarrow> known_for s0 (issued f) k c) \<and>
     (\<forall>i k c. Answered i k (Inr (Some c)) \<in> set (fetches f) \<longrightarrow> known_for s0 (issued f) k c) \<and>
     (\<forall>i cs c. loading f i = Some cs \<longrightarrow> c \<in> set cs \<longrightarrow> known s0 (issued f) c) \<and>
     (\<forall>j c. held (shared f) j = Some c \<longrightarrow> known s0 (issued f) c) \<and>
     (\<forall>c. WriteOp c \<in> set (in_flight f) \<longrightarrow> cert_ok c \<and> c \<in> set (issued f))"

lemma known_more: "known s0 made c \<Longrightarrow> known s0 (d # made) c" "known s0 (c # made) c"
  by (auto simp: known_def)

lemma perform_inv:
  assumes "inv s" and "\<And>c. op = WriteOp c \<Longrightarrow> cert_ok c"
  shows "inv (perform b op s)"
  using assms inv_write inv_delete by (cases op) auto

lemma perform_held:
  assumes "held (perform b op s) j = Some d" and "\<And>c. op = WriteOp c \<Longrightarrow> cert_ok c"
  shows "op = WriteOp d \<or> held s j = Some d"
proof (cases op)
  case (WriteOp c)
  obtain r s' where w: "backend_write b s c = (r, s')" by force
  then show ?thesis using write_held [OF _ w] assms WriteOp by (auto split: if_splits)
next
  case (DeleteOp k)
  obtain r s' where d: "backend_delete b s k = (r, s')" by force
  then show ?thesis using delete_held [OF d] assms(1) DeleteOp by (auto split: if_splits)
qed

lemma cache_all_known: "cache_all cs m k = Some c \<Longrightarrow> m k = Some c \<or> (c \<in> set cs \<and> cacheKey_of c = k)"
  unfolding cache_all_def
proof (induction cs arbitrary: m)
  case (Cons d cs)
  then have "(m(cacheKey_of d \<mapsto> d)) k = Some c \<or> (c \<in> set cs \<and> cacheKey_of c = k)"
    using Cons.IH [of "m(cacheKey_of d \<mapsto> d)"] Cons.prems by (simp del: fun_upd_apply)
  then show ?case by (auto split: if_splits)
qed simp

lemma take_known: "take_fetched k a m j = Some c \<Longrightarrow> m j = Some c \<or> j = k \<and> a = Inr (Some c)"
  by (auto simp: take_fetched_def split: sum.splits option.splits if_splits)

lemma held_known:
  assumes "fleet_ok s0 f" and "held (shared f) (ident k) = Some c"
  shows "known_for s0 (issued f) k c"
  using assms inv_ident [of "shared f" "ident k" c] by (auto simp: fleet_ok_def known_for_def)

lemma perform_ok:
  assumes "fleet_ok s0 f" and "op \<in> set (in_flight f)"
  shows "fleet_ok s0 (f\<lparr>shared := perform b op (shared f)\<rparr>)"
proof -
  note ok = assms(1) [unfolded fleet_ok_def]
  have written: "op = WriteOp c \<Longrightarrow> cert_ok c \<and> c \<in> set (issued f)" for c using ok assms(2) by auto
  have "inv (perform b op (shared f))" using perform_inv ok written by blast
  moreover have "known s0 (issued f) c" if "held (perform b op (shared f)) j = Some c" for j c
    using perform_held [OF that] written ok by (auto simp: known_def)
  ultimately show ?thesis using ok by (auto simp: fleet_ok_def)
qed

lemma read_ok:
  assumes "fleet_ok s0 f" and "backend_readAll b (shared f) = (r, s)"
  shows "inv s" and "held s = held (shared f)"
    and "r = Inr found \<Longrightarrow> c \<in> set found \<Longrightarrow> known s0 (issued f) c"
proof -
  have inv: "inv (shared f)" using assms(1) by (simp add: fleet_ok_def)
  show "inv s" using inv_readAll [OF inv] assms(2) by simp
  show "held s = held (shared f)" by (rule readAll_held [OF inv assms(2)])
  show "known s0 (issued f) c" if "r = Inr found" "c \<in> set found"
    using readAll_mem [OF inv _ that(2)] assms that(1) unfolding fleet_ok_def by blast
qed

lemma step_ok:
  assumes "fleet_step b env f f'" and "fleet_ok s0 f"
  shows "fleet_ok s0 f'"
  using assms(1)
proof cases
  case (start i)
  then show ?thesis using assms(2) by (auto simp: fleet_ok_def)
next
  case (load i cs found s c)
  then show ?thesis
    using read_ok [OF assms(2) load(3)] load(2,4) assms(2) unfolding load(1) fleet_ok_def by auto
next
  case (loaded i cs)
  have "known_for s0 (issued f) k c" if "cache_all cs (caches f i) k = Some c" for k c
    using cache_all_known [OF that] loaded(2) assms(2) by (auto simp: fleet_ok_def known_for_def)
  then show ?thesis using assms(2) unfolding loaded(1) fleet_ok_def by auto
next
  case (not_loaded i cs e s)
  then show ?thesis using read_ok(1,2) [OF assms(2) not_loaded(3)] assms(2) unfolding not_loaded(1) fleet_ok_def by auto
next
  case (put c i m op)
  have "known_for s0 (c # issued f) k d" if "m k = Some d" for k d
    using that assms(2) put(3)
    by (cases "k = cacheKey_of c") (auto simp: fleet_ok_def cacheCert_def known_for_def intro: known_more)
  then show ?thesis
    using assms(2) put(2,3) known_more unfolding put(1) fleet_ok_def by (auto simp: cacheCert_def known_for_def)
next
  case (clear k i m op)
  then show ?thesis using assms(2) unfolding fleet_ok_def by (auto simp: clearCache_def split: if_splits)
next
  case (ask i k)
  then show ?thesis using assms(2) by (auto simp: fleet_ok_def)
next
  case (answer xs i k ys)
  have "known_for s0 (issued f) k c" if "backend_read b (shared f) k = Inr (Some c)" for c
    by (rule held_known [OF assms(2)]) (rule read_held [OF that])
  then show ?thesis using assms(2) answer(2) unfolding answer(1) fleet_ok_def by auto
next
  case (resume xs i k a ys)
  have "known_for s0 (issued f) j c" if "take_fetched k a (caches f i) j = Some c" for j c
    using take_known [OF that] assms(2) resume(2) by (auto simp: fleet_ok_def)
  then show ?thesis using assms(2) resume(2) unfolding resume(1) fleet_ok_def by auto
next
  case (land xs op ys)
  then show ?thesis using perform_ok [OF assms(2), of op] unfolding land(1) fleet_ok_def by auto
next
  case (again op)
  then show ?thesis using perform_ok [OF assms(2)] by blast
next
  case (outside s)
  then show ?thesis using assms(2) env_held [OF outside(2)] env_inv [OF outside(2)]
    unfolding outside(1) fleet_ok_def by auto
qed

lemma fleet_reachable_ok: "fleet_reachable b env s0 f \<Longrightarrow> inv s0 \<Longrightarrow> fleet_ok s0 f"
proof (induction rule: fleet_reachable.induct)
  case boot
  then show ?case using inv_ident by (fastforce simp: fleet_ok_def known_def new_fleet_def)
next
  case (step f f')
  then show ?case using step_ok by blast
qed

lemma cache_integrity:
  assumes "fleet_reachable b env s0 f" and "inv s0"
    and "getCert (caches f i) k = Some c \<or> Answered i k (Inr (Some c)) \<in> set (fetches f)"
  shows "ident (cacheKey_of c) = ident k \<and> known s0 (issued f) c"
  using fleet_reachable_ok [OF assms(1,2)] assms(3) by (auto simp: fleet_ok_def getCert_def known_for_def)

end

section \<open>Caches over S3\<close>

text \<open>
  C15: Whatever a server has cached for a key, or \<open>fetchCert\<close> returns for it, was issued for a key with the
  same object id, by some server or before the start, in every order in which the reads, writes, deletes, restarts
  and outages of any number of servers interleave, requests that are reported as failed but performed included.
\<close>

theorem shared_cache_integrity:
  assumes "s3_laws client (config_bucket config) objects" and "s3_inv hash config objects s0"
    and "fleet_reachable (S3CertStore hash client config) (\<lambda>s s'. objects s' = objects s) s0 f"
    and "getCert (caches f i) k = Some c \<or> Answered i k (Inr (Some c)) \<in> set (fetches f)"
  shows "certObjectId hash (cacheKey_of c) = certObjectId hash k \<and>
    (c \<in> set (issued f) \<or> s3_held config objects s0 (certObjectId hash (cacheKey_of c)) = Some c)"
  using cert_store.cache_integrity [OF s3_store [OF assms(1)] assms(3,2,4)]
  unfolding cert_store.known_def [OF s3_store [OF assms(1)]] .

text \<open>A bucket that is a map, always available.\<close>

definition map_client :: "(string \<times> string) list s3_client" where
  "map_client =
     \<lparr>s3_get = (\<lambda>s bucket k. case map_of s k of None \<Rightarrow> Inl (Some 404) | Some t \<Rightarrow> Inr (Some t)),
      s3_put = (\<lambda>s bucket k t absent.
        if absent \<and> map_of s k \<noteq> None then (Inl (Some 412), s) else (Inr (), AList.update k t s)),
      s3_delete = (\<lambda>s bucket k. (Inr (), AList.delete k s)),
      s3_list = (\<lambda>s bucket p. Inr [Some (map Some (filter (\<lambda>k. starts_with k p) (map fst s)))])\<rparr>"

lemma map_client_laws: "s3_laws map_client bucket map_of"
  unfolding s3_laws_def
proof (intro conjI allI impI, goal_cases)
  case (1 s k body)
  then show ?case by (cases "map_of s k") (auto simp: map_client_def)
next
  case (10 s p pages k)
  then show ?case by (auto simp: map_client_def listed_keys_def map_filter_def split: if_splits)
qed (auto simp: map_client_def update_conv' delete_conv' split: option.splits if_splits)

definition sample_config :: S3Config where
  "sample_config =
     \<lparr>config_endpoint = ''https://fly.storage.tigris.dev'', config_region = ''auto'', config_bucket = ''certs'',
      config_accessKeyId = ''id'', config_secretAccessKey = ''secret'', config_prefix = Some ''certs/''\<rparr>"

definition sample_cert :: CachedCertificate where
  "sample_cert =
     \<lparr>cacheKey_of = ''a.localhost+'', domain_of = ''a.localhost'', key_of = ''KEY'', cert_of = ''CERT'',
      expiry_of = 1800000000000\<rparr>"

theorem shared_cache_integrity_witness:
  "certObjectId id (cacheKey_of sample_cert) = certObjectId id ''a.localhost+'' \<and>
    (sample_cert \<in> set [sample_cert] \<or>
     s3_held sample_config map_of [] (certObjectId id (cacheKey_of sample_cert)) = Some sample_cert)"
proof -
  let ?env = "\<lambda>s s'. map_of s' = (map_of s :: string \<Rightarrow> string option)"
  let ?b = "S3CertStore id map_client sample_config"
  let ?key = "objectKey id sample_config ''a.localhost+''"
  let ?m = "(\<lambda>_. None)(''a.localhost+'' \<mapsto> sample_cert)"
  let ?f1 = "(new_fleet [])\<lparr>caches := (\<lambda>_ _. None)(0 := ?m), in_flight := [WriteOp sample_cert], issued := [sample_cert]\<rparr>"
  let ?f2 = "?f1\<lparr>shared := [(?key, stringify (cert_json sample_cert))], in_flight := []\<rparr>"
  let ?f3 = "?f2\<lparr>fetches := [Asked 1 ''a.localhost+'']\<rparr>"
  let ?f4 = "?f2\<lparr>fetches := [Answered 1 ''a.localhost+'' (Inr (Some sample_cert))]\<rparr>"
  have ok: "cert_ok sample_cert" by (simp add: cert_ok_def sample_cert_def)
  have "fleet_step ?b ?env (new_fleet []) ?f1"
    using fleet_step.put [of sample_cert "new_fleet []" 0 ?m "WriteOp sample_cert" ?b ?env] ok
    by (simp add: cacheCert_def new_fleet_def sample_cert_def)
  then have f1: "fleet_reachable ?b ?env [] ?f1" by (rule fleet_reachable.step [OF fleet_reachable.boot])
  have performed: "perform ?b (WriteOp sample_cert) [] = [(?key, stringify (cert_json sample_cert))]"
    by (simp add: S3CertStore_def s3_store_put_def map_client_def sample_cert_def)
  have "fleet_step ?b ?env ?f1 ?f2"
    using fleet_step.land [of ?f1 "[]" "WriteOp sample_cert" "[]" ?b ?env] performed by (simp add: new_fleet_def)
  then have f2: "fleet_reachable ?b ?env [] ?f2" by (rule fleet_reachable.step [OF f1])
  have "fleet_step ?b ?env ?f2 ?f3"
    using fleet_step.ask [of ?f2 1 "''a.localhost+''" ?b ?env] by (simp add: new_fleet_def)
  then have f3: "fleet_reachable ?b ?env [] ?f3" by (rule fleet_reachable.step [OF f2])
  note readable = parse_stored [OF ok]
  have "backend_read ?b [(?key, stringify (cert_json sample_cert))] ''a.localhost+'' = Inr (Some sample_cert)"
    by (simp add: S3CertStore_def s3_read_def map_client_def parse_body_def stringify_not_Nil readable)
  then have "fleet_step ?b ?env ?f3 ?f4"
    using fleet_step.answer [of ?f3 "[]" 1 "''a.localhost+''" "[]" ?b ?env] by simp
  then have f4: "fleet_reachable ?b ?env [] ?f4" by (rule fleet_reachable.step [OF f3])
  show ?thesis
    using shared_cache_integrity [OF map_client_laws _ f4, of 1 "''a.localhost+''" sample_cert]
    by (simp add: s3_inv_def stored_cert_def)
qed

end
