(* ===== verification/Persisted_Ca.thy ===== *)
theory Persisted_Ca
  imports Cert_Store Base64
begin

text \<open>
  The certificate authorities of \<^verbatim>\<open>src/tls-certificates/local-ca.ts\<close>: how a CA certificate is made,
  and how one that all servers share is loaded from the store, created or renewed. A certificate
  is the data that the generator of \<^verbatim>\<open>@peculiar/x509\<close> is given; its PEM text, the parser and the
  decoder of keys are the record \<open>x509_lib\<close>. A key is its PKCS#8 (or SPKI) encoding. Dates are
  milliseconds, with calendar years in UTC. The awaits of \<open>loadOrCreatePersistedCA\<close> divide it into
  the steps of \<open>ca_step\<close>, which other servers' steps come between.
\<close>

section \<open>Certificates\<close>

type_synonym dn = "(string \<times> string) list"

record x509 =
  x_serial :: string
  x_subject :: dn
  x_issuer :: dn
  x_notBefore :: int
  x_notAfter :: int
  x_hash :: string
  x_publicKey :: bytes
  x_signingKey :: bytes
  x_isCa :: bool
  x_pathLen :: "nat option"
  x_keyUsages :: "string list"
  x_extKeyUsages :: "string list"
  x_altNames :: "(string \<times> string) list option"
  x_policies :: "string list"
  x_subjectKeyId :: bool
  x_authority :: "dn option"

record x509_lib =
  pem_of :: "x509 \<Rightarrow> string"
  parse_pem :: "string \<Rightarrow> x509 option"
  decode_key :: "string \<Rightarrow> bytes option"

text \<open>What differs between two calls: the time, the random UUID and the generated key pairs.\<close>

record moment =
  now_ms :: int
  random_uuid :: string
  generated_keys :: "nat \<Rightarrow> bytes \<times> bytes"

section \<open>Helpers\<close>

text \<open>\<open>base64.match(/.{1,64}/g)\<close>.\<close>

fun lines_of_64 :: "string \<Rightarrow> string list" where
  "lines_of_64 s = (if s = [] then [] else take 64 s # lines_of_64 (drop 64 s))"

declare lines_of_64.simps [simp del]

definition arrayBufferToPem :: "bytes \<Rightarrow> string \<Rightarrow> string" where
  "arrayBufferToPem buffer label =
     ''-----BEGIN '' @ label @ ''-----'' @ newline @ join newline (lines_of_64 (base64_encode buffer)) @ newline @
     ''-----END '' @ label @ ''-----'' @ newline"

definition generateSerialNumber :: "string \<Rightarrow> string" where
  "generateSerialNumber uuid = CHR ''1'' # filter (\<lambda>c. c \<noteq> CHR ''-'') uuid"

definition clampNotAfter :: "int \<Rightarrow> int \<Rightarrow> int" where
  "clampNotAfter notAfter issuerNotAfter = (if notAfter > issuerNotAfter then issuerNotAfter else notAfter)"

definition DAY_MS :: int where
  "DAY_MS = 86400000"

text \<open>
  \<open>setDate(getDate() + n)\<close> and \<open>setFullYear(getFullYear() + n)\<close>. Counting years from March, a leap
  day is the last of its year, so the date in another year is as many days into that year; the
  29th of February becomes the 1st of March.
\<close>

definition add_days :: "int \<Rightarrow> int \<Rightarrow> int" where
  "add_days n t = t + n * DAY_MS"

definition march_year :: "int \<Rightarrow> int" where
  "march_year day =
     (let z = day + 719468;
          doe = z mod 146097
      in 400 * (z div 146097) + (doe - doe div 1460 + doe div 36524 - doe div 146096) div 365)"

definition leap_days :: "int \<Rightarrow> int" where
  "leap_days y = y div 4 - y div 100 + y div 400"

definition add_years :: "int \<Rightarrow> int \<Rightarrow> int" where
  "add_years n t =
     (let y = march_year (t div DAY_MS)
      in t + DAY_MS * (365 * n + leap_days (y + n) - leap_days y))"

lemma div_next:
  assumes "0 < (n::int)"
  shows "(y + 1) div n = y div n + (if n dvd y + 1 then 1 else 0)"
proof (cases "y mod n + 1 = n")
  case True
  have "y = n * (y div n) + y mod n" by simp
  then have eq: "y + 1 = n * (y div n + 1)" using True by (simp only: distrib_left)
  have "(y + 1) div n = y div n + 1" unfolding eq using assms by simp
  moreover have "n dvd y + 1" unfolding eq by simp
  ultimately show ?thesis by simp
next
  case False
  have r: "0 \<le> y mod n + 1" "y mod n + 1 < n"
    using False pos_mod_sign [OF assms, of y] pos_mod_bound [OF assms, of y] by linarith+
  have y: "y + 1 = n * (y div n) + (y mod n + 1)" by simp
  have "(y + 1) div n = y div n" by (rule int_div_pos_eq [OF y r])
  moreover have "(y + 1) mod n = y mod n + 1" by (rule int_mod_pos_eq [OF y r])
  then have "\<not> n dvd y + 1" using r pos_mod_sign [OF assms, of y] by (simp add: dvd_eq_mod_eq_0)
  ultimately show ?thesis by simp
qed

lemma leap_days_next: "leap_days y \<le> leap_days (y + 1) \<and> leap_days (y + 1) \<le> leap_days y + 1"
proof -
  have "400 dvd y + 1 \<Longrightarrow> 100 dvd y + 1" using dvd_trans [of "100" "400" "y + 1"] by simp
  moreover have "100 dvd y + 1 \<Longrightarrow> 4 dvd y + 1" using dvd_trans [of "4" "100" "y + 1"] by simp
  ultimately show ?thesis by (simp add: leap_days_def div_next)
qed

lemma leap_days_diff: "leap_days y \<le> leap_days (y + int n) \<and> leap_days (y + int n) \<le> leap_days y + int n"
proof (induction n)
  case (Suc n)
  have next_year: "y + int (Suc n) = (y + int n) + 1" by simp
  show ?case unfolding next_year using Suc leap_days_next [of "y + int n"] by linarith
qed simp

text \<open>A later date: by at least 365 and at most 366 days a year.\<close>

lemma add_years_bounds:
  "t + 365 * int n * DAY_MS \<le> add_years (int n) t \<and> add_years (int n) t \<le> t + 366 * int n * DAY_MS"
  using leap_days_diff [of "march_year (t div DAY_MS)" n] by (simp add: add_years_def Let_def DAY_MS_def)

section \<open>CA certificates\<close>

record CaMaterial =
  ca_cert :: x509
  ca_key :: bytes
  ca_pem :: string

definition buildCaCertificate ::
    "moment \<Rightarrow> dn \<Rightarrow> nat \<Rightarrow> nat option \<Rightarrow> int \<Rightarrow> (x509 \<times> bytes) option \<Rightarrow> (bytes \<times> bytes) \<times> x509" where
  "buildCaCertificate m subject bits pathLenConstraint lifespanYears signWith =
     (let keyPair = generated_keys m bits in
      (keyPair,
       \<lparr>x_serial = generateSerialNumber (random_uuid m),
        x_subject = subject,
        x_issuer = (case signWith of Some (cert, _) \<Rightarrow> x_subject cert | None \<Rightarrow> subject),
        x_notBefore = add_days (-1) (now_ms m),
        x_notAfter = add_years lifespanYears (now_ms m),
        x_hash = ''SHA-256'',
        x_publicKey = fst keyPair,
        x_signingKey = (case signWith of Some (_, key) \<Rightarrow> key | None \<Rightarrow> snd keyPair),
        x_isCa = True,
        x_pathLen = pathLenConstraint,
        x_keyUsages = [''keyCertSign'', ''digitalSignature'', ''cRLSign''],
        x_extKeyUsages = [],
        x_altNames = None,
        x_policies = [],
        x_subjectKeyId = True,
        x_authority = map_option (x_subject \<circ> fst) signWith\<rparr>))"

text \<open>\<open>generateCACertificate\<close> with its defaults; an empty name is left out of the subject.\<close>

definition generateCACertificate ::
    "x509_lib \<Rightarrow> moment \<Rightarrow> string option \<Rightarrow> string option \<Rightarrow> string option \<Rightarrow> nat option \<Rightarrow> string \<times> string" where
  "generateCACertificate lib m commonName organizationName countryName bits =
     (let cn = (case commonName of None \<Rightarrow> ''Test Certificate Authority'' | Some s \<Rightarrow> s);
          org = (case organizationName of None \<Rightarrow> ''Testserver'' | Some s \<Rightarrow> s);
          cc = (case countryName of None \<Rightarrow> ''XX'' | Some s \<Rightarrow> s);
          subject = filter (\<lambda>(_, v). v \<noteq> []) [(''C'', cc), (''O'', org), (''CN'', cn)];
          (keyPair, certificate) =
            buildCaCertificate m subject (case bits of None \<Rightarrow> 2048 | Some n \<Rightarrow> n) None 1 None
      in (arrayBufferToPem (snd keyPair) ''PRIVATE KEY'', pem_of lib certificate))"

definition buildManagedCA ::
    "x509_lib \<Rightarrow> moment \<Rightarrow> string \<Rightarrow> nat \<Rightarrow> string \<Rightarrow> int \<Rightarrow> (x509 \<times> bytes) option \<Rightarrow> CaMaterial" where
  "buildManagedCA lib m country keyLength commonName lifespanYears signWith =
     (let (keyPair, certificate) =
        buildCaCertificate m [(''C'', country), (''O'', ''Testserver''), (''CN'', commonName)] keyLength (Some 0)
          lifespanYears signWith
      in \<lparr>ca_cert = certificate, ca_key = snd keyPair, ca_pem = pem_of lib certificate\<rparr>)"

section \<open>Loading or creating a shared CA\<close>

definition RENEWAL_MARGIN_MS :: int where
  "RENEWAL_MARGIN_MS = 1000 * 60 * 60 * 24 * 30"

definition isCaUsable :: "int \<Rightarrow> CachedCertificate \<Rightarrow> bool" where
  "isCaUsable now stored \<longleftrightarrow> expiry_of stored - now > RENEWAL_MARGIN_MS"

definition tryParseStoredCA :: "x509_lib \<Rightarrow> CachedCertificate \<Rightarrow> CaMaterial option" where
  "tryParseStoredCA lib stored =
     (case (parse_pem lib (cert_of stored), decode_key lib (key_of stored)) of
        (Some cert, Some key) \<Rightarrow> Some \<lparr>ca_cert = cert, ca_key = key, ca_pem = cert_of stored\<rparr>
      | _ \<Rightarrow> None)"

definition caToRecord :: "CaMaterial \<Rightarrow> string \<Rightarrow> string \<Rightarrow> CachedCertificate" where
  "caToRecord ca cacheKey domain =
     \<lparr>cacheKey_of = cacheKey, domain_of = domain, key_of = arrayBufferToPem (ca_key ca) ''PRIVATE KEY'',
      cert_of = ca_pem ca, expiry_of = x_notAfter (ca_cert ca)\<rparr>"

datatype ca_phase =
    Begin
  | Create "CachedCertificate option"
  | Save "CachedCertificate option" CaMaterial
  | Adopt CaMaterial
  | Loaded CaMaterial
  | Failed js_exn

text \<open>A stored CA that can be used, if there is one.\<close>

definition usable_ca :: "x509_lib \<Rightarrow> int \<Rightarrow> CachedCertificate option \<Rightarrow> CaMaterial option" where
  "usable_ca lib now stored =
     (case stored of
        None \<Rightarrow> None
      | Some c \<Rightarrow> if isCaUsable now c then tryParseStoredCA lib c else None)"

text \<open>
  One step with the store at the time \<open>now\<close>; \<open>created\<close> is what the callback \<open>create\<close> gives.
\<close>

fun ca_step ::
    "x509_lib \<Rightarrow> 's CertStoreBackend \<Rightarrow> string \<Rightarrow> string \<Rightarrow> int \<Rightarrow> CaMaterial fallible \<Rightarrow> 's \<Rightarrow> ca_phase \<Rightarrow> 's \<times> ca_phase" where
  "ca_step lib b cacheKey cacheDomain now created s Begin =
     (s, case backend_read b s cacheKey of
           Inl e \<Rightarrow> Failed e
         | Inr stored \<Rightarrow> (case usable_ca lib now stored of Some parsed \<Rightarrow> Loaded parsed | None \<Rightarrow> Create stored))"
| "ca_step lib b cacheKey cacheDomain now created s (Create stored) =
     (s, case created of Inl e \<Rightarrow> Failed e | Inr generated \<Rightarrow> Save stored generated)"
| "ca_step lib b cacheKey cacheDomain now created s (Save (Some _) generated) =
     (case backend_write b s (caToRecord generated cacheKey cacheDomain) of
        (Inl e, s') \<Rightarrow> (s', Failed e)
      | (Inr _, s') \<Rightarrow> (s', Loaded generated))"
| "ca_step lib b cacheKey cacheDomain now created s (Save None generated) =
     (case backend_writeIfAbsent b s (caToRecord generated cacheKey cacheDomain) of
        (Inl e, s') \<Rightarrow> (s', Failed e)
      | (Inr True, s') \<Rightarrow> (s', Loaded generated)
      | (Inr False, s') \<Rightarrow> (s', Adopt generated))"
| "ca_step lib b cacheKey cacheDomain now created s (Adopt generated) =
     (s, case backend_read b s cacheKey of
           Inl e \<Rightarrow> Failed e
         | Inr winner \<Rightarrow> (case usable_ca lib now winner of Some parsed \<Rightarrow> Loaded parsed | None \<Rightarrow> Loaded generated))"
| "ca_step lib b cacheKey cacheDomain now created s (Loaded ca) = (s, Loaded ca)"
| "ca_step lib b cacheKey cacheDomain now created s (Failed e) = (s, Failed e)"

text \<open>The whole method when nothing comes between; without a store the CA is just created.\<close>

fun phase_result :: "ca_phase \<Rightarrow> CaMaterial fallible" where
  "phase_result (Loaded ca) = Inr ca"
| "phase_result (Failed e) = Inl e"
| "phase_result _ = Inl (JsError ''pending'')"

definition loadOrCreatePersistedCA ::
    "x509_lib \<Rightarrow> 's CertStoreBackend option \<Rightarrow> string \<Rightarrow> string \<Rightarrow> int \<Rightarrow> CaMaterial fallible \<Rightarrow> 's \<Rightarrow> CaMaterial fallible \<times> 's" where
  "loadOrCreatePersistedCA lib certStore cacheKey cacheDomain now created s =
     (case certStore of
        None \<Rightarrow> (created, s)
      | Some b \<Rightarrow>
          (case ((\<lambda>(s, p). ca_step lib b cacheKey cacheDomain now created s p) ^^ 4) (s, Begin) of
             (s', p) \<Rightarrow> (phase_result p, s')))"

fun settled :: "ca_phase \<Rightarrow> bool" where
  "settled (Loaded _) = True"
| "settled (Failed _) = True"
| "settled _ = False"

fun rank :: "ca_phase \<Rightarrow> nat" where
  "rank Begin = 4"
| "rank (Create _) = 3"
| "rank (Save _ _) = 2"
| "rank (Adopt _) = 1"
| "rank (Loaded _) = 0"
| "rank (Failed _) = 0"

lemma rank_zero: "rank p = 0 \<longleftrightarrow> settled p"
  by (cases p) auto

lemma ca_step_rank: "rank (snd (ca_step lib b k d now created s p)) \<le> rank p - 1"
  by (cases "(lib, b, k, d, now, created, s, p)" rule: ca_step.cases)
    (auto split: sum.splits option.splits prod.splits bool.splits)

lemma ca_steps_settle:
  "settled (snd (((\<lambda>(s, p). ca_step lib b k d now created s p) ^^ 4) (s, Begin)))"
proof -
  have "rank (snd (((\<lambda>(s, p). ca_step lib b k d now created s p) ^^ n) (s, Begin))) \<le> 4 - n" for n
  proof (induction n)
    case (Suc n)
    obtain s' p where p: "((\<lambda>(s, p). ca_step lib b k d now created s p) ^^ n) (s, Begin) = (s', p)" by force
    then show ?case using Suc ca_step_rank [of lib b k d now created s' p] by simp
  qed simp
  from this [of 4] show ?thesis by (simp add: rank_zero)
qed

end
