(* ===== verification/Ca_Fleet.thy ===== *)
theory Ca_Fleet
  imports Persisted_Ca
begin

text \<open>
  Any number of servers that load or create the same certificate authority from one store
  (\<open>loadOrCreatePersistedCA\<close> of \<^verbatim>\<open>src/tls-certificates/local-ca.ts\<close>, whose comment promises that
  the whole fleet converges on a single CA). Each step is one server's access to the store, with
  its own clock; certificates of other keys are written and deleted in between. The promise is kept
  while a CA is created, and not while it is renewed.
\<close>

record 's ca_fleet =
  ca_store :: 's
  phases :: "nat \<Rightarrow> ca_phase"

text \<open>A CA that its stored record gives back.\<close>

definition restorable :: "x509_lib \<Rightarrow> string \<Rightarrow> string \<Rightarrow> CaMaterial \<Rightarrow> bool" where
  "restorable lib k d ca \<longleftrightarrow>
     cert_ok (caToRecord ca k d) \<and> tryParseStoredCA lib (caToRecord ca k d) = Some ca"

text \<open>Until \<open>horizon\<close> no clock comes within the renewal margin of the expiry of a CA created here.\<close>

inductive ca_fleet_step ::
    "x509_lib \<Rightarrow> 's CertStoreBackend \<Rightarrow> (string \<Rightarrow> string) \<Rightarrow> ('s \<Rightarrow> 's \<Rightarrow> bool) \<Rightarrow> string \<Rightarrow> string \<Rightarrow> int \<Rightarrow>
      's ca_fleet \<Rightarrow> 's ca_fleet \<Rightarrow> bool"
  for lib b ident env k d horizon where
  server: "now + RENEWAL_MARGIN_MS < horizon \<Longrightarrow>
    (\<And>ca. created = Inr ca \<Longrightarrow> restorable lib k d ca \<and> horizon \<le> x_notAfter (ca_cert ca)) \<Longrightarrow>
    ca_step lib b k d now created (ca_store f) (phases f i) = (s, p) \<Longrightarrow>
    ca_fleet_step lib b ident env k d horizon f (f\<lparr>ca_store := s, phases := (phases f)(i := p)\<rparr>)"
| restart: "ca_fleet_step lib b ident env k d horizon f (f\<lparr>phases := (phases f)(i := Begin)\<rparr>)"
| written: "cert_ok c \<Longrightarrow> ident (cacheKey_of c) \<noteq> ident k \<Longrightarrow>
    ca_fleet_step lib b ident env k d horizon f (f\<lparr>ca_store := snd (backend_write b (ca_store f) c)\<rparr>)"
| deleted: "ident k' \<noteq> ident k \<Longrightarrow>
    ca_fleet_step lib b ident env k d horizon f (f\<lparr>ca_store := snd (backend_delete b (ca_store f) k')\<rparr>)"
| outside: "env (ca_store f) s \<Longrightarrow> ca_fleet_step lib b ident env k d horizon f (f\<lparr>ca_store := s\<rparr>)"

inductive ca_fleet_reachable ::
    "x509_lib \<Rightarrow> 's CertStoreBackend \<Rightarrow> (string \<Rightarrow> string) \<Rightarrow> ('s \<Rightarrow> 's \<Rightarrow> bool) \<Rightarrow> string \<Rightarrow> string \<Rightarrow> int \<Rightarrow>
      's \<Rightarrow> 's ca_fleet \<Rightarrow> bool"
  for lib b ident env k d horizon s0 where
  boot: "ca_fleet_reachable lib b ident env k d horizon s0 \<lparr>ca_store = s0, phases = \<lambda>_. Begin\<rparr>"
| step: "ca_fleet_reachable lib b ident env k d horizon s0 f \<Longrightarrow>
    ca_fleet_step lib b ident env k d horizon f f' \<Longrightarrow>
    ca_fleet_reachable lib b ident env k d horizon s0 f'"

section \<open>The invariant\<close>

text \<open>What a server may be doing when the store holds \<open>h\<close> under the key of the CA.\<close>

fun phase_ok :: "x509_lib \<Rightarrow> string \<Rightarrow> string \<Rightarrow> int \<Rightarrow> CachedCertificate option \<Rightarrow> ca_phase \<Rightarrow> bool" where
  "phase_ok lib k d horizon h Begin = True"
| "phase_ok lib k d horizon h (Create stored) = (stored = None)"
| "phase_ok lib k d horizon h (Save stored ca) =
     (stored = None \<and> restorable lib k d ca \<and> horizon \<le> x_notAfter (ca_cert ca))"
| "phase_ok lib k d horizon h (Adopt ca) = (h \<noteq> None)"
| "phase_ok lib k d horizon h (Loaded ca) = (\<exists>c. h = Some c \<and> tryParseStoredCA lib c = Some ca)"
| "phase_ok lib k d horizon h (Failed e) = True"

definition entry_ok :: "x509_lib \<Rightarrow> int \<Rightarrow> CachedCertificate option \<Rightarrow> bool" where
  "entry_ok lib horizon h \<longleftrightarrow>
     (\<forall>c. h = Some c \<longrightarrow> horizon \<le> expiry_of c \<and> tryParseStoredCA lib c \<noteq> None)"

lemma phase_ok_None: "phase_ok lib k d horizon None p \<Longrightarrow> phase_ok lib k d horizon h p"
  by (cases p) auto

lemma entry_usable:
  assumes "entry_ok lib horizon (Some c)" and "now + RENEWAL_MARGIN_MS < horizon"
  shows "\<exists>ca. usable_ca lib now (Some c) = Some ca \<and> tryParseStoredCA lib c = Some ca"
  using assms by (auto simp: entry_ok_def usable_ca_def isCaUsable_def)

context cert_store
begin

definition ca_store_ok :: "x509_lib \<Rightarrow> string \<Rightarrow> int \<Rightarrow> 's \<Rightarrow> bool" where
  "ca_store_ok lib k horizon s \<longleftrightarrow>
     inv s \<and> \<not> corrupt s (ident k) \<and> entry_ok lib horizon (held s (ident k))"

definition ca_fleet_ok :: "x509_lib \<Rightarrow> string \<Rightarrow> string \<Rightarrow> int \<Rightarrow> 's ca_fleet \<Rightarrow> bool" where
  "ca_fleet_ok lib k d horizon f \<longleftrightarrow>
     ca_store_ok lib k horizon (ca_store f) \<and>
     (\<forall>i. phase_ok lib k d horizon (held (ca_store f) (ident k)) (phases f i))"

lemma save_ok:
  assumes ok: "ca_store_ok lib k horizon s"
    and good: "restorable lib k d ca" "horizon \<le> x_notAfter (ca_cert ca)"
    and put: "backend_writeIfAbsent b s (caToRecord ca k d) = (w, s')"
  shows "ca_store_ok lib k horizon s'"
    and "held s' (ident k) = held s (ident k) \<or> held s (ident k) = None"
    and "w = Inr True \<Longrightarrow> held s' (ident k) = Some (caToRecord ca k d)"
    and "w = Inr False \<Longrightarrow> held s' (ident k) \<noteq> None"
proof -
  let ?c = "caToRecord ca k d"
  have c: "cert_ok ?c" "cacheKey_of ?c = k" "expiry_of ?c = x_notAfter (ca_cert ca)"
    using good(1) by (simp_all add: restorable_def caToRecord_def)
  have held': "held s' (ident k) = Some ?c \<and> held s (ident k) = None \<or> w \<noteq> Inr True \<and> held s' = held s"
    using absent_held [OF c(1) put] c(2) by auto
  have "inv s'" using inv_absent [OF _ c(1), of s] ok put by (simp add: ca_store_ok_def)
  moreover have "\<not> corrupt s' (ident k)"
    using corrupt_absent [OF c(1), of s "ident k"] ok put by (auto simp: ca_store_ok_def)
  moreover have "entry_ok lib horizon (held s' (ident k))"
    using ok good c(3) held' by (auto simp: ca_store_ok_def entry_ok_def restorable_def)
  ultimately show ok': "ca_store_ok lib k horizon s'" by (simp add: ca_store_ok_def)
  show "held s' (ident k) = held s (ident k) \<or> held s (ident k) = None" using held' by auto
  show "w = Inr True \<Longrightarrow> held s' (ident k) = Some ?c" using held' by auto
  show "w = Inr False \<Longrightarrow> held s' (ident k) \<noteq> None"
    using absent_taken [OF _ c(1), of s s'] put c(2) ok ok' by (auto simp: ca_store_ok_def)
qed

lemma ca_step_ok:
  assumes ok: "ca_store_ok lib k horizon s" "phase_ok lib k d horizon (held s (ident k)) p"
    and now: "now + RENEWAL_MARGIN_MS < horizon"
    and created: "\<And>ca. created = Inr ca \<Longrightarrow> restorable lib k d ca \<and> horizon \<le> x_notAfter (ca_cert ca)"
    and step: "ca_step lib b k d now created s p = (s', p')"
  shows "ca_store_ok lib k horizon s' \<and> phase_ok lib k d horizon (held s' (ident k)) p' \<and>
    (held s' (ident k) = held s (ident k) \<or> held s (ident k) = None)"
proof (cases p)
  case Begin
  show ?thesis
  proof (cases "backend_read b s k")
    case (Inl e)
    then show ?thesis using Begin step ok by auto
  next
    case (Inr stored)
    then have h: "held s (ident k) = stored" by (rule read_held)
    show ?thesis
    proof (cases stored)
      case None
      then show ?thesis using Begin step ok Inr h by (auto simp: usable_ca_def)
    next
      case (Some c)
      then obtain ca where "usable_ca lib now stored = Some ca" "tryParseStoredCA lib c = Some ca"
        using entry_usable [OF _ now, of lib c] ok(1) h by (auto simp: ca_store_ok_def)
      then show ?thesis using Begin step ok Inr h Some by auto
    qed
  qed
next
  case (Create stored)
  then show ?thesis using ok step created by (auto split: sum.splits)
next
  case (Save stored ca)
  then have p: "p = Save None ca" and good: "restorable lib k d ca" "horizon \<le> x_notAfter (ca_cert ca)" using ok(2) by auto
  obtain w s1 where put: "backend_writeIfAbsent b s (caToRecord ca k d) = (w, s1)" by force
  note saved = save_ok [OF ok(1) good put]
  have parsed: "tryParseStoredCA lib (caToRecord ca k d) = Some ca" using good(1) by (simp add: restorable_def)
  consider e where "w = Inl e" | "w = Inr True" | "w = Inr False" by (cases w; cases "projr w") auto
  then show ?thesis
  proof cases
    case 2
    then have "p' = Loaded ca" "s' = s1" using step put p by auto
    then show ?thesis using saved(1,2) saved(3) [OF 2] parsed by simp
  qed (use step put saved p in auto)
next
  case (Adopt ca)
  then obtain c where h: "held s (ident k) = Some c" using ok(2) by auto
  show ?thesis
  proof (cases "backend_read b s k")
    case (Inl e)
    then show ?thesis using Adopt step ok by auto
  next
    case (Inr winner)
    then have "winner = Some c" using read_held h by auto
    then obtain m where "usable_ca lib now winner = Some m" "tryParseStoredCA lib c = Some m"
      using entry_usable [OF _ now, of lib c] ok(1) h by (auto simp: ca_store_ok_def)
    then show ?thesis using Adopt step ok Inr h by auto
  qed
next
  case (Loaded ca)
  then show ?thesis using ok step by auto
next
  case (Failed e)
  then show ?thesis using ok step by auto
qed

lemma ca_other_ok:
  assumes "ca_fleet_ok lib k d horizon f" and "inv s'" and "\<And>j. corrupt s' j \<Longrightarrow> corrupt (ca_store f) j"
    and "held s' (ident k) = held (ca_store f) (ident k)"
  shows "ca_fleet_ok lib k d horizon (f\<lparr>ca_store := s'\<rparr>)"
  using assms by (auto simp: ca_fleet_ok_def ca_store_ok_def)

lemma ca_fleet_step_ok:
  assumes "ca_fleet_step lib b ident env k d horizon f f'" and ok: "ca_fleet_ok lib k d horizon f"
  shows "ca_fleet_ok lib k d horizon f'"
  using assms(1)
proof cases
  case (server now created i s p)
  note stepped = ca_step_ok [OF _ _ server(2,3,4)]
  have "phase_ok lib k d horizon (held s (ident k)) (phases f j)" for j
    using stepped ok phase_ok_None unfolding ca_fleet_ok_def by metis
  then show ?thesis using stepped ok by (auto simp: server(1) ca_fleet_ok_def)
next
  case (restart i)
  then show ?thesis using ok by (auto simp: ca_fleet_ok_def)
next
  case (written c)
  obtain r s' where w: "backend_write b (ca_store f) c = (r, s')" by force
  show ?thesis
    unfolding written(1)
    by (rule ca_other_ok [OF ok])
      (use ok written inv_write [of "ca_store f" c] corrupt_write [of c "ca_store f"] write_held [OF written(2) w] w in \<open>auto simp: ca_fleet_ok_def ca_store_ok_def\<close>)
next
  case (deleted k')
  obtain r s' where w: "backend_delete b (ca_store f) k' = (r, s')" by force
  show ?thesis
    unfolding deleted(1)
    by (rule ca_other_ok [OF ok])
      (use ok deleted inv_delete [of "ca_store f" k'] corrupt_delete [of "ca_store f" k'] delete_held [OF w] w in \<open>auto simp: ca_fleet_ok_def ca_store_ok_def\<close>)
next
  case (outside s)
  show ?thesis
    unfolding outside(1)
    by (rule ca_other_ok [OF ok])
      (use ok env_inv [OF outside(2)] corrupt_env [OF outside(2)] env_held [OF outside(2)]
        in \<open>auto simp: ca_fleet_ok_def ca_store_ok_def\<close>)
qed

lemma ca_fleet_reachable_ok:
  "ca_fleet_reachable lib b ident env k d horizon s0 f \<Longrightarrow> ca_store_ok lib k horizon s0 \<Longrightarrow>
    ca_fleet_ok lib k d horizon f"
proof (induction rule: ca_fleet_reachable.induct)
  case boot
  then show ?case by (simp add: ca_fleet_ok_def)
next
  case (step f f')
  then show ?case using ca_fleet_step_ok by blast
qed

lemma ca_fleet_agrees:
  assumes "ca_fleet_reachable lib b ident env k d horizon s0 f" and "ca_store_ok lib k horizon s0"
    and "phases f i = Loaded ca"
  shows "\<exists>c. held (ca_store f) (ident k) = Some c \<and> tryParseStoredCA lib c = Some ca"
  using ca_fleet_reachable_ok [OF assms(1,2)] assms(3) unfolding ca_fleet_ok_def
  by (metis phase_ok.simps(5))

end

section \<open>Creation gives the fleet one CA, renewal may not\<close>

text \<open>
  C29: Creating the shared CA converges. Let servers that share a directory load or create the CA
  while no clock comes within the thirty days' renewal margin of the expiry of any CA of the run,
  the stored record being absent or usable at the start, and every CA they create one that its PEM
  record gives back. Then all that load a CA load the same one, the one on disk, however their reads
  and exclusive writes interleave with each other, with restarts, with outages and with certificates
  under other object ids. Renewal is outside: two servers that renew at once part
  (\<open>ca_renewal_diverges\<close> below).
\<close>

theorem ca_creation_converges:
  assumes "ca_fleet_reachable lib (FilesystemCertStore hash) (certObjectId hash) fs_env k d horizon s0 f"
    and "fs_inv hash s0" and "\<not> fs_corrupt s0 (certObjectId hash k)"
    and "entry_ok lib horizon (fs_held s0 (certObjectId hash k))"
    and "phases f i = Loaded ca" and "phases f j = Loaded ca'"
  shows "ca = ca' \<and>
    (\<exists>c. fs_held (ca_store f) (certObjectId hash k) = Some c \<and> tryParseStoredCA lib c = Some ca)"
  using fs.ca_fleet_agrees [OF assms(1) _ assms(5)] fs.ca_fleet_agrees [OF assms(1) _ assms(6)] assms(2-4)
  by (auto simp: fs.ca_store_ok_def)

text \<open>Runs of given turns, each of a server with its clock and what it would create.\<close>

fun server_turn ::
    "x509_lib \<Rightarrow> 's CertStoreBackend \<Rightarrow> string \<Rightarrow> string \<Rightarrow> nat \<times> int \<times> CaMaterial fallible \<Rightarrow> 's ca_fleet \<Rightarrow> 's ca_fleet" where
  "server_turn lib b k d (i, now, created) f =
     (case ca_step lib b k d now created (ca_store f) (phases f i) of
        (s, p) \<Rightarrow> f\<lparr>ca_store := s, phases := (phases f)(i := p)\<rparr>)"

fun timely :: "x509_lib \<Rightarrow> string \<Rightarrow> string \<Rightarrow> int \<Rightarrow> nat \<times> int \<times> CaMaterial fallible \<Rightarrow> bool" where
  "timely lib k d horizon (i, now, Inr ca) \<longleftrightarrow>
     now + RENEWAL_MARGIN_MS < horizon \<and> restorable lib k d ca \<and> horizon \<le> x_notAfter (ca_cert ca)"
| "timely lib k d horizon (i, now, Inl e) \<longleftrightarrow> now + RENEWAL_MARGIN_MS < horizon"

lemma turns_reachable:
  assumes "ca_fleet_reachable lib b ident env k d horizon s0 f" and "list_all (timely lib k d horizon) turns"
  shows "ca_fleet_reachable lib b ident env k d horizon s0 (fold (server_turn lib b k d) turns f)"
  using assms
proof (induction turns arbitrary: f)
  case (Cons t turns)
  obtain i now created where t: "t = (i, now, created)" by (cases t) auto
  obtain s p where turn: "ca_step lib b k d now created (ca_store f) (phases f i) = (s, p)" by force
  have "now + RENEWAL_MARGIN_MS < horizon"
    "\<And>ca. created = Inr ca \<Longrightarrow> restorable lib k d ca \<and> horizon \<le> x_notAfter (ca_cert ca)"
    using Cons.prems(2) t by (cases created; simp)+
  then have "ca_fleet_step lib b ident env k d horizon f (server_turn lib b k d t f)"
    using ca_fleet_step.server [OF _ _ turn, of horizon ident env] by (simp add: t turn)
  then show ?case using Cons ca_fleet_reachable.step by fastforce
qed simp

text \<open>A library whose PEM texts are the serial numbers, and a CA for each.\<close>

definition sample_x509 :: "string \<Rightarrow> x509" where
  "sample_x509 serial =
     \<lparr>x_serial = serial, x_subject = [(''CN'', ''CA'')], x_issuer = [(''CN'', ''CA'')], x_notBefore = 0,
      x_notAfter = 10 * RENEWAL_MARGIN_MS, x_hash = ''SHA-256'', x_publicKey = [1], x_signingKey = [2],
      x_isCa = True, x_pathLen = Some 0, x_keyUsages = [], x_extKeyUsages = [], x_altNames = None,
      x_policies = [], x_subjectKeyId = True, x_authority = None\<rparr>"

definition sample_lib :: x509_lib where
  "sample_lib = \<lparr>pem_of = x_serial, parse_pem = Some \<circ> sample_x509, decode_key = (\<lambda>_. Some [2])\<rparr>"

definition sample_ca :: "string \<Rightarrow> CaMaterial" where
  "sample_ca serial = \<lparr>ca_cert = sample_x509 serial, ca_key = [2], ca_pem = serial\<rparr>"

definition sample_record :: "string \<Rightarrow> CachedCertificate" where
  "sample_record serial = caToRecord (sample_ca serial) ''ca'' ''ca''"

definition sample_dir :: "string \<Rightarrow> directory" where
  "sample_dir serial =
     \<lparr>listing = Some [(filePath id ''ca'', stringify (cert_json (sample_record serial)))], failure = None\<rparr>"

lemma sample_record_ok: "serial \<noteq> [] \<Longrightarrow> cert_ok (sample_record serial)"
  by (simp add: sample_record_def sample_ca_def caToRecord_def cert_ok_def sample_x509_def
      arrayBufferToPem_def RENEWAL_MARGIN_MS_def)

lemma sample_parse: "tryParseStoredCA sample_lib (sample_record serial) = Some (sample_ca serial)"
  by (simp add: sample_record_def sample_ca_def caToRecord_def tryParseStoredCA_def sample_lib_def)

lemma sample_usable:
  "usable_ca sample_lib now (Some (sample_record serial)) =
    (if now < 9 * RENEWAL_MARGIN_MS then Some (sample_ca serial) else None)"
  using sample_parse [of serial]
  by (simp add: usable_ca_def isCaUsable_def sample_record_def sample_ca_def caToRecord_def sample_x509_def)

lemma sample_read: "serial \<noteq> [] \<Longrightarrow> fs_read id (sample_dir serial) ''ca'' = Inr (Some (sample_record serial))"
  using sample_record_ok by (simp add: fs_read_def fs_readFile_def file_at_def sample_dir_def parse_stored)

lemma sample_put:
  "fs_put id (sample_dir serial) (caToRecord (sample_ca new) ''ca'' ''ca'') True = (Inr False, sample_dir serial)"
  "fs_put id (sample_dir serial) (caToRecord (sample_ca new) ''ca'' ''ca'') False = (Inr True, sample_dir new)"
  "fs_put id \<lparr>listing = None, failure = None\<rparr> (caToRecord (sample_ca new) ''ca'' ''ca'') True = (Inr True, sample_dir new)"
  by (simp_all add: fs_put_def fs_mkdir_def fs_writeFile_def file_at_def sample_dir_def sample_record_def caToRecord_def)

lemmas sample_turn = FilesystemCertStore_def sample_read sample_put sample_usable

theorem ca_creation_converges_witness:
  "sample_ca ''a'' = sample_ca ''a'' \<and>
    (\<exists>c. fs_held (sample_dir ''a'') (certObjectId id ''ca'') = Some c \<and>
      tryParseStoredCA sample_lib c = Some (sample_ca ''a''))"
proof -
  let ?b = "FilesystemCertStore id"
  let ?none = "\<lparr>listing = None, failure = None\<rparr>"
  let ?turns = "concat (replicate 4 [(0, 0, Inr (sample_ca ''a'')), (1, 5, Inr (sample_ca ''b''))])"
  let ?f = "fold (server_turn sample_lib ?b ''ca'' ''ca'') ?turns \<lparr>ca_store = ?none, phases = \<lambda>_. Begin\<rparr>"
  have "restorable sample_lib ''ca'' ''ca'' (sample_ca t)" if "t \<noteq> []" for t
    using sample_parse [of t] sample_record_ok [OF that] by (simp add: restorable_def sample_record_def)
  then have "list_all (timely sample_lib ''ca'' ''ca'' (2 * RENEWAL_MARGIN_MS)) ?turns"
    by (simp add: numeral_eq_Suc sample_ca_def sample_x509_def RENEWAL_MARGIN_MS_def)
  then have reached: "ca_fleet_reachable sample_lib ?b (certObjectId id) fs_env ''ca'' ''ca'' (2 * RENEWAL_MARGIN_MS) ?none ?f"
    by (rule turns_reachable [OF ca_fleet_reachable.boot])
  have empty: "fs_read id ?none ''ca'' = Inr None" by (simp add: fs_read_def fs_readFile_def file_at_def)
  have usable_none: "usable_ca sample_lib now None = None" for now by (simp add: usable_ca_def)
  have final: "ca_store ?f = sample_dir ''a''" "phases ?f 0 = Loaded (sample_ca ''a'')" "phases ?f 1 = Loaded (sample_ca ''a'')"
    by (simp_all add: numeral_eq_Suc sample_turn empty usable_none RENEWAL_MARGIN_MS_def)
  have "fs_inv id ?none" "\<not> fs_corrupt ?none (certObjectId id ''ca'')"
    "entry_ok sample_lib (2 * RENEWAL_MARGIN_MS) (fs_held ?none (certObjectId id ''ca''))"
    by (simp_all add: fs_inv_def fs_corrupt_def entry_ok_def fs_held_def stored_cert_def unreadable_def file_at_def)
  from ca_creation_converges [OF reached this final(2,3)] show ?thesis unfolding final(1) .
qed

text \<open>
  Renewal has no such promise: two servers that both find the stored CA near its expiry each write
  their own, and the first goes on with a CA that is no longer stored.
\<close>

lemma ca_renewal_diverges:
  fixes f
  defines "f \<equiv> fold (server_turn sample_lib (FilesystemCertStore id) ''ca'' ''ca'')
    (concat (replicate 3 [(0, 9 * RENEWAL_MARGIN_MS, Inr (sample_ca ''a'')), (1, 9 * RENEWAL_MARGIN_MS, Inr (sample_ca ''b''))]))
    \<lparr>ca_store = sample_dir ''old'', phases = \<lambda>_. Begin\<rparr>"
  shows "phases f 0 = Loaded (sample_ca ''a'') \<and> phases f 1 = Loaded (sample_ca ''b'') \<and> ca_store f = sample_dir ''b''"
  by (simp add: f_def numeral_eq_Suc sample_turn RENEWAL_MARGIN_MS_def)

text \<open>The same for servers that share a bucket, where conditional writes take the place of exclusive ones.\<close>

lemma ca_creation_converges_s3:
  assumes laws: "s3_laws client (config_bucket config) objects"
    and "ca_fleet_reachable lib (S3CertStore hash client config) (certObjectId hash) (\<lambda>s s'. objects s' = objects s) k d horizon s0 f"
    and "s3_inv hash config objects s0" and "\<not> s3_corrupt config objects s0 (certObjectId hash k)"
    and "entry_ok lib horizon (s3_held config objects s0 (certObjectId hash k))"
    and "phases f i = Loaded ca" and "phases f j = Loaded ca'"
  shows "ca = ca'"
proof -
  have "cert_store.ca_store_ok (certObjectId hash) (s3_held config objects) (s3_inv hash config objects)
      (s3_corrupt config objects) lib k horizon s0"
    using assms(3-5) by (simp add: cert_store.ca_store_ok_def [OF s3_store [OF laws]])
  then show ?thesis
    using cert_store.ca_fleet_agrees [OF s3_store [OF laws] assms(2) _ assms(6)]
      cert_store.ca_fleet_agrees [OF s3_store [OF laws] assms(2) _ assms(7)] by fastforce
qed

end
