(* ===== verification/Ocsp.thy ===== *)
theory Ocsp
  imports Persisted_Ca
begin

text \<open>
  OCSP responses (\<^verbatim>\<open>src/tls-certificates/ocsp.ts\<close>). The structures are those that the code fills in;
  encoding them in DER, hashing and signing are the operations of a record \<open>asn1_lib\<close>. The law is
  that a response names its certificate by the right number.
\<close>

section \<open>Structures\<close>

definition OID_SHA1 :: string where
  "OID_SHA1 = ''1.3.14.3.2.26''"

definition OID_SHA256_WITH_RSA :: string where
  "OID_SHA256_WITH_RSA = ''1.2.840.113549.1.1.11''"

text \<open>The constants \<open>successful\<close> and \<open>id_pkix_ocsp_basic\<close> of the library (RFC 6960).\<close>

definition OCSP_SUCCESSFUL :: nat where
  "OCSP_SUCCESSFUL = 0"

definition ID_PKIX_OCSP_BASIC :: string where
  "ID_PKIX_OCSP_BASIC = ''1.3.6.1.5.5.7.48.1.1''"

datatype RevocationReason =
    unspecified | keyCompromise | cACompromise | affiliationChanged | superseded | cessationOfOperation
  | certificateHold | removeFromCRL | privilegeWithdrawn | aACompromise

text \<open>An algorithm is given by its OID; its parameters are always null.\<close>

record cert_id =
  cid_hashAlgorithm :: string
  cid_issuerNameHash :: bytes
  cid_issuerKeyHash :: bytes
  cid_serialNumber :: bytes

datatype cert_status = Good | Revoked int | Unknown

record single_response =
  sr_certID :: cert_id
  sr_certStatus :: cert_status
  sr_thisUpdate :: int
  sr_nextUpdate :: "int option"

record response_data =
  rd_byName :: dn
  rd_producedAt :: int
  rd_responses :: "single_response list"

record basic_response =
  br_data :: response_data
  br_algorithm :: string
  br_signature :: bytes
  br_certs :: "x509 list"

record ocsp_message =
  om_status :: nat
  om_type :: string
  om_response :: bytes

record asn1_lib =
  der_name :: "dn \<Rightarrow> bytes"
  subjectPublicKey :: "bytes \<Rightarrow> bytes"
  der_data :: "response_data \<Rightarrow> bytes"
  der_basic :: "basic_response \<Rightarrow> bytes"
  der_message :: "ocsp_message \<Rightarrow> bytes"
  parse_request :: "bytes \<Rightarrow> cert_id list option"
  sha1_digest :: "bytes \<Rightarrow> bytes"
  sign_rsa_sha256 :: "bytes \<Rightarrow> bytes \<Rightarrow> bytes"

record ocsp_options =
  oo_cert :: x509
  oo_issuerCert :: x509
  oo_issuerKey :: bytes
  oo_status :: string
  oo_revocationTime :: "int option"
  oo_revocationReason :: "RevocationReason option"
  oo_thisUpdate :: "int option"
  oo_nextUpdate :: "int option"

section \<open>The serial number\<close>

text \<open>
  The bytes of the serial in a response: an even number of hexadecimal digits, and a leading zero
  when the first byte has its high bit set. Without any digit the match is \<open>null\<close>. \<open>parseInt\<close> reads a sign
  and stops at the first character that is no digit; \<open>NaN\<close> is stored as 0.
\<close>

definition hex_byte :: "char \<Rightarrow> char \<Rightarrow> byte" where
  "hex_byte a b =
     (case hex_val a of
        None \<Rightarrow>
          (case hex_val b of
             None \<Rightarrow> 0
           | Some y \<Rightarrow> if a = CHR ''+'' then word_of_nat y else if a = CHR ''-'' then - word_of_nat y else 0)
      | Some x \<Rightarrow> (case hex_val b of None \<Rightarrow> word_of_nat x | Some y \<Rightarrow> word_of_nat (16 * x + y)))"

fun hex_pairs :: "string \<Rightarrow> bytes" where
  "hex_pairs (a # b # r) = hex_byte a b # hex_pairs r"
| "hex_pairs _ = []"

definition serialNumberBytes :: "string \<Rightarrow> bytes fallible" where
  "serialNumberBytes serial =
     (let serialHex = filter (\<lambda>c. \<not> is_js_space c) serial;
          paddedHex = (if length serialHex mod 2 = 0 then serialHex else CHR ''0'' # serialHex)
      in case hex_pairs paddedHex of
           [] \<Rightarrow> Inl (JsError ''TypeError'')
         | first # rest \<Rightarrow> Inr (if and first 128 = 0 then first # rest else 0 # first # rest))"

section \<open>Responses\<close>

definition createCertId :: "x509 \<Rightarrow> bytes \<Rightarrow> bytes \<Rightarrow> cert_id fallible" where
  "createCertId cert issuerNameHash issuerKeyHash =
     map_sum id (\<lambda>serialBytes.
       \<lparr>cid_hashAlgorithm = OID_SHA1, cid_issuerNameHash = issuerNameHash, cid_issuerKeyHash = issuerKeyHash,
        cid_serialNumber = serialBytes\<rparr>) (serialNumberBytes (x_serial cert))"

text \<open>The reason of a revocation is not used.\<close>

definition createCertStatus :: "string \<Rightarrow> int option \<Rightarrow> RevocationReason option \<Rightarrow> int \<Rightarrow> cert_status" where
  "createCertStatus st revocationTime revocationReason now =
     (if st = ''good'' then Good
      else if st = ''revoked'' then Revoked (case revocationTime of Some t \<Rightarrow> t | None \<Rightarrow> now)
      else Unknown)"

definition createSingleResponse :: "ocsp_options \<Rightarrow> bytes \<Rightarrow> bytes \<Rightarrow> int \<Rightarrow> single_response fallible" where
  "createSingleResponse options issuerNameHash issuerKeyHash now =
     map_sum id (\<lambda>certID.
       \<lparr>sr_certID = certID,
        sr_certStatus = createCertStatus (oo_status options) (oo_revocationTime options) (oo_revocationReason options) now,
        sr_thisUpdate = (case oo_thisUpdate options of Some t \<Rightarrow> t | None \<Rightarrow> now),
        sr_nextUpdate = oo_nextUpdate options\<rparr>) (createCertId (oo_cert options) issuerNameHash issuerKeyHash)"

definition createResponseData :: "x509 \<Rightarrow> single_response list \<Rightarrow> int \<Rightarrow> response_data" where
  "createResponseData issuerCert responses now =
     \<lparr>rd_byName = x_subject issuerCert, rd_producedAt = now, rd_responses = responses\<rparr>"

definition signResponseData :: "asn1_lib \<Rightarrow> response_data \<Rightarrow> bytes \<Rightarrow> bytes" where
  "signResponseData lib responseData issuerKey = sign_rsa_sha256 lib issuerKey (der_data lib responseData)"

definition createBasicOcspResponse :: "asn1_lib \<Rightarrow> response_data \<Rightarrow> bytes \<Rightarrow> x509 \<Rightarrow> basic_response" where
  "createBasicOcspResponse lib responseData issuerKey issuerCert =
     \<lparr>br_data = responseData, br_algorithm = OID_SHA256_WITH_RSA,
      br_signature = signResponseData lib responseData issuerKey, br_certs = [issuerCert]\<rparr>"

definition wrap_response :: "asn1_lib \<Rightarrow> basic_response \<Rightarrow> bytes" where
  "wrap_response lib basicResponse =
     der_message lib \<lparr>om_status = OCSP_SUCCESSFUL, om_type = ID_PKIX_OCSP_BASIC, om_response = der_basic lib basicResponse\<rparr>"

definition createOcspResponse :: "asn1_lib \<Rightarrow> ocsp_options \<Rightarrow> int \<Rightarrow> bytes fallible" where
  "createOcspResponse lib options now =
     (let issuerCert = oo_issuerCert options;
          issuerNameHash = sha1_digest lib (der_name lib (x_subject issuerCert));
          issuerKeyHash = sha1_digest lib (subjectPublicKey lib (x_publicKey issuerCert))
      in map_sum id (\<lambda>singleResponse.
           wrap_response lib (createBasicOcspResponse lib (createResponseData issuerCert [singleResponse] now)
             (oo_issuerKey options) issuerCert))
         (createSingleResponse options issuerNameHash issuerKeyHash now))"

text \<open>The three parts of the first \<open>CertID\<close> of a request, in hexadecimal; \<open>None\<close> when there is none.\<close>

definition parseOcspRequest :: "asn1_lib \<Rightarrow> bytes \<Rightarrow> (string \<times> string \<times> string) option" where
  "parseOcspRequest lib requestDer =
     (case parse_request lib requestDer of
        Some (certId # _) \<Rightarrow>
          Some (hex_of_bytes (cid_issuerNameHash certId), hex_of_bytes (cid_issuerKeyHash certId),
                hex_of_bytes (cid_serialNumber certId))
      | _ \<Rightarrow> None)"

section \<open>The number that a response is about\<close>

text \<open>The value of hexadecimal digits, and of the content of a DER \<open>INTEGER\<close> (two's complement, high byte first).\<close>

definition hex_number :: "string \<Rightarrow> nat" where
  "hex_number s = foldl (\<lambda>n c. 16 * n + (case hex_val c of Some v \<Rightarrow> v | None \<Rightarrow> 0)) 0 s"

definition be_number :: "bytes \<Rightarrow> nat" where
  "be_number bs = foldl (\<lambda>n b. 256 * n + unat b) 0 bs"

definition der_integer :: "bytes \<Rightarrow> int" where
  "der_integer bs =
     (case bs of
        [] \<Rightarrow> 0
      | b # _ \<Rightarrow> int (be_number bs) - (if 128 \<le> unat b then 256 ^ length bs else 0))"

lemma hex_val_less: "hex_val c = Some v \<Longrightarrow> v < 16"
  by (auto simp: hex_val_def Let_def split: if_splits)

lemma unat_hex_byte: "hex_val a = Some x \<Longrightarrow> hex_val b = Some y \<Longrightarrow> unat (hex_byte a b) = 16 * x + y"
proof -
  assume v: "hex_val a = Some x" "hex_val b = Some y"
  have "unat (word_of_nat n :: byte) = n mod 256" for n by (simp add: unat_of_nat)
  from this [of "16 * x + y"] show ?thesis
    using v hex_val_less [OF v(1)] hex_val_less [OF v(2)] by (simp del: of_nat_add of_nat_mult add: hex_byte_def)
qed

lemma hex_pairs_value:
  assumes "even (length s)" and "list_all (\<lambda>c. hex_val c \<noteq> None) s"
  shows "foldl (\<lambda>n b. 256 * n + unat b) n (hex_pairs s) = foldl (\<lambda>n c. 16 * n + (case hex_val c of Some v \<Rightarrow> v | None \<Rightarrow> 0)) n s"
  using assms by (induction s arbitrary: n rule: hex_pairs.induct) (auto simp: unat_hex_byte algebra_simps)

lemma byte_high_bit: "and (b :: byte) 128 = 0 \<longleftrightarrow> unat b < 128"
proof -
  have mask: "bit (128 :: byte) n \<longleftrightarrow> n = 7" for n
    using bit_exp_iff [of 7 n, where 'a = byte] by auto
  have only: "bit (and b 128) n \<longleftrightarrow> bit b n \<and> n = 7" for n
    by (simp only: bit_and_iff mask)
  have "and b 128 = 0 \<longleftrightarrow> \<not> bit b 7"
  proof
    assume "and b 128 = 0"
    then show "\<not> bit b 7" using only [of 7] by (metis bit_0_eq bot_apply bot_bool_def)
  next
    assume "\<not> bit b 7"
    then show "and b 128 = 0" using only by (intro bit_word_eqI) (metis bit_0_eq bot_apply bot_bool_def)
  qed
  also have "\<dots> \<longleftrightarrow> unat b < 128"
  proof -
    have "bit b 7 \<longleftrightarrow> bit (unat b) 7" by (simp add: bit_unsigned_iff)
    then have "bit b 7 \<longleftrightarrow> odd (unat b div 128)" by (simp add: bit_iff_odd)
    moreover have "unat b div 128 < 2" using unat8 [of b] by (simp add: less_mult_imp_div_less)
    then have "odd (unat b div 128) \<longleftrightarrow> 128 \<le> unat b" by (cases "unat b < 128") (auto simp: less_2_cases_iff)
    ultimately show ?thesis by linarith
  qed
  finally show ?thesis .
qed

text \<open>
  C17: The serial number in a response, read as the DER integer it is encoded as, is the serial number of the
  certificate, for every serial that is made of hexadecimal digits and spaces.
\<close>

theorem ocsp_serial_faithful:
  assumes "list_all (\<lambda>c. is_js_space c \<or> hex_val c \<noteq> None) serial" and "\<not> list_all is_js_space serial"
  shows "\<exists>bs. serialNumberBytes serial = Inr bs \<and>
    der_integer bs = int (hex_number (filter (\<lambda>c. \<not> is_js_space c) serial))"
proof -
  define s where "s = filter (\<lambda>c. \<not> is_js_space c) serial"
  define t where "t = (if even (length s) then s else CHR ''0'' # s)"
  have zero: "hex_val CHR ''0'' = Some 0" by (simp add: hex_val_def)
  have s: "s \<noteq> []" "list_all (\<lambda>c. hex_val c \<noteq> None) s"
    using assms by (auto simp: s_def list_all_iff filter_empty_conv)
  then have t: "even (length t)" "list_all (\<lambda>c. hex_val c \<noteq> None) t" "t \<noteq> []" by (auto simp: t_def zero)
  have "be_number (hex_pairs t) = hex_number t"
    using hex_pairs_value [OF t(1,2), of 0] by (simp add: be_number_def hex_number_def)
  also have "\<dots> = hex_number s" by (simp add: t_def hex_number_def zero)
  finally have number: "be_number (hex_pairs t) = hex_number s" .
  obtain b bs where pairs: "hex_pairs t = b # bs" using t(1,3) by (cases t rule: hex_pairs.cases) auto
  let ?r = "if and b 128 = 0 then b # bs else 0 # b # bs"
  have "serialNumberBytes serial = Inr ?r"
    using pairs by (simp add: serialNumberBytes_def t_def s_def even_iff_mod_2_eq_zero split: if_splits)
  moreover have "der_integer ?r = int (be_number (b # bs))"
    by (auto simp: byte_high_bit der_integer_def be_number_def)
  ultimately show ?thesis using number pairs by (auto simp: s_def)
qed

theorem ocsp_serial_faithful_witness:
  "\<exists>bs. serialNumberBytes ''9 a'' = Inr bs \<and> der_integer bs = 154"
proof -
  have hex: "list_all (\<lambda>c. is_js_space c \<or> hex_val c \<noteq> None) ''9 a''" "\<not> list_all is_js_space ''9 a''"
    by code_simp+
  have number: "hex_number (filter (\<lambda>c. \<not> is_js_space c) ''9 a'') = 154" by code_simp
  show ?thesis using ocsp_serial_faithful [OF hex] unfolding number by simp
qed

end
