(* ===== verification/Local_Ca.thy ===== *)
theory Local_Ca
  imports Ocsp Endpoint_Config Cert_Definitions
begin

text \<open>
  The rest of \<^verbatim>\<open>src/tls-certificates/local-ca.ts\<close>: the
  server certificates of the local CA, the downloadable client certificate, and what it answers to
  OCSP. The record \<open>local_ca\<close> is the state of a \<open>LocalCA\<close>: its in-memory certificates, the
  self-signed ones it can answer for, and the memoized promises of its two managed CAs. A method
  runs at one moment; the time-outs that forget certificates are the operation \<open>forget\<close>.
\<close>

section \<open>State\<close>

record local_cert =
  lc_key :: string
  lc_cert :: string
  lc_ca :: string

text \<open>
  What the constructor is given, the shared \<open>KEY_PAIR\<close>, and what the object holds. A memoized
  promise keeps its outcome, a rejection too.
\<close>

record local_ca =
  root_pem :: string
  root_cert :: x509
  root_key :: bytes
  country :: "string option"
  keyLength :: nat
  shared_keys :: "bytes \<times> bytes"
  memory_certs :: "string \<Rightarrow> local_cert option"
  selfSignedCerts :: "string \<Rightarrow> (x509 \<times> bytes) option"
  intermediateCA :: "CaMaterial fallible option"
  clientAuthCA :: "CaMaterial fallible option"
  clientCertificate :: "(local_cert \<times> int) fallible option"

text \<open>
  The surroundings of one call: the library, the moment, and what
  \<open>loadOrCreatePersistedCA\<close> gives for a cache key, a cache domain and a new CA.
\<close>

record ca_env =
  env_lib :: x509_lib
  env_moment :: moment
  env_load :: "string \<Rightarrow> string \<Rightarrow> CaMaterial \<Rightarrow> CaMaterial fallible"
  env_hash :: "string \<Rightarrow> string"

definition country_name :: "local_ca \<Rightarrow> string" where
  "country_name ca = (case country ca of None \<Rightarrow> ''XX'' | Some c \<Rightarrow> c)"

text \<open>
  \<open>LocalCA.create\<close>: the module-wide key pair, with its length, is replaced when it is too short; a
  certificate or key that cannot be read is thrown. A key length of 0 counts as absent.
\<close>

definition create_local_ca ::
    "x509_lib \<Rightarrow> moment \<Rightarrow> string \<Rightarrow> string \<Rightarrow> string option \<Rightarrow> nat option \<Rightarrow> ((bytes \<times> bytes) \<times> nat) option \<Rightarrow>
      (local_ca \<times> (bytes \<times> bytes) \<times> nat) fallible" where
  "create_local_ca lib m caKeyPem caCertPem countryName bits keyPair =
     (case (parse_pem lib caCertPem, decode_key lib caKeyPem) of
        (Some cert, Some key) \<Rightarrow>
          let len = (case bits of None \<Rightarrow> 2048 | Some n \<Rightarrow> if n = 0 then 2048 else n);
              fresh = (generated_keys m len, len);
              kept = (case keyPair of None \<Rightarrow> fresh | Some (keys, have_len) \<Rightarrow> if have_len < len then fresh else (keys, have_len))
          in Inr (\<lparr>root_pem = caCertPem, root_cert = cert, root_key = key, country = countryName, keyLength = len,
                   shared_keys = fst kept, memory_certs = \<lambda>_. None, selfSignedCerts = \<lambda>_. None,
                   intermediateCA = None, clientAuthCA = None, clientCertificate = None\<rparr>, kept)
      | _ \<Rightarrow> Inl (JsError ''invalid CA''))"

section \<open>The managed CAs\<close>

definition INTERMEDIATE_LIFESPAN_YEARS :: int where "INTERMEDIATE_LIFESPAN_YEARS = 6"
definition INTERMEDIATE_CACHE_DOMAIN :: string where "INTERMEDIATE_CACHE_DOMAIN = ''intermediate-ca''"
definition CLIENT_AUTH_CA_LIFESPAN_YEARS :: int where "CLIENT_AUTH_CA_LIFESPAN_YEARS = 10"
definition CLIENT_AUTH_CA_CACHE_DOMAIN :: string where "CLIENT_AUTH_CA_CACHE_DOMAIN = ''client-auth-ca''"
definition CLIENT_CERT_LIFESPAN_YEARS :: int where "CLIENT_CERT_LIFESPAN_YEARS = 2"

definition intermediateCacheKey :: "ca_env \<Rightarrow> local_ca \<Rightarrow> string" where
  "intermediateCacheKey env ca = ''intermediate+'' @ certObjectId (env_hash env) (root_pem ca)"

text \<open>\<open>this.intermediateCA ??= ...\<close>\<close>

definition getIntermediateCA :: "ca_env \<Rightarrow> local_ca \<Rightarrow> CaMaterial fallible \<times> local_ca" where
  "getIntermediateCA env ca =
     (case intermediateCA ca of
        Some outcome \<Rightarrow> (outcome, ca)
      | None \<Rightarrow>
          let outcome = env_load env (intermediateCacheKey env ca) INTERMEDIATE_CACHE_DOMAIN
                (buildManagedCA (env_lib env) (env_moment env) (country_name ca) (keyLength ca)
                  ''Test Intermediate CA'' INTERMEDIATE_LIFESPAN_YEARS (Some (root_cert ca, root_key ca)))
          in (outcome, ca\<lparr>intermediateCA := Some outcome\<rparr>))"

definition getIntermediateCertificatePem :: "ca_env \<Rightarrow> local_ca \<Rightarrow> string fallible \<times> local_ca" where
  "getIntermediateCertificatePem env ca = map_prod (map_sum id ca_pem) id (getIntermediateCA env ca)"

definition getClientAuthCA :: "ca_env \<Rightarrow> local_ca \<Rightarrow> CaMaterial fallible \<times> local_ca" where
  "getClientAuthCA env ca =
     (case clientAuthCA ca of
        Some outcome \<Rightarrow> (outcome, ca)
      | None \<Rightarrow>
          let outcome = env_load env CLIENT_AUTH_CA_CACHE_DOMAIN CLIENT_AUTH_CA_CACHE_DOMAIN
                (buildManagedCA (env_lib env) (env_moment env) (country_name ca) (keyLength ca)
                  ''Testserver Client Authentication CA'' CLIENT_AUTH_CA_LIFESPAN_YEARS None)
          in (outcome, ca\<lparr>clientAuthCA := Some outcome\<rparr>))"

definition getClientAuthCaCertPem :: "ca_env \<Rightarrow> local_ca \<Rightarrow> string fallible \<times> local_ca" where
  "getClientAuthCaCertPem env ca = map_prod (map_sum id ca_pem) id (getClientAuthCA env ca)"

section \<open>Client certificates\<close>

definition client_x509 :: "ca_env \<Rightarrow> local_ca \<Rightarrow> CaMaterial \<Rightarrow> x509" where
  "client_x509 env ca issuing =
     (let m = env_moment env; keyPair = generated_keys m (keyLength ca) in
      \<lparr>x_serial = generateSerialNumber (random_uuid m),
       x_subject = [(''C'', country_name ca), (''O'', ''Testserver''), (''CN'', ''Testserver Client Certificate'')],
       x_issuer = x_subject (ca_cert issuing),
       x_notBefore = add_days (-1) (now_ms m),
       x_notAfter = clampNotAfter (add_years CLIENT_CERT_LIFESPAN_YEARS (now_ms m)) (x_notAfter (ca_cert issuing)),
       x_hash = ''SHA-256'',
       x_publicKey = fst keyPair,
       x_signingKey = ca_key issuing,
       x_isCa = False,
       x_pathLen = None,
       x_keyUsages = [''digitalSignature''],
       x_extKeyUsages = [''clientAuth''],
       x_altNames = None,
       x_policies = [],
       x_subjectKeyId = False,
       x_authority = Some (x_subject (ca_cert issuing))\<rparr>)"

definition createClientCertificate :: "ca_env \<Rightarrow> local_ca \<Rightarrow> (local_cert \<times> int) fallible \<times> local_ca" where
  "createClientCertificate env ca =
     (case getClientAuthCA env ca of
        (Inl e, ca') \<Rightarrow> (Inl e, ca')
      | (Inr issuing, ca') \<Rightarrow>
          let certificate = client_x509 env ca' issuing in
          (Inr (\<lparr>lc_key = arrayBufferToPem (snd (generated_keys (env_moment env) (keyLength ca))) ''PRIVATE KEY'',
                 lc_cert = pem_of (env_lib env) certificate, lc_ca = ca_pem issuing\<rparr>,
                x_notAfter certificate), ca'))"

text \<open>A kept certificate is used until the renewal margin; a rejected one is made again.\<close>

definition getClientCertificate :: "ca_env \<Rightarrow> local_ca \<Rightarrow> local_cert fallible \<times> local_ca" where
  "getClientCertificate env ca =
     (let fresh = (case createClientCertificate env ca of
            (outcome, ca') \<Rightarrow> (map_sum id fst outcome, ca'\<lparr>clientCertificate := Some outcome\<rparr>))
      in case clientCertificate ca of
           Some (Inr (cert, expiry)) \<Rightarrow>
             if expiry - now_ms (env_moment env) \<ge> RENEWAL_MARGIN_MS then (Inr cert, ca) else fresh
         | _ \<Rightarrow> fresh)"

section \<open>Server certificates\<close>

text \<open>The cache key of this CA leaves the override prefix out.\<close>

definition calculateCacheKey :: "string \<Rightarrow> options \<Rightarrow> string" where
  "calculateCacheKey domain options =
     domain @ ''+'' @ join ''+''
       (filter (\<lambda>k. truthy (get options k)) cert_flags @
        (if truthy (get options ''keyBits'') then [''keyBits='' @ opt_text (get options ''keyBits'')] else []))"

text \<open>A certificate cannot name a host with an underscore, so its first label becomes a wildcard.\<close>

definition certifiable_domain :: "string \<Rightarrow> string fallible" where
  "certifiable_domain domain =
     (if CHR ''_'' \<in> set domain then
        let otherParts = tl (split_seq ''.'' domain) in
        if length otherParts \<le> 1 \<or> list_ex (\<lambda>p. CHR ''_'' \<in> set p) otherParts
        then Inl (JsError (''Cannot generate certificate for domain due to underscores: '' @ domain))
        else Inr (''*.'' @ join ''.'' otherParts)
      else Inr domain)"

definition num_opt :: "optval \<Rightarrow> nat" where
  "num_opt v = (case v of ONum n \<Rightarrow> nat n | _ \<Rightarrow> 0)"

definition leaf_keys :: "moment \<Rightarrow> local_ca \<Rightarrow> options \<Rightarrow> bytes \<times> bytes" where
  "leaf_keys m ca options =
     (if truthy (get options ''keyBits'') then generated_keys m (num_opt (get options ''keyBits'')) else shared_keys ca)"

definition leaf_subject :: "local_ca \<Rightarrow> string \<Rightarrow> options \<Rightarrow> dn" where
  "leaf_subject ca domain options =
     (''C'', country_name ca) #
     (if \<not> starts_with domain ''*'' \<and> \<not> truthy (get options ''noCommonName'') then [(''CN'', domain)] else [])"

definition leaf_x509 :: "moment \<Rightarrow> local_ca \<Rightarrow> string \<Rightarrow> options \<Rightarrow> CaMaterial option \<Rightarrow> x509" where
  "leaf_x509 m ca domain options intermediate =
     (let subject = leaf_subject ca domain options;
          expired = truthy (get options ''expired'');
          notBefore = add_days (if expired then -2 else -1) (now_ms m);
          notAfter = (if expired then add_days (-1) (now_ms m) else add_years 1 (now_ms m))
      in
      \<lparr>x_serial = generateSerialNumber (random_uuid m),
       x_subject = subject,
       x_issuer = (case intermediate of Some i \<Rightarrow> x_subject (ca_cert i) | None \<Rightarrow> subject),
       x_notBefore = notBefore,
       x_notAfter = (case intermediate of Some i \<Rightarrow> clampNotAfter notAfter (x_notAfter (ca_cert i)) | None \<Rightarrow> notAfter),
       x_hash = (if truthy (get options ''sha1Signature'') then ''SHA-1'' else ''SHA-256''),
       x_publicKey = fst (leaf_keys m ca options),
       x_signingKey = (case intermediate of Some i \<Rightarrow> ca_key i | None \<Rightarrow> snd (leaf_keys m ca options)),
       x_isCa = False,
       x_pathLen = None,
       x_keyUsages = [''digitalSignature'', ''keyEncipherment''],
       x_extKeyUsages = [''serverAuth''],
       x_altNames = Some [(''dns'', domain)],
       x_policies = [''2.23.140.1.2.1''],
       x_subjectKeyId = False,
       x_authority = map_option (x_subject \<circ> ca_cert) intermediate\<rparr>)"

definition trim_end :: "string \<Rightarrow> string" where
  "trim_end s = rev (dropWhile is_js_space (rev s))"

definition served_chain :: "local_ca \<Rightarrow> string \<Rightarrow> CaMaterial option \<Rightarrow> string" where
  "served_chain ca certPem intermediate =
     (case intermediate of
        Some i \<Rightarrow> trim_end certPem @ newline @ trim_end (ca_pem i) @ newline @ trim_end (root_pem ca) @ newline
      | None \<Rightarrow> certPem)"

text \<open>Making a certificate that is not in memory, with the outcome of the intermediate.\<close>

definition make_certificate ::
    "ca_env \<Rightarrow> local_ca \<Rightarrow> string \<Rightarrow> options \<Rightarrow> CaMaterial option \<Rightarrow> local_cert \<times> local_ca" where
  "make_certificate env ca domain options intermediate =
     (let m = env_moment env;
          certificate = leaf_x509 m ca domain options intermediate;
          certPem = pem_of (env_lib env) certificate;
          selfSigned = truthy (get options ''selfSigned'');
          generated = \<lparr>lc_key = arrayBufferToPem (snd (leaf_keys m ca options)) ''PRIVATE KEY'',
            lc_cert = served_chain ca certPem intermediate,
            lc_ca = (if selfSigned then certPem else root_pem ca)\<rparr>;
          ca' = ca\<lparr>memory_certs := (memory_certs ca)(calculateCacheKey domain options \<mapsto> generated)\<rparr>
      in (generated,
          if selfSigned
          then ca'\<lparr>selfSignedCerts := (selfSignedCerts ca)(x_serial certificate \<mapsto> (certificate, snd (leaf_keys m ca options)))\<rparr>
          else ca'))"

definition generateCertificate :: "ca_env \<Rightarrow> local_ca \<Rightarrow> string \<Rightarrow> options \<Rightarrow> local_cert fallible \<times> local_ca" where
  "generateCertificate env ca requested options =
     (case certifiable_domain requested of
        Inl e \<Rightarrow> (Inl e, ca)
      | Inr domain \<Rightarrow>
          (case memory_certs ca (calculateCacheKey domain options) of
             Some cached \<Rightarrow> (Inr cached, ca)
           | None \<Rightarrow>
               if truthy (get options ''selfSigned'')
               then map_prod Inr id (make_certificate env ca domain options None)
               else (case getIntermediateCA env ca of
                   (Inl e, ca') \<Rightarrow> (Inl e, ca')
                 | (Inr i, ca') \<Rightarrow> map_prod Inr id (make_certificate env ca' domain options (Some i)))))"

text \<open>A day later the certificate and its serial are forgotten.\<close>

definition forget :: "string \<Rightarrow> string \<Rightarrow> local_ca \<Rightarrow> local_ca" where
  "forget cacheKey serial ca =
     ca\<lparr>memory_certs := (memory_certs ca)(cacheKey := None), selfSignedCerts := (selfSignedCerts ca)(serial := None)\<rparr>"

section \<open>OCSP\<close>

definition alt_labels :: "string \<Rightarrow> string list" where
  "alt_labels dnsName =
     (let labels = split_seq ''.'' dnsName in
      if list_ex (\<lambda>l. includes_sub l ''--'') labels then concat (map (split_seq ''--'') labels) else labels)"

definition isRevokedCert :: "x509 \<Rightarrow> bool" where
  "isRevokedCert cert =
     (case x_altNames cert of
        None \<Rightarrow> False
      | Some names \<Rightarrow> list_ex (\<lambda>(t, v). t = ''dns'' \<and> ''revoked'' \<in> set (alt_labels v)) names)"

text \<open>
  \<open>signed_by key cert\<close> is \<open>cert.verify\<close> of the library: the signature of \<open>cert\<close> is valid under the
  public key \<open>key\<close>. Waiting for an intermediate that was rejected throws.
\<close>

definition findOcspIssuer ::
    "(bytes \<Rightarrow> x509 \<Rightarrow> bool) \<Rightarrow> local_ca \<Rightarrow> x509 \<Rightarrow> (x509 \<times> bytes) option fallible" where
  "findOcspIssuer signed_by ca cert =
     (let rest =
        (case intermediateCA ca of
           Some (Inl e) \<Rightarrow> Inl e
         | intermediate \<Rightarrow>
             let candidates =
               (case intermediate of Some (Inr i) \<Rightarrow> [(ca_cert i, ca_key i)] | _ \<Rightarrow> []) @ [(root_cert ca, root_key ca)]
             in Inr (find (\<lambda>(c, _). x_issuer cert = x_subject c \<and> signed_by (x_publicKey c) cert) candidates))
      in case selfSignedCerts ca (x_serial cert) of
           Some own \<Rightarrow> if fst own = cert then Inr (Some own) else rest
         | None \<Rightarrow> rest)"

definition der_pem :: "bytes \<Rightarrow> string" where
  "der_pem certDer =
     ''-----BEGIN CERTIFICATE-----'' @ newline @ base64_encode certDer @ newline @ ''-----END CERTIFICATE-----''"

definition getOcspResponse ::
    "asn1_lib \<Rightarrow> ca_env \<Rightarrow> (bytes \<Rightarrow> x509 \<Rightarrow> bool) \<Rightarrow> local_ca \<Rightarrow> bytes \<Rightarrow> bytes option fallible" where
  "getOcspResponse asn1 env signed_by ca certDer =
     (case parse_pem (env_lib env) (der_pem certDer) of
        None \<Rightarrow> Inr None
      | Some cert \<Rightarrow>
          (case findOcspIssuer signed_by ca cert of
             Inl e \<Rightarrow> Inl e
           | Inr None \<Rightarrow> Inr None
           | Inr (Some (issuerCert, issuerKey)) \<Rightarrow>
               let now = now_ms (env_moment env);
                   good = \<lparr>oo_cert = cert, oo_issuerCert = issuerCert, oo_issuerKey = issuerKey, oo_status = ''good'',
                     oo_revocationTime = None, oo_revocationReason = None, oo_thisUpdate = None, oo_nextUpdate = None\<rparr>
               in map_sum id Some
                 (if isRevokedCert cert
                  then createOcspResponse asn1
                    (good\<lparr>oo_status := ''revoked'', oo_revocationTime := Some now, oo_revocationReason := Some keyCompromise\<rparr>) now
                  else createOcspResponse asn1 good now)))"

section \<open>Serial numbers\<close>

lemma generated_serial_bytes: "\<exists>bs. serialNumberBytes (generateSerialNumber uuid) = Inr bs"
proof -
  have "filter (\<lambda>c. \<not> is_js_space c) (generateSerialNumber uuid) \<noteq> []"
    by (simp add: generateSerialNumber_def is_js_space_def)
  moreover have "hex_pairs s \<noteq> []" if "even (length s)" "s \<noteq> []" for s
    using that by (cases s rule: hex_pairs.cases) auto
  moreover have "hex_pairs (CHR ''0'' # s) \<noteq> []" if "s \<noteq> []" for s
    using that by (cases s) auto
  ultimately show ?thesis
    by (cases "even (length (filter (\<lambda>c. \<not> is_js_space c) (generateSerialNumber uuid)))")
      (auto simp: serialNumberBytes_def Let_def even_iff_mod_2_eq_zero split: list.splits)
qed

end
