(* ===== verification/Local_Ca_Laws.thy ===== *)
theory Local_Ca_Laws
  imports Local_Ca Ca_Fleet
begin

text \<open>
  What the certificates of \<open>Local_Ca\<close> promise: validity and chain of a server certificate, the
  form of an OCSP answer, and what happens to client certificates after the store has failed once.
\<close>

section \<open>Server certificates\<close>

definition covers :: "int \<Rightarrow> x509 \<Rightarrow> bool" where
  "covers t cert \<longleftrightarrow> x_notBefore cert \<le> t \<and> t \<le> x_notAfter cert"

lemma add_year_later: "t < add_years 1 t"
  using add_years_bounds [of t 1] by (simp add: DAY_MS_def)

lemma leaf_covers:
  "covers (now_ms m) (leaf_x509 m ca domain options (Some i)) \<longleftrightarrow>
     \<not> truthy (get options ''expired'') \<and> now_ms m \<le> x_notAfter (ca_cert i)"
  using add_year_later [of "now_ms m"]
  by (auto simp: covers_def leaf_x509_def Let_def clampNotAfter_def add_days_def DAY_MS_def)

lemma leaf_fields:
  "x_altNames (leaf_x509 m ca domain options i) = Some [(''dns'', domain)]"
  "x_serial (leaf_x509 m ca domain options i) = generateSerialNumber (random_uuid m)"
  "x_issuer (leaf_x509 m ca domain options (Some j)) = x_subject (ca_cert j)"
  "x_signingKey (leaf_x509 m ca domain options (Some j)) = ca_key j"
  "x_notAfter (leaf_x509 m ca domain options (Some j)) \<le> x_notAfter (ca_cert j)"
  by (simp_all add: leaf_x509_def Let_def clampNotAfter_def)

lemma getIntermediate_memory: "memory_certs (snd (getIntermediateCA env ca)) = memory_certs ca"
  and getIntermediate_root: "root_pem (snd (getIntermediateCA env ca)) = root_pem ca"
  by (simp_all add: getIntermediateCA_def Let_def split: option.splits)


definition sample_env :: ca_env where
  "sample_env =
     \<lparr>env_lib = sample_lib,
      env_moment = \<lparr>now_ms = 100 * DAY_MS, random_uuid = ''0-1'', generated_keys = \<lambda>n. ([1], [2])\<rparr>,
      env_load = \<lambda>k d c. Inr c, env_hash = id\<rparr>"

definition sample_local_ca :: local_ca where
  "sample_local_ca =
     \<lparr>root_pem = ''ROOT'', root_cert = sample_x509 ''root'', root_key = [3], country = None, keyLength = 2048,
      shared_keys = ([1], [2]), memory_certs = \<lambda>_. None, selfSignedCerts = \<lambda>_. None, intermediateCA = None,
      clientAuthCA = None, clientCertificate = None\<rparr>"


section \<open>OCSP\<close>

lemma concat_singletons: "(\<And>x. x \<in> set xs \<Longrightarrow> f x = [x]) \<Longrightarrow> concat (map f xs) = xs"
  by (induction xs) auto

lemma alt_labels_eq: "alt_labels name = concat (map (split_seq ''--'') (split_seq ''.'' name))"
proof (cases "list_ex (\<lambda>l. includes_sub l ''--'') (split_seq ''.'' name)")
  case False
  have "split_seq ''--'' l = [l]" if "\<not> includes_sub l ''--''" for l
    using that by (simp add: split_seq.simps [of _ l] includes_sub_def)
  then have "concat (map (split_seq ''--'') (split_seq ''.'' name)) = split_seq ''.'' name"
    using False by (intro concat_singletons) (auto simp: list_ex_iff)
  then show ?thesis using False by (simp add: alt_labels_def Let_def)
qed (simp add: alt_labels_def Let_def)

lemma set_join: "set (join sep xs) \<subseteq> set sep \<union> \<Union> (set ` set xs)"
  by (induction sep xs rule: join.induct) auto

lemma split_char_append:
  assumes "\<And>x. x \<in> set xs \<Longrightarrow> c \<notin> set x" and "xs \<noteq> []"
  shows "split_seq [c] (join [c] xs @ c # r) = xs @ split_seq [c] r"
  using assms
proof (induction xs)
  case (Cons x xs)
  then show ?case by (cases "xs = []") (auto simp: split_char_step join_Cons)
qed simp

lemma alt_labels_host:
  assumes "parts \<noteq> []" and "\<And>p. p \<in> set parts \<Longrightarrow> known p" and "sep = ''--'' \<or> sep = ''.''"
  shows "alt_labels (join sep parts @ ''.'' @ rootDomain) = parts @ alt_labels rootDomain"
proof -
  have shape: "find_sub ''--'' p = None \<and> p \<noteq> [] \<and> last p \<noteq> CHR ''-'' \<and> CHR ''.'' \<notin> set p" if "p \<in> set parts" for p
    using sni_names_shape [OF iffD1 [OF known_iff assms(2) [OF that]]] by blast
  from assms(3) show ?thesis
  proof
    assume sep: "sep = ''--''"
    have "CHR ''.'' \<notin> set (join ''--'' parts)" using set_join [of "''--''" parts] shape by auto
    then have "split_seq ''.'' (join sep parts @ ''.'' @ rootDomain) = join ''--'' parts # split_seq ''.'' rootDomain"
      using split_char_step [of "CHR ''.''" "join ''--'' parts" rootDomain] by (simp add: sep)
    then show ?thesis using split_dashes_join [OF assms(1)] shape by (simp add: alt_labels_eq)
  next
    assume sep: "sep = ''.''"
    have single: "split_seq ''--'' p = [p]" if "p \<in> set parts" for p
      using shape [OF that] by (simp add: split_seq.simps [of _ p])
    have "split_seq ''.'' (join sep parts @ ''.'' @ rootDomain) = parts @ split_seq ''.'' rootDomain"
      using split_char_append [of parts "CHR ''.''" rootDomain] shape assms(1) by (simp add: sep)
    moreover have "concat (map (split_seq ''--'') parts) = parts" by (rule concat_singletons [OF single])
    ultimately show ?thesis by (simp add: alt_labels_eq)
  qed
qed

text \<open>The answer for a certificate whose issuer is known.\<close>

lemma ocsp_answer:
  assumes "findOcspIssuer signed_by ca cert = Inr (Some (issuer, key))" and "x_issuer cert = x_subject issuer"
    and "parse_pem (env_lib env) (der_pem der) = Some cert" and "x_serial cert = generateSerialNumber uuid"
  shows "\<exists>basic sr. getOcspResponse asn1 env signed_by ca der = Inr (Some (wrap_response asn1 basic)) \<and>
    br_signature basic = sign_rsa_sha256 asn1 key (der_data asn1 (br_data basic)) \<and>
    br_certs basic = [issuer] \<and> rd_byName (br_data basic) = x_subject issuer \<and>
    rd_responses (br_data basic) = [sr] \<and>
    cid_issuerNameHash (sr_certID sr) = sha1_digest asn1 (der_name asn1 (x_issuer cert)) \<and>
    serialNumberBytes (x_serial cert) = Inr (cid_serialNumber (sr_certID sr)) \<and>
    sr_certStatus sr = (if isRevokedCert cert then Revoked (now_ms (env_moment env)) else Good)"
proof -
  obtain bs where "serialNumberBytes (x_serial cert) = Inr bs"
    using generated_serial_bytes assms(4) by metis
  then show ?thesis
    using assms(1-3)
    by (auto simp: getOcspResponse_def createOcspResponse_def createSingleResponse_def createCertId_def createCertStatus_def
        createBasicOcspResponse_def createResponseData_def signResponseData_def Let_def)
qed

text \<open>Encodings that keep what matters to the sample.\<close>

definition sample_asn1 :: asn1_lib where
  "sample_asn1 =
     \<lparr>der_name = (\<lambda>n. []), subjectPublicKey = id, der_data = (\<lambda>d. [1]), der_basic = br_signature, der_message = om_response,
      parse_request = (\<lambda>d. None), sha1_digest = id, sign_rsa_sha256 = (@)\<rparr>"

section \<open>Client certificates\<close>

lemma auth_failed:
  assumes "clientAuthCA ca = Some (Inl e)" and "clientCertificate ca = None \<or> clientCertificate ca = Some (Inl e)"
  shows "fst (getClientCertificate env ca) = Inl e"
    and "clientAuthCA (snd (getClientCertificate env ca)) = Some (Inl e)"
    and "clientCertificate (snd (getClientCertificate env ca)) = Some (Inl e)"
  using assms by (auto simp: getClientCertificate_def createClientCertificate_def getClientAuthCA_def Let_def)

text \<open>
  C40: When the store fails the first time a client certificate is asked for, every later
  request fails with the same error, in whatever surroundings: the rejected promise of the
  client CA is kept, so making the certificate again cannot succeed.
\<close>

theorem client_auth_failure_sticks:
  assumes "clientAuthCA ca = None" and "clientCertificate ca = None"
    and "fst (getClientCertificate env ca) = Inl e"
  shows "fst (getClientCertificate env' (fold (\<lambda>env s. snd (getClientCertificate env s)) envs (snd (getClientCertificate env ca)))) = Inl e"
proof -
  let ?failed = "\<lambda>ca. clientAuthCA ca = Some (Inl e) \<and> clientCertificate ca = Some (Inl e)"
  have first: "?failed (snd (getClientCertificate env ca))"
    using assms by (auto simp: getClientCertificate_def createClientCertificate_def getClientAuthCA_def Let_def
        split: sum.splits prod.splits)
  have "?failed (fold (\<lambda>env s. snd (getClientCertificate env s)) envs s)" if "?failed s" for s
    using that by (induction envs arbitrary: s) (simp_all add: auth_failed)
  from auth_failed(1) [of _ e env'] this [OF first] show ?thesis by blast
qed

theorem client_auth_failure_sticks_witness:
  "fst (getClientCertificate sample_env (fold (\<lambda>env s. snd (getClientCertificate env s)) [sample_env, sample_env]
     (snd (getClientCertificate (sample_env\<lparr>env_load := \<lambda>k d c. Inl s3_error\<rparr>) sample_local_ca)))) = Inl s3_error"
  by (rule client_auth_failure_sticks)
    (simp_all add: sample_local_ca_def getClientCertificate_def createClientCertificate_def getClientAuthCA_def Let_def)

end
