(* ===== verification/Dns_Server.thy ===== *)
theory Dns_Server
  imports Cert_Cache
begin

text \<open>
  \<^verbatim>\<open>src/dns-server.ts\<close> and \<^verbatim>\<open>src/tls-certificates/s3-challenge-store.ts\<close>: the DNS server that answers
  ACME challenges, and the store through which servers share their challenges. The TXT records
  of a server are a \<open>Map\<close> of \<open>Set\<close>s, the sets in insertion order. Each request to the store sees the store at a
  moment of its own: a listing at one, the read of the object \<open>k\<close> at \<open>reads k\<close>. The packet format is the package
  \<^verbatim>\<open>dns-packet\<close>, so a query is its decoded form, \<open>None\<close> when decoding throws.
\<close>

section \<open>The challenge store\<close>

text \<open>
  A record as \<open>JSON.parse\<close> gives it, with its expiry as the comparisons read it: \<open>None\<close> is a missing
  field, text or a collection (they count as \<open>NaN\<close>), and a value that is not text counts as empty.
\<close>

record StoredChallenge =
  sc_value :: string
  sc_expiry :: "rat option"

definition CHALLENGE_TTL_MS :: int where
  "CHALLENGE_TTL_MS = 1000 * 60 * 10"

definition challenge_hash :: "(string \<Rightarrow> string) \<Rightarrow> string \<Rightarrow> string" where
  "challenge_hash hash v = take 32 (hash v)"

definition challenge_prefix :: "S3Config \<Rightarrow> string" where
  "challenge_prefix config = (case config_prefix config of None \<Rightarrow> ''acme-challenges/'' | Some p \<Rightarrow> p)"

definition fqdnPrefix :: "(string \<Rightarrow> string) \<Rightarrow> S3Config \<Rightarrow> string \<Rightarrow> string" where
  "fqdnPrefix hash config fqdn = challenge_prefix config @ challenge_hash hash (to_lower fqdn) @ ''/''"

definition challengeKey :: "(string \<Rightarrow> string) \<Rightarrow> S3Config \<Rightarrow> string \<Rightarrow> string \<Rightarrow> string" where
  "challengeKey hash config fqdn v = fqdnPrefix hash config fqdn @ challenge_hash hash v @ ''.json''"

definition challenge_json :: "string \<Rightarrow> string \<Rightarrow> int \<Rightarrow> json" where
  "challenge_json fqdn v expiry = JObj [(''fqdn'', JStr fqdn), (''value'', JStr v), (''expiry'', JNum expiry)]"

fun as_number :: "parsed option \<Rightarrow> rat option" where
  "as_number (Some (PNum x)) = Some x"
| "as_number (Some (PBool b)) = Some (of_bool b)"
| "as_number (Some PNull) = Some 0"
| "as_number _ = None"

definition challenge_record :: "parsed \<Rightarrow> StoredChallenge" where
  "challenge_record v =
     \<lparr>sc_value = (case parsed_field v ''value'' of Some (PStr s) \<Rightarrow> s | _ \<Rightarrow> []),
      sc_expiry = as_number (parsed_field v ''expiry'')\<rparr>"

definition challenge_live :: "int \<Rightarrow> StoredChallenge \<Rightarrow> bool" where
  "challenge_live now r \<longleftrightarrow> (case sc_expiry r of None \<Rightarrow> False | Some e \<Rightarrow> e > of_int now)"

definition challenge_expired :: "int \<Rightarrow> StoredChallenge \<Rightarrow> bool" where
  "challenge_expired now r \<longleftrightarrow> (case sc_expiry r of None \<Rightarrow> False | Some e \<Rightarrow> e \<le> of_int now)"

text \<open>\<open>None\<close> is no body, a record that cannot be parsed, or a falsy one.\<close>

definition parse_challenge :: "string option \<Rightarrow> StoredChallenge option" where
  "parse_challenge body =
     (case body of
        None \<Rightarrow> None
      | Some t \<Rightarrow>
          (case json_parse t of
             None \<Rightarrow> None
           | Some v \<Rightarrow> if parsed_truthy (Some v) then Some (challenge_record v) else None))"

definition challenge_set ::
    "(string \<Rightarrow> string) \<Rightarrow> 's s3_client \<Rightarrow> S3Config \<Rightarrow> int \<Rightarrow> int \<Rightarrow> string \<Rightarrow> string \<Rightarrow> 's \<Rightarrow> unit fallible \<times> 's" where
  "challenge_set hash client config ttlMs now fqdn v s =
     map_prod (map_sum (\<lambda>_. s3_error) id) id
       (s3_put client s (config_bucket config) (challengeKey hash config fqdn v)
         (stringify (challenge_json fqdn v (now + ttlMs))) False)"

definition challenge_remove ::
    "(string \<Rightarrow> string) \<Rightarrow> 's s3_client \<Rightarrow> S3Config \<Rightarrow> string \<Rightarrow> string \<Rightarrow> 's \<Rightarrow> unit fallible \<times> 's" where
  "challenge_remove hash client config fqdn v s =
     map_prod (map_sum (\<lambda>_. s3_error) id) id
       (s3_delete client s (config_bucket config) (challengeKey hash config fqdn v))"

definition readRecord :: "'s s3_client \<Rightarrow> S3Config \<Rightarrow> 's \<Rightarrow> string \<Rightarrow> StoredChallenge option fallible" where
  "readRecord client config s k =
     (case s3_get client s (config_bucket config) k of
        Inl e \<Rightarrow> if e = Some 404 then Inr None else Inl s3_error
      | Inr body \<Rightarrow> Inr (parse_challenge body))"

text \<open>\<open>Promise.all\<close>: every result, or a rejection.\<close>

fun all_results :: "('a \<Rightarrow> 'b fallible) \<Rightarrow> 'a list \<Rightarrow> 'b list fallible" where
  "all_results f [] = Inr []"
| "all_results f (x # xs) =
     (case f x of
        Inl e \<Rightarrow> Inl e
      | Inr y \<Rightarrow> map_sum id (Cons y) (all_results f xs))"

definition listRecords ::
    "'s s3_client \<Rightarrow> S3Config \<Rightarrow> 's \<Rightarrow> (string \<Rightarrow> 's) \<Rightarrow> string \<Rightarrow> (string \<times> StoredChallenge option) list fallible" where
  "listRecords client config s reads p =
     (case s3_list client s (config_bucket config) p of
        Inl e \<Rightarrow> Inl s3_error
      | Inr pages \<Rightarrow> all_results (\<lambda>k. map_sum id (Pair k) (readRecord client config (reads k) k)) (listed_keys pages))"

definition challenge_get ::
    "(string \<Rightarrow> string) \<Rightarrow> 's s3_client \<Rightarrow> S3Config \<Rightarrow> int \<Rightarrow> string \<Rightarrow> 's \<Rightarrow> (string \<Rightarrow> 's) \<Rightarrow> string list fallible" where
  "challenge_get hash client config now fqdn s reads =
     map_sum id (\<lambda>entries. map sc_value (filter (challenge_live now) (List.map_filter snd entries)))
       (listRecords client config s reads (fqdnPrefix hash config fqdn))"

text \<open>The deletions run side by side; one that fails is the result, and stops none of the others.\<close>

fun delete_each :: "'s s3_client \<Rightarrow> string \<Rightarrow> string list \<Rightarrow> 's \<Rightarrow> unit fallible \<times> 's" where
  "delete_each client bucket [] s = (Inr (), s)"
| "delete_each client bucket (k # ks) s =
     (case s3_delete client s bucket k of
        (q, s') \<Rightarrow>
          (case delete_each client bucket ks s' of
             (r, s'') \<Rightarrow> (case q of Inl e \<Rightarrow> Inl s3_error | Inr _ \<Rightarrow> r, s'')))"

text \<open>Deletes every record that is expired or unreadable; here with nothing between its requests.\<close>

definition reap_due :: "int \<Rightarrow> StoredChallenge option \<Rightarrow> bool" where
  "reap_due now record = (case record of None \<Rightarrow> True | Some r \<Rightarrow> challenge_expired now r)"

definition reapExpired :: "'s s3_client \<Rightarrow> S3Config \<Rightarrow> int \<Rightarrow> 's \<Rightarrow> unit fallible \<times> 's" where
  "reapExpired client config now s =
     (case listRecords client config s (\<lambda>_. s) (challenge_prefix config) of
        Inl e \<Rightarrow> (Inl e, s)
      | Inr entries \<Rightarrow>
          delete_each client (config_bucket config) (map fst (filter (\<lambda>(_, record). reap_due now record) entries)) s)"

section \<open>TXT records\<close>

type_synonym txt_records = "string \<Rightarrow> string list option"

definition txt_values :: "txt_records \<Rightarrow> string \<Rightarrow> string list" where
  "txt_values records name = (case records name of None \<Rightarrow> [] | Some vs \<Rightarrow> vs)"

text \<open>\<open>setTxtRecord\<close> and \<open>removeTxtRecord\<close> on the records of the server itself.\<close>

definition set_local :: "string \<Rightarrow> string \<Rightarrow> txt_records \<Rightarrow> txt_records" where
  "set_local name v records =
     (let vs = txt_values records name in records(name \<mapsto> (if v \<in> set vs then vs else vs @ [v])))"

definition remove_local :: "string \<Rightarrow> string \<Rightarrow> txt_records \<Rightarrow> txt_records" where
  "remove_local name v records =
     (case records name of
        None \<Rightarrow> records
      | Some vs \<Rightarrow>
          let vs' = filter (\<lambda>w. w \<noteq> v) vs in
          if vs' = [] then records(name := None) else records(name \<mapsto> vs'))"

text \<open>With the challenge store, if there is one; the local record is changed whatever the store does.\<close>

record 's challenge_store =
  cs_set :: "string \<Rightarrow> string \<Rightarrow> 's \<Rightarrow> unit fallible \<times> 's"
  cs_remove :: "string \<Rightarrow> string \<Rightarrow> 's \<Rightarrow> unit fallible \<times> 's"
  cs_get :: "string \<Rightarrow> 's \<Rightarrow> (string \<Rightarrow> 's) \<Rightarrow> string list fallible"

definition setTxtRecord ::
    "'s challenge_store option \<Rightarrow> string \<Rightarrow> string \<Rightarrow> txt_records \<Rightarrow> 's \<Rightarrow> unit fallible \<times> txt_records \<times> 's" where
  "setTxtRecord store fqdn v records s =
     (let records' = set_local (to_lower fqdn) v records in
      case store of
        None \<Rightarrow> (Inr (), records', s)
      | Some cs \<Rightarrow> (case cs_set cs (to_lower fqdn) v s of (r, s') \<Rightarrow> (r, records', s')))"

definition removeTxtRecord ::
    "'s challenge_store option \<Rightarrow> string \<Rightarrow> string \<Rightarrow> txt_records \<Rightarrow> 's \<Rightarrow> unit fallible \<times> txt_records \<times> 's" where
  "removeTxtRecord store fqdn v records s =
     (let records' = remove_local (to_lower fqdn) v records in
      case store of
        None \<Rightarrow> (Inr (), records', s)
      | Some cs \<Rightarrow> (case cs_remove cs (to_lower fqdn) v s of (r, s') \<Rightarrow> (r, records', s')))"

definition S3ChallengeStore :: "(string \<Rightarrow> string) \<Rightarrow> 's s3_client \<Rightarrow> S3Config \<Rightarrow> int \<Rightarrow> int \<Rightarrow> 's challenge_store" where
  "S3ChallengeStore hash client config ttlMs now =
     \<lparr>cs_set = challenge_set hash client config ttlMs now,
      cs_remove = challenge_remove hash client config,
      cs_get = challenge_get hash client config now\<rparr>"

section \<open>Queries\<close>

record dns_question =
  dq_type :: string
  dq_name :: string

record dns_query =
  dns_id :: nat
  questions :: "dns_question list option"

record txt_answer =
  ta_name :: string
  ta_ttl :: nat
  ta_data :: string

record dns_response =
  dr_id :: nat
  dr_questions :: "dns_question list option"
  dr_answers :: "txt_answer list"

definition ACME_CHALLENGE_PREFIX :: string where
  "ACME_CHALLENGE_PREFIX = ''_acme-challenge.''"

text \<open>The values of a name: the server's own, or those of the store for a challenge name without any.\<close>

definition query_values :: "'s challenge_store option \<Rightarrow> txt_records \<Rightarrow> 's \<Rightarrow> (string \<Rightarrow> 's) \<Rightarrow> dns_question \<Rightarrow> string list" where
  "query_values store records s reads question =
     (let name = to_lower (dq_name question);
          values = txt_values records name
      in case store of
           Some cs \<Rightarrow>
             if dq_type question = ''TXT'' \<and> values = [] \<and> starts_with name ACME_CHALLENGE_PREFIX
             then (case cs_get cs name s reads of Inl e \<Rightarrow> values | Inr found \<Rightarrow> rev (remdups (rev found)))
             else values
         | None \<Rightarrow> values)"

definition handleQuery ::
    "'s challenge_store option \<Rightarrow> txt_records \<Rightarrow> 's \<Rightarrow> (string \<Rightarrow> 's) \<Rightarrow> dns_query option \<Rightarrow> dns_response option" where
  "handleQuery store records s reads msg =
     (case msg of
        None \<Rightarrow> None
      | Some query \<Rightarrow>
          (case questions query of
             Some (question # _) \<Rightarrow>
               Some \<lparr>dr_id = dns_id query, dr_questions = questions query,
                 dr_answers =
                   (if dq_type question = ''TXT''
                    then map (\<lambda>v. \<lparr>ta_name = dq_name question, ta_ttl = 60, ta_data = v\<rparr>)
                      (query_values store records s reads question)
                    else [])\<rparr>
           | _ \<Rightarrow> None))"

section \<open>What the store gives back\<close>

text \<open>A listing has exactly the keys of the objects under the prefix.\<close>

definition s3_listing :: "'s s3_client \<Rightarrow> string \<Rightarrow> ('s \<Rightarrow> string \<Rightarrow> string option) \<Rightarrow> bool" where
  "s3_listing client bucket objects \<longleftrightarrow>
     (\<forall>s p pages k. s3_list client s bucket p = Inr pages \<longrightarrow>
        (k \<in> set (listed_keys pages) \<longleftrightarrow> k \<noteq> [] \<and> starts_with k p \<and> objects s k \<noteq> None))"

lemma all_results_Inr:
  "all_results f xs = Inr ys \<Longrightarrow> (\<And>x y. f x = Inr y \<Longrightarrow> y = g x) \<Longrightarrow> ys = map g xs"
  by (induction xs arbitrary: ys) (auto simp: map_sum_def split: sum.splits)

lemma readRecord_Inr:
  assumes "s3_laws client (config_bucket config) objects" and "readRecord client config s k = Inr x"
  shows "x = parse_challenge (objects s k)"
  using assms(2) s3_get_law [OF assms(1)] s3_missing_law [OF assms(1)]
  by (fastforce simp: readRecord_def parse_challenge_def split: sum.splits if_splits)

lemma listRecords_Inr:
  assumes laws: "s3_laws client (config_bucket config) objects"
    and listing: "s3_listing client (config_bucket config) objects"
    and ok: "listRecords client config s reads p = Inr entries"
  shows "(k, x) \<in> set entries \<longleftrightarrow>
    k \<noteq> [] \<and> starts_with k p \<and> objects s k \<noteq> None \<and> x = parse_challenge (objects (reads k) k)"
proof -
  obtain pages where pages: "s3_list client s (config_bucket config) p = Inr pages"
    and read: "all_results (\<lambda>k. map_sum id (Pair k) (readRecord client config (reads k) k)) (listed_keys pages) = Inr entries"
    using ok by (auto simp: listRecords_def split: sum.splits)
  have "entries = map (\<lambda>k. (k, parse_challenge (objects (reads k) k))) (listed_keys pages)"
    by (rule all_results_Inr [OF read]) (auto simp: map_sum_def readRecord_Inr [OF laws] split: sum.splits)
  then show ?thesis using listing [unfolded s3_listing_def] pages by auto
qed

text \<open>The values that the store gives for a name: those of its records that have not expired.\<close>

lemma challenge_get_iff:
  assumes "s3_laws client (config_bucket config) objects" and "s3_listing client (config_bucket config) objects"
    and "challenge_get hash client config now fqdn s reads = Inr vs"
  shows "v \<in> set vs \<longleftrightarrow>
    (\<exists>k r. k \<noteq> [] \<and> starts_with k (fqdnPrefix hash config fqdn) \<and> objects s k \<noteq> None \<and>
      parse_challenge (objects (reads k) k) = Some r \<and> challenge_live now r \<and> sc_value r = v)"
proof -
  obtain entries where entries: "listRecords client config s reads (fqdnPrefix hash config fqdn) = Inr entries"
    and vs: "vs = map sc_value (filter (challenge_live now) (List.map_filter snd entries))"
    using assms(3) by (auto simp: challenge_get_def map_sum_def split: sum.splits)
  have "v \<in> set vs \<longleftrightarrow> (\<exists>k r. (k, Some r) \<in> set entries \<and> challenge_live now r \<and> sc_value r = v)"
    unfolding vs by (force simp: map_filter_def)
  then show ?thesis
    using listRecords_Inr [OF assms(1,2) entries] by (smt (verit, best))
qed

section \<open>Servers with one challenge store\<close>

text \<open>\<open>doomed\<close> has the keys that a reaper has found due and not yet deleted.\<close>

record 's dns_fleet =
  challenges :: 's
  local_records :: "nat \<Rightarrow> txt_records"
  doomed :: "string list"

datatype dns_event =
    SetTxt nat string string int
  | RemoveTxt nat string string
  | ReapRead int string
  | ReapDelete string

text \<open>
  What one server does, at a moment; a failed call of the store is logged by its caller. The reads and the deletions of
  \<open>reapExpired\<close>, which compares with the time at which it started, are events of their own.
\<close>

fun dns_step ::
    "(string \<Rightarrow> string) \<Rightarrow> 's s3_client \<Rightarrow> S3Config \<Rightarrow> dns_event \<Rightarrow> 's dns_fleet \<Rightarrow> 's dns_fleet" where
  "dns_step hash client config (SetTxt i fqdn v now) f =
     (case setTxtRecord (Some (S3ChallengeStore hash client config CHALLENGE_TTL_MS now)) fqdn v
          (local_records f i) (challenges f) of
        (_, records, s) \<Rightarrow> f\<lparr>challenges := s, local_records := (local_records f)(i := records)\<rparr>)"
| "dns_step hash client config (RemoveTxt i fqdn v) f =
     (case removeTxtRecord (Some (S3ChallengeStore hash client config CHALLENGE_TTL_MS 0)) fqdn v
          (local_records f i) (challenges f) of
        (_, records, s) \<Rightarrow> f\<lparr>challenges := s, local_records := (local_records f)(i := records)\<rparr>)"
| "dns_step hash client config (ReapRead started k) f =
     (case readRecord client config (challenges f) k of
        Inr record \<Rightarrow> if reap_due started record then f\<lparr>doomed := k # doomed f\<rparr> else f
      | Inl e \<Rightarrow> f)"
| "dns_step hash client config (ReapDelete k) f =
     (if k \<in> set (doomed f)
      then f\<lparr>challenges := snd (s3_delete client (challenges f) (config_bucket config) k), doomed := remove1 k (doomed f)\<rparr>
      else f)"

text \<open>
  An event leaves a challenge pending from \<open>start\<close> to \<open>stop\<close> alone when it happens in that time, and
  neither removes the object of the challenge nor overwrites it with another value.
\<close>

fun leaves_pending :: "(string \<Rightarrow> string) \<Rightarrow> S3Config \<Rightarrow> string \<Rightarrow> string \<Rightarrow> int \<Rightarrow> int \<Rightarrow> dns_event \<Rightarrow> bool" where
  "leaves_pending hash config fqdn v start stop (SetTxt i f w now) \<longleftrightarrow>
     start \<le> now \<and> (challengeKey hash config (to_lower f) w = challengeKey hash config (to_lower fqdn) v \<longrightarrow> w = v)"
| "leaves_pending hash config fqdn v start stop (RemoveTxt i f w) \<longleftrightarrow>
     challengeKey hash config (to_lower f) w \<noteq> challengeKey hash config (to_lower fqdn) v"
| "leaves_pending hash config fqdn v start stop (ReapRead started k) \<longleftrightarrow> started < stop"
| "leaves_pending hash config fqdn v start stop (ReapDelete k) \<longleftrightarrow> True"

definition pending :: "(string \<Rightarrow> string option) \<Rightarrow> string \<Rightarrow> string \<Rightarrow> int \<Rightarrow> bool" where
  "pending objs k v stop \<longleftrightarrow>
     (\<exists>r e. parse_challenge (objs k) = Some r \<and> sc_value r = v \<and> sc_expiry r = Some e \<and> of_int stop \<le> e)"

lemma challenge_json_back:
  "parse_challenge (Some (stringify (challenge_json fqdn v e))) = Some \<lparr>sc_value = v, sc_expiry = Some (of_int e)\<rparr>"
proof -
  obtain fs where obj: "of_json (challenge_json fqdn v e) = PObj fs" by (simp add: challenge_json_def)
  have "parsed_field (PObj fs) ''value'' = Some (PStr v)" "parsed_field (PObj fs) ''expiry'' = Some (PNum (of_int e))"
    unfolding obj [symmetric] by (simp_all add: challenge_json_def parsed_field_def)
  then show ?thesis by (simp add: parse_challenge_def json_roundtrip obj challenge_record_def)
qed

lemma pending_set:
  "of_int stop \<le> (of_int e :: rat) \<Longrightarrow> pending (objs(k \<mapsto> stringify (challenge_json fqdn v e))) k v stop"
  by (simp add: pending_def challenge_json_back)

lemma set_pending:
  assumes "s3_laws client (config_bucket config) objects"
    and "challenge_set hash client config ttl now f w s = (r, s')"
    and "pending (objects s) k v stop" and "stop \<le> now + ttl"
    and "challengeKey hash config f w = k \<Longrightarrow> w = v"
  shows "pending (objects s') k v stop"
proof -
  obtain q where q: "s3_put client s (config_bucket config) (challengeKey hash config f w)
      (stringify (challenge_json f w (now + ttl))) False = (q, s')"
    using assms(2) by (auto simp: challenge_set_def map_prod_def split: prod.splits)
  show ?thesis
    using s3_put_law(1) [OF assms(1) q] assms(3,5) pending_set [of stop "now + ttl" "objects s" k f v] assms(4)
    by (cases "challengeKey hash config f w = k") (auto simp: pending_def)
qed

lemma delete_pending:
  assumes "s3_laws client bucket objects" and "s3_delete client s bucket j = (q, s')"
    and "pending (objects s) k v stop" and "j \<noteq> k"
  shows "pending (objects s') k v stop"
  using s3_delete_law [OF assms(1,2)] assms(3,4) by (auto simp: pending_def)

lemma remove_pending:
  assumes "s3_laws client (config_bucket config) objects"
    and "challenge_remove hash client config f w s = (r, s')"
    and "pending (objects s) k v stop" and "challengeKey hash config f w \<noteq> k"
  shows "pending (objects s') k v stop"
proof -
  obtain q where "s3_delete client s (config_bucket config) (challengeKey hash config f w) = (q, s')"
    using assms(2) by (auto simp: challenge_remove_def map_prod_def split: prod.splits)
  then show ?thesis by (rule delete_pending [OF assms(1) _ assms(3,4)])
qed

text \<open>What holds from the moment a server \<open>i\<close> has published a challenge: no reaper is after it, and \<open>i\<close> has it itself.\<close>

definition published ::
    "(string \<Rightarrow> string) \<Rightarrow> S3Config \<Rightarrow> ('s \<Rightarrow> string \<Rightarrow> string option) \<Rightarrow> nat \<Rightarrow> string \<Rightarrow> string \<Rightarrow> int \<Rightarrow> 's dns_fleet \<Rightarrow> bool" where
  "published hash config objects i fqdn v stop f \<longleftrightarrow>
     pending (objects (challenges f)) (challengeKey hash config (to_lower fqdn) v) v stop \<and>
     challengeKey hash config (to_lower fqdn) v \<notin> set (doomed f) \<and>
     v \<in> set (txt_values (local_records f i) (to_lower fqdn))"

lemma set_local_keeps: "v \<in> set (txt_values records name) \<Longrightarrow> v \<in> set (txt_values (set_local name' w records) name)"
  by (auto simp: set_local_def txt_values_def Let_def)

lemma set_local_adds: "v \<in> set (txt_values (set_local name v records) name)"
  by (simp add: set_local_def txt_values_def Let_def)

lemma remove_local_keeps:
  "v \<in> set (txt_values records name) \<Longrightarrow> name' \<noteq> name \<or> w \<noteq> v \<Longrightarrow> v \<in> set (txt_values (remove_local name' w records) name)"
  by (auto simp: remove_local_def txt_values_def Let_def filter_empty_conv split: option.splits)

lemma due_not_pending:
  assumes "pending objs k v stop" and "started < stop"
  shows "\<not> reap_due started (parse_challenge (objs k))"
proof -
  have "(of_int started :: rat) < of_int stop" using assms(2) by simp
  then show ?thesis using assms(1) by (auto simp: pending_def reap_due_def challenge_expired_def)
qed

lemma dns_step_published:
  assumes laws: "s3_laws client (config_bucket config) objects"
    and ok: "published hash config objects i fqdn v stop f"
    and "leaves_pending hash config fqdn v start stop ev" and "stop \<le> start + CHALLENGE_TTL_MS"
  shows "published hash config objects i fqdn v stop (dns_step hash client config ev f)"
proof (cases ev)
  case (SetTxt n f' w now)
  obtain q s' where q: "challenge_set hash client config CHALLENGE_TTL_MS now (to_lower f') w (challenges f) = (q, s')" by force
  have "pending (objects s') (challengeKey hash config (to_lower fqdn) v) v stop"
    by (rule set_pending [OF laws q]) (use ok assms(3,4) SetTxt in \<open>auto simp: published_def\<close>)
  then show ?thesis
    using ok SetTxt q by (auto simp: published_def setTxtRecord_def S3ChallengeStore_def Let_def set_local_keeps)
next
  case (RemoveTxt n f' w)
  obtain q s' where q: "challenge_remove hash client config (to_lower f') w (challenges f) = (q, s')" by force
  have "pending (objects s') (challengeKey hash config (to_lower fqdn) v) v stop"
    by (rule remove_pending [OF laws q]) (use ok assms(3) RemoveTxt in \<open>auto simp: published_def\<close>)
  moreover have "to_lower f' \<noteq> to_lower fqdn \<or> w \<noteq> v" using assms(3) RemoveTxt by auto
  ultimately show ?thesis
    using ok RemoveTxt q by (auto simp: published_def removeTxtRecord_def S3ChallengeStore_def Let_def remove_local_keeps)
next
  case (ReapRead started k)
  show ?thesis
  proof (cases "readRecord client config (challenges f) k")
    case (Inr x)
    then have "x = parse_challenge (objects (challenges f) k)" using readRecord_Inr [OF laws] by blast
    then have "k = challengeKey hash config (to_lower fqdn) v \<Longrightarrow> \<not> reap_due started x"
      using due_not_pending [of "objects (challenges f)" k v stop started] ok assms(3) ReapRead by (simp add: published_def)
    then show ?thesis using ok ReapRead Inr by (auto simp: published_def)
  qed (use ok ReapRead in simp)
next
  case (ReapDelete k)
  obtain q s' where q: "s3_delete client (challenges f) (config_bucket config) k = (q, s')" by force
  have "k \<in> set (doomed f) \<Longrightarrow> pending (objects s') (challengeKey hash config (to_lower fqdn) v) v stop"
    by (rule delete_pending [OF laws q]) (use ok in \<open>auto simp: published_def\<close>)
  then show ?thesis using ok ReapDelete q notin_set_remove1 by (auto simp: published_def)
qed

lemma dns_run_published:
  assumes "s3_laws client (config_bucket config) objects"
    and "published hash config objects i fqdn v stop f"
    and "list_all (leaves_pending hash config fqdn v start stop) evs" and "stop \<le> start + CHALLENGE_TTL_MS"
  shows "published hash config objects i fqdn v stop (fold (dns_step hash client config) evs f)"
  using assms(2,3)
proof (induction evs arbitrary: f)
  case (Cons ev evs)
  then show ?case using dns_step_published [OF assms(1) _ _ assms(4)] by simp
qed simp

text \<open>The two event kinds together are what \<open>reapExpired\<close> does with nothing in between.\<close>

lemma reap_one:
  assumes "readRecord client config (challenges f) k = Inr record" and "k \<notin> set (doomed f)"
  shows "fold (dns_step hash client config) [ReapRead started k, ReapDelete k] f =
    (if reap_due started record
     then f\<lparr>challenges := snd (s3_delete client (challenges f) (config_bucket config) k)\<rparr> else f)"
  using assms by simp

lemma fqdnPrefix_lower [simp]: "fqdnPrefix hash config (to_lower fqdn) = fqdnPrefix hash config fqdn"
  by (simp add: fqdnPrefix_def)

lemma pending_found:
  assumes "s3_laws client (config_bucket config) objects" "s3_listing client (config_bucket config) objects"
    and "pending (objects s) k v stop" and "pending (objects (reads k)) k v stop"
    and "k = challengeKey hash config (to_lower fqdn) v" and "now < stop"
    and "challenge_get hash client config now (to_lower fqdn) s reads = Inr vs"
  shows "v \<in> set vs"
proof -
  obtain r e where r: "parse_challenge (objects (reads k) k) = Some r" "sc_value r = v" "sc_expiry r = Some e" "of_int stop \<le> e"
    using assms(4) by (auto simp: pending_def)
  have "(of_int now :: rat) < of_int stop" using assms(6) by simp
  then have "challenge_live now r" using r by (simp add: challenge_live_def)
  moreover have "objects s k \<noteq> None" using assms(3) by (auto simp: pending_def parse_challenge_def split: option.splits)
  moreover have "k \<noteq> []" and "starts_with k (fqdnPrefix hash config (to_lower fqdn))"
    by (simp_all add: assms(5) challengeKey_def)
  ultimately show ?thesis unfolding challenge_get_iff [OF assms(1,2,7)] using r by blast
qed

definition answered :: "dns_response option \<Rightarrow> string set" where
  "answered response = (case response of None \<Rightarrow> {} | Some r \<Rightarrow> ta_data ` set (dr_answers r))"

lemma set_pending_after:
  assumes "s3_laws client (config_bucket config) objects"
    and "setTxtRecord (Some (S3ChallengeStore hash client config CHALLENGE_TTL_MS start)) fqdn v records s = (Inr (), records', s')"
    and "stop \<le> start + CHALLENGE_TTL_MS"
  shows "pending (objects s') (challengeKey hash config (to_lower fqdn) v) v stop"
proof -
  obtain q where q: "s3_put client s (config_bucket config) (challengeKey hash config (to_lower fqdn) v)
      (stringify (challenge_json (to_lower fqdn) v (start + CHALLENGE_TTL_MS))) False = (q, s')" "map_sum (\<lambda>_. s3_error) id q = Inr ()"
    using assms(2) by (auto simp: setTxtRecord_def S3ChallengeStore_def challenge_set_def map_prod_def Let_def split: prod.splits)
  then have "q = Inr ()" by (cases q) auto
  then show ?thesis
    using s3_put_law(1) [OF assms(1) q(1)] pending_set [of stop "start + CHALLENGE_TTL_MS"] assms(3) by auto
qed

text \<open>A query of a server for the values of a name.\<close>

lemma query_answers:
  assumes "to_lower (dq_name question) = name" and "dq_type question = ''TXT''" and "starts_with name ACME_CHALLENGE_PREFIX"
  shows "answered (handleQuery (Some cs) records s reads (Some \<lparr>dns_id = n, questions = Some (question # rest)\<rparr>)) =
    (if txt_values records name \<noteq> [] then set (txt_values records name)
     else case cs_get cs name s reads of Inl e \<Rightarrow> {} | Inr vs \<Rightarrow> set vs)"
  using assms by (auto simp: handleQuery_def answered_def query_values_def Let_def image_image split: sum.split)

text \<open>
  C14: While a challenge is pending (for ten minutes after a server \<open>i\<close> published it, unless it is
  removed, and unless a reaper was already about to delete an expired earlier publication of it; whatever else the
  servers publish, remove and reap meanwhile, between the requests of the query too),
  \<open>i\<close> answers it; a server with records of its own for the name answers exactly those; a server without
  answers what it reads in the store, which has the challenge, and nothing when reading fails.
\<close>

theorem pending_challenge_answers:
  assumes "s3_laws client (config_bucket config) objects" and "s3_listing client (config_bucket config) objects"
    and "setTxtRecord (Some (S3ChallengeStore hash client config CHALLENGE_TTL_MS start)) fqdn v
      (local_records f i) (challenges f) = (Inr (), records, s)"
    and "challengeKey hash config (to_lower fqdn) v \<notin> set (doomed f)"
    and "list_all (leaves_pending hash config fqdn v start stop) evs"
    and "stop \<le> start + CHALLENGE_TTL_MS" and "now < stop"
    and "\<And>m. g m = fold (dns_step hash client config) (take m evs)
      (f\<lparr>challenges := s, local_records := (local_records f)(i := records)\<rparr>)"
    and "\<And>k. reads k = challenges (g (moment k))"
    and "to_lower (dq_name question) = to_lower fqdn" and "dq_type question = ''TXT''"
    and "starts_with (to_lower fqdn) ACME_CHALLENGE_PREFIX"
    and "own = txt_values (local_records (g m) j) (to_lower fqdn)"
    and "A = answered (handleQuery (Some (S3ChallengeStore hash client config CHALLENGE_TTL_MS now))
      (local_records (g m) j) (challenges (g m)) reads (Some \<lparr>dns_id = n, questions = Some (question # rest)\<rparr>))"
  shows "(j = i \<longrightarrow> v \<in> A) \<and> (own \<noteq> [] \<longrightarrow> A = set own) \<and>
    (own = [] \<longrightarrow>
      (case challenge_get hash client config now (to_lower fqdn) (challenges (g m)) reads of
         Inl e \<Rightarrow> A = {} | Inr vs \<Rightarrow> A = set vs \<and> v \<in> A))"
proof -
  let ?K = "challengeKey hash config (to_lower fqdn) v"
  have records: "records = set_local (to_lower fqdn) v (local_records f i)"
    using assms(3) by (auto simp: setTxtRecord_def Let_def split: prod.splits)
  have pub: "published hash config objects i fqdn v stop (g m)" for m
    unfolding assms(8)
    by (rule dns_run_published [OF assms(1) _ _ assms(6)])
      (use set_pending_after [OF assms(1,3,6)] assms(4,5) set_local_adds in
        \<open>auto simp: published_def records list_all_iff dest: in_set_takeD\<close>)
  have A: "A = (if own \<noteq> [] then set own
      else case challenge_get hash client config now (to_lower fqdn) (challenges (g m)) reads of Inl e \<Rightarrow> {} | Inr vs \<Rightarrow> set vs)"
    unfolding assms(13,14) query_answers [OF assms(10-12)] by (simp add: S3ChallengeStore_def)
  have "v \<in> set own" if "j = i" using pub [of m] that by (simp add: published_def assms(13))
  moreover have "v \<in> set vs" if "challenge_get hash client config now (to_lower fqdn) (challenges (g m)) reads = Inr vs" for vs
    by (rule pending_found [OF assms(1,2) _ _ refl assms(7) that])
      (use pub [of m] pub [of "moment ?K"] in \<open>simp_all add: published_def assms(9)\<close>)
  ultimately show ?thesis by (auto simp: A split: sum.split)
qed

lemma map_client_listing: "s3_listing map_client bucket map_of"
proof -
  have keys: "listed_keys [Some (map Some ks)] = filter (\<lambda>k. k \<noteq> []) ks" for ks
    by (induction ks) (auto simp: listed_keys_def List.map_filter_simps)
  show ?thesis by (auto simp: s3_listing_def map_client_def keys map_of_eq_None_iff simp del: set_map) (force+)?
qed

theorem pending_challenge_answers_witness:
  "''tok'' \<in> answered (handleQuery
    (Some (S3ChallengeStore id map_client sample_config CHALLENGE_TTL_MS 7)) (\<lambda>_. None)
    [(challengeKey id sample_config ''_acme-challenge.a.io'' ''tok'',
      stringify (challenge_json ''_acme-challenge.a.io'' ''tok'' CHALLENGE_TTL_MS))]
    (\<lambda>_. [(challengeKey id sample_config ''_acme-challenge.a.io'' ''tok'',
      stringify (challenge_json ''_acme-challenge.a.io'' ''tok'' CHALLENGE_TTL_MS))])
    (Some \<lparr>dns_id = 1, questions = Some [\<lparr>dq_type = ''TXT'', dq_name = ''_ACME-challenge.a.IO''\<rparr>]\<rparr>))"
proof -
  let ?name = "''_acme-challenge.a.io''"
  let ?key = "challengeKey id sample_config ?name ''tok''"
  let ?s = "[(?key, stringify (challenge_json ?name ''tok'' CHALLENGE_TTL_MS))]"
  let ?q = "\<lparr>dq_type = ''TXT'', dq_name = ''_ACME-challenge.a.IO''\<rparr>"
  let ?f = "\<lparr>challenges = [], local_records = \<lambda>_ _. None, doomed = []\<rparr>"
  let ?g = "\<lparr>challenges = ?s, local_records = (\<lambda>_ _. None)(0 := set_local ?name ''tok'' (\<lambda>_. None)), doomed = []\<rparr>"
  have lower: "to_lower ?name = ?name" "to_lower (dq_name ?q) = ?name"
    by code_simp+
  have set: "setTxtRecord (Some (S3ChallengeStore id map_client sample_config CHALLENGE_TTL_MS 0)) ?name ''tok'' (\<lambda>_. None) [] =
      (Inr (), set_local ?name ''tok'' (\<lambda>_. None), ?s)"
    by (simp add: setTxtRecord_def S3ChallengeStore_def challenge_set_def map_client_def lower map_prod_def Let_def)
  have key: "?key \<noteq> []" "starts_with ?key (fqdnPrefix id sample_config ?name)"
    by (simp_all add: challengeKey_def)
  have read: "readRecord map_client sample_config ?s ?key = Inr (Some \<lparr>sc_value = ''tok'', sc_expiry = Some (of_int CHALLENGE_TTL_MS)\<rparr>)"
    using challenge_json_back by (simp add: readRecord_def map_client_def)
  have live: "\<not> challenge_expired 5 \<lparr>sc_value = t, sc_expiry = Some (of_int CHALLENGE_TTL_MS)\<rparr>"
      "challenge_live 7 \<lparr>sc_value = t, sc_expiry = Some (of_int CHALLENGE_TTL_MS)\<rparr>" for t
    by (simp_all add: challenge_expired_def challenge_live_def CHALLENGE_TTL_MS_def)
  have run: "fold (dns_step id map_client sample_config) (take m [ReapRead 5 ?key]) ?g = ?g" for m
    using live read by (cases m) (simp_all add: reap_due_def)
  have get: "challenge_get id map_client sample_config 7 ?name ?s (\<lambda>_. ?s) = Inr [''tok'']"
    using live key read by (simp add: challenge_get_def listRecords_def listed_keys_def map_client_def map_filter_def)
  have ttl: "5 < CHALLENGE_TTL_MS" "7 < CHALLENGE_TTL_MS" by (simp_all add: CHALLENGE_TTL_MS_def)
  show ?thesis
    using pending_challenge_answers [of map_client sample_config map_of id 0 ?name "''tok''" ?f 0 _ ?s CHALLENGE_TTL_MS
        "[ReapRead 5 ?key]" 7 "\<lambda>_. ?g" "\<lambda>_. ?s" "\<lambda>_. 0" ?q "[]" 0 1]
      map_client_laws map_client_listing set run get lower
    by (simp add: ttl ACME_CHALLENGE_PREFIX_def txt_values_def)
qed

text \<open>A server with records of its own for a name answers with those alone, whatever the store holds.\<close>

lemma own_records_hide_shared:
  assumes "dq_type question = ''TXT''" and "txt_values records (to_lower (dq_name question)) \<noteq> []"
  shows "answered (handleQuery store records s reads (Some \<lparr>dns_id = n, questions = Some (question # rest)\<rparr>)) =
    set (txt_values records (to_lower (dq_name question)))"
  using assms by (auto simp: handleQuery_def answered_def query_values_def Let_def image_image split: option.splits)

text \<open>Removing a record that was not there before it was set restores the records of a server.\<close>

lemma remove_undoes_set:
  assumes "v \<notin> set (txt_values records name)" and "records name \<noteq> Some []"
  shows "remove_local name v (set_local name v records) = records"
proof -
  have "filter (\<lambda>w. w \<noteq> v) vs = vs" if "v \<notin> set vs" for vs using that by (auto intro: filter_True)
  then show ?thesis
    using assms by (cases "records name") (auto simp: remove_local_def set_local_def txt_values_def Let_def fun_upd_idem)
qed

end
