(* ===== verification/Acme_Request.thy ===== *)
theory Acme_Request
  imports Dns_Server
begin

text \<open>
  \<open>requestCertificate\<close> of \<^verbatim>\<open>src/tls-certificates/acme.ts\<close>: how a certificate is ordered from an
  ACME provider. The package \<^verbatim>\<open>acme-client\<close> is a parameter: a record of operations on a state of
  its own (\<open>'c\<close>), of which \<open>auto\<close> calls back into the DNS server. The DNS records of the server
  and its challenge store (\<open>'s\<close>) are the rest of the state. An asynchronous call that is awaited
  at once is a function from the state to its result, an exception or a value, and the new state.
\<close>

section \<open>The client\<close>

record challenge =
  ch_type :: string
  ch_url :: string
  ch_token :: string

record authorization =
  authz_status :: string
  authz_value :: string
  authz_challenges :: "challenge list"

record ('c, 's) issuing =
  client_state :: 'c
  own_records :: txt_records
  store_state :: 's

type_synonym ('c, 's, 'a) act = "('c, 's) issuing \<Rightarrow> 'a fallible \<times> ('c, 's) issuing"

text \<open>An order is known by its URL; a CSR names a common name and, if given, alternative names.\<close>

record ('c, 's) acme_client =
  createCsr :: "string \<Rightarrow> string list option \<Rightarrow> 'c \<Rightarrow> (string \<times> string) fallible \<times> 'c"
  createAccount :: "string \<Rightarrow> 'c \<Rightarrow> unit fallible \<times> 'c"
  createOrder :: "string list \<Rightarrow> int \<Rightarrow> int \<Rightarrow> 'c \<Rightarrow> string fallible \<times> 'c"
  getAuthorizations :: "string \<Rightarrow> 'c \<Rightarrow> authorization list fallible \<times> 'c"
  getChallengeKeyAuthorization :: "challenge \<Rightarrow> 'c \<Rightarrow> string fallible \<times> 'c"
  completeChallenge :: "challenge \<Rightarrow> 'c \<Rightarrow> unit fallible \<times> 'c"
  waitForValidStatus :: "challenge \<Rightarrow> 'c \<Rightarrow> unit fallible \<times> 'c"
  finalizeOrder :: "string \<Rightarrow> string \<Rightarrow> 'c \<Rightarrow> string fallible \<times> 'c"
  downloadCertificate :: "string \<Rightarrow> 'c \<Rightarrow> string fallible \<times> 'c"
  revokeCertificate :: "string \<Rightarrow> 'c \<Rightarrow> unit fallible \<times> 'c"
  auto_issue :: "string \<Rightarrow> string list \<Rightarrow> string \<Rightarrow> (string \<Rightarrow> ('c, 's, unit) act) \<Rightarrow> (string \<Rightarrow> ('c, 's, unit) act) \<Rightarrow> ('c, 's, string) act"
  readNotAfter :: "string \<Rightarrow> int fallible"

definition on_client :: "('c \<Rightarrow> 'a fallible \<times> 'c) \<Rightarrow> ('c, 's, 'a) act" where
  "on_client f w = (case f (client_state w) of (r, c) \<Rightarrow> (r, w\<lparr>client_state := c\<rparr>))"

definition return :: "'a \<Rightarrow> ('c, 's, 'a) act" where
  "return x w = (Inr x, w)"

definition throw :: "js_exn \<Rightarrow> ('c, 's, 'a) act" where
  "throw e w = (Inl e, w)"

definition await :: "('c, 's, 'a) act \<Rightarrow> ('a \<Rightarrow> ('c, 's, 'b) act) \<Rightarrow> ('c, 's, 'b) act" where
  "await m f w = (case m w of (Inl e, w') \<Rightarrow> (Inl e, w') | (Inr x, w') \<Rightarrow> f x w')"

fun await_each :: "('a \<Rightarrow> ('c, 's, unit) act) \<Rightarrow> 'a list \<Rightarrow> ('c, 's, unit) act" where
  "await_each f [] = return ()"
| "await_each f (x # xs) = await (f x) (\<lambda>_. await_each f xs)"

text \<open>The server's own DNS server, with the challenge store it was given.\<close>

definition publish :: "'s challenge_store option \<Rightarrow> string \<Rightarrow> string \<Rightarrow> ('c, 's, unit) act" where
  "publish store fqdn v w =
     (case setTxtRecord store fqdn v (own_records w) (store_state w) of
        (r, records, s) \<Rightarrow> (r, w\<lparr>own_records := records, store_state := s\<rparr>))"

definition unpublish :: "'s challenge_store option \<Rightarrow> string \<Rightarrow> string \<Rightarrow> ('c, 's, unit) act" where
  "unpublish store fqdn v w =
     (case removeTxtRecord store fqdn v (own_records w) (store_state w) of
        (r, records, s) \<Rightarrow> (r, w\<lparr>own_records := records, store_state := s\<rparr>))"

section \<open>A request\<close>

definition ONE_DAY_MS :: int where
  "ONE_DAY_MS = 1000 * 60 * 60 * 24"

record acme_certificate =
  acme_key :: string
  acme_cert :: string
  acme_expiry :: int

text \<open>\<open>dns\<close> is the DNS server, if there is one: its challenge store, if that exists.\<close>

definition is_wildcard :: "'s challenge_store option option \<Rightarrow> string \<Rightarrow> bool" where
  "is_wildcard dns domain \<longleftrightarrow> starts_with domain ''*.'' \<and> dns \<noteq> None"

definition root_domain :: "'s challenge_store option option \<Rightarrow> string \<Rightarrow> string" where
  "root_domain dns domain = (if is_wildcard dns domain then drop 2 domain else domain)"

definition dns_publish :: "'s challenge_store option option \<Rightarrow> string \<Rightarrow> string \<Rightarrow> ('c, 's, unit) act" where
  "dns_publish dns fqdn v = (case dns of None \<Rightarrow> throw (JsError ''TypeError'') | Some store \<Rightarrow> publish store fqdn v)"

definition dns_unpublish :: "'s challenge_store option option \<Rightarrow> string \<Rightarrow> string \<Rightarrow> ('c, 's, unit) act" where
  "dns_unpublish dns fqdn v = (case dns of None \<Rightarrow> throw (JsError ''TypeError'') | Some store \<Rightarrow> unpublish store fqdn v)"

definition challenge_of_type :: "string \<Rightarrow> authorization \<Rightarrow> challenge option" where
  "challenge_of_type t authz = find (\<lambda>c. ch_type c = t) (authz_challenges authz)"

text \<open>One round of the loop over the authorizations of an order.\<close>

definition authorize ::
    "('c, 's) acme_client \<Rightarrow> 's challenge_store option option \<Rightarrow> bool \<Rightarrow> authorization \<Rightarrow> ('c, 's, unit) act" where
  "authorize client dns isWildcard authz =
     (if authz_status authz = ''valid'' then return ()
      else if isWildcard then
        (case challenge_of_type ''dns-01'' authz of
           None \<Rightarrow> throw (JsError (''No dns-01 challenge found for '' @ authz_value authz))
         | Some challenge \<Rightarrow>
             (let fqdn = ''_acme-challenge.'' @ authz_value authz in
              await (on_client (getChallengeKeyAuthorization client challenge)) (\<lambda>keyAuthorization.
              await (dns_publish dns fqdn keyAuthorization) (\<lambda>_.
              await (on_client (completeChallenge client challenge)) (\<lambda>_.
              await (on_client (waitForValidStatus client challenge)) (\<lambda>_.
              dns_unpublish dns fqdn keyAuthorization))))))
      else
        (case challenge_of_type ''http-01'' authz of
           None \<Rightarrow> throw (JsError (''No http-01 challenge found for '' @ authz_value authz))
         | Some challenge \<Rightarrow>
             await (on_client (completeChallenge client challenge)) (\<lambda>_.
             on_client (waitForValidStatus client challenge))))"

text \<open>The two ways to a certificate: an order of one day's validity step by step, or \<open>auto\<close>.\<close>

definition short_lived_order ::
    "('c, 's) acme_client \<Rightarrow> 's challenge_store option option \<Rightarrow> int \<Rightarrow> string \<Rightarrow> string \<Rightarrow> ('c, 's, string) act" where
  "short_lived_order client dns now domain csr =
     (let isWildcard = is_wildcard dns domain;
          rootDomain = root_domain dns domain;
          identifiers = (if isWildcard then [domain, rootDomain] else [domain])
      in await (on_client (createAccount client (''mailto:contact@'' @ rootDomain))) (\<lambda>_.
         await (on_client (createOrder client identifiers now (now + ONE_DAY_MS))) (\<lambda>order.
         await (on_client (getAuthorizations client order)) (\<lambda>authorizations.
         await (await_each (authorize client dns isWildcard) authorizations) (\<lambda>_.
         await (on_client (finalizeOrder client order csr)) (\<lambda>finalized.
         on_client (downloadCertificate client finalized)))))))"

definition auto_order ::
    "('c, 's) acme_client \<Rightarrow> 's challenge_store option option \<Rightarrow> string \<Rightarrow> string \<Rightarrow> ('c, 's, string) act" where
  "auto_order client dns domain csr =
     (let isWildcard = is_wildcard dns domain;
          rootDomain = root_domain dns domain
      in auto_issue client csr [if isWildcard then ''dns-01'' else ''http-01''] (''contact@'' @ rootDomain)
           (\<lambda>keyAuthorization. if isWildcard then dns_publish dns (''_acme-challenge.'' @ rootDomain) keyAuthorization else return ())
           (\<lambda>keyAuthorization. if isWildcard then dns_unpublish dns (''_acme-challenge.'' @ rootDomain) keyAuthorization else return ()))"

definition requestCertificate ::
    "('c, 's) acme_client \<Rightarrow> 's challenge_store option option \<Rightarrow> int \<Rightarrow> string \<Rightarrow> bool \<Rightarrow> ('c, 's, acme_certificate) act" where
  "requestCertificate client dns now domain shortLived =
     (let rootDomain = root_domain dns domain in
      await (on_client (if is_wildcard dns domain
               then createCsr client rootDomain (Some [domain, rootDomain])
               else createCsr client domain None)) (\<lambda>(key, csr).
      await (if shortLived then short_lived_order client dns now domain csr else auto_order client dns domain csr) (\<lambda>cert.
      \<lambda>w. (map_sum id (\<lambda>expiry. \<lparr>acme_key = key, acme_cert = cert, acme_expiry = expiry\<rparr>) (readNotAfter client cert), w))))"

text \<open>What the server answers to an HTTP-01 challenge, from the token alone.\<close>

definition getChallengeResponse :: "('c, 's) acme_client \<Rightarrow> string \<Rightarrow> ('c, 's, string) act" where
  "getChallengeResponse client token =
     on_client (getChallengeKeyAuthorization client \<lparr>ch_type = ''http-01'', ch_url = [], ch_token = token\<rparr>)"

section \<open>What a request leaves in the DNS server\<close>

text \<open>A server never keeps an empty set of records.\<close>

definition tidy :: "txt_records \<Rightarrow> bool" where
  "tidy records \<longleftrightarrow> (\<forall>name. records name \<noteq> Some [])"

text \<open>An action that leaves the records as they are, unless it fails, and then at most one more.\<close>

definition clean :: "txt_records \<Rightarrow> ('c, 's, 'a) act \<Rightarrow> bool" where
  "clean records m \<longleftrightarrow>
     (\<forall>w r w'. own_records w = records \<longrightarrow> m w = (r, w') \<longrightarrow>
        own_records w' = records \<or> (\<exists>e name v. r = Inl e \<and> own_records w' = set_local name v records))"

lemma clean_client [simp, intro]: "clean records (on_client f)"
  by (auto simp: clean_def on_client_def split: prod.splits)

lemma clean_return [simp, intro]: "clean records (return x)"
  by (simp add: clean_def return_def)

lemma clean_throw [simp, intro]: "clean records (throw e)"
  by (simp add: clean_def throw_def)

lemma clean_await [intro]: "clean records m \<Longrightarrow> (\<And>x. clean records (f x)) \<Longrightarrow> clean records (await m f)"
  unfolding clean_def await_def by (fastforce split: prod.splits sum.splits)

lemma clean_each [intro]: "(\<And>x. clean records (f x)) \<Longrightarrow> clean records (await_each f xs)"
  by (induction xs) auto

text \<open>A published record is withdrawn by the end of its round.\<close>

lemma clean_round:
  assumes "v \<notin> set (txt_values records (to_lower fqdn))" and "tidy records"
    and "\<And>w. own_records (snd (m w)) = own_records w"
  shows "clean records (await (dns_publish dns fqdn v) (\<lambda>_. await m (\<lambda>_. dns_unpublish dns fqdn v)))"
proof (cases dns)
  case None
  then show ?thesis by (auto simp: clean_def await_def dns_publish_def throw_def)
next
  case (Some store)
  have undone: "remove_local (to_lower fqdn) v (set_local (to_lower fqdn) v records) = records"
    using assms(1,2) by (intro remove_undoes_set) (auto simp: tidy_def)
  show ?thesis
    unfolding clean_def
  proof (intro allI impI)
    fix w r w'
    assume w: "own_records w = records"
      and run: "await (dns_publish dns fqdn v) (\<lambda>_. await m (\<lambda>_. dns_unpublish dns fqdn v)) w = (r, w')"
    obtain r1 w1 where p: "publish store fqdn v w = (r1, w1)" by force
    have w1: "own_records w1 = set_local (to_lower fqdn) v records"
      using p w by (auto simp: publish_def setTxtRecord_def Let_def split: option.splits prod.splits)
    obtain r2 w2 where m: "m w1 = (r2, w2)" by force
    have w2: "own_records w2 = set_local (to_lower fqdn) v records" using assms(3) [of w1] m w1 by simp
    obtain r3 w3 where u: "unpublish store fqdn v w2 = (r3, w3)" by force
    have w3: "own_records w3 = records"
      using u w2 undone by (auto simp: unpublish_def removeTxtRecord_def Let_def split: option.splits prod.splits)
    show "own_records w' = records \<or> (\<exists>e name v. r = Inl e \<and> own_records w' = set_local name v records)"
      using run Some p m u w1 w2 w3
      by (auto simp: await_def dns_publish_def dns_unpublish_def split: sum.splits)
  qed
qed

lemma await_assoc: "await (await m f) g = await m (\<lambda>x. await (f x) g)"
  by (rule ext) (simp add: await_def split: prod.split sum.split)

lemma own_records_client: "own_records (snd (on_client f w)) = own_records w"
  by (simp add: on_client_def split: prod.split)

lemma own_records_await:
  "(\<And>w. own_records (snd (m w)) = own_records w) \<Longrightarrow> (\<And>x w. own_records (snd (f x w)) = own_records w) \<Longrightarrow>
    own_records (snd (await m f w)) = own_records w"
  by (simp add: await_def split: prod.split sum.split) (metis snd_conv)

definition new_tokens :: "('c, 's) acme_client \<Rightarrow> txt_records \<Rightarrow> bool" where
  "new_tokens client records \<longleftrightarrow>
     (\<forall>challenge c v name. fst (getChallengeKeyAuthorization client challenge c) = Inr v \<longrightarrow> v \<notin> set (txt_values records name))"

lemma clean_token:
  assumes "\<And>v. v \<notin> set (txt_values records name) \<Longrightarrow> clean records (f v)" and "new_tokens client records"
  shows "clean records (await (on_client (getChallengeKeyAuthorization client challenge)) f)"
  unfolding clean_def
proof (intro allI impI)
  fix w r w'
  assume w: "own_records w = records"
    and run: "await (on_client (getChallengeKeyAuthorization client challenge)) f w = (r, w')"
  obtain q c where q: "getChallengeKeyAuthorization client challenge (client_state w) = (q, c)" by force
  show "own_records w' = records \<or> (\<exists>e name v. r = Inl e \<and> own_records w' = set_local name v records)"
  proof (cases q)
    case (Inl e)
    then show ?thesis using run w q by (auto simp: await_def on_client_def)
  next
    case (Inr v)
    then have "clean records (f v)"
      using assms(1) assms(2) [unfolded new_tokens_def, rule_format, of challenge "client_state w" v] q by simp
    then show ?thesis
      using run w q Inr by (simp add: await_def on_client_def clean_def) (metis issuing.select_convs(2) issuing.surjective issuing.update_convs(1))
  qed
qed

lemma clean_authorize:
  assumes "tidy records" and "new_tokens client records"
  shows "clean records (authorize client dns isWildcard authz)"
proof -
  let ?fqdn = "''_acme-challenge.'' @ authz_value authz"
  have "clean records
      (await (on_client (getChallengeKeyAuthorization client challenge)) (\<lambda>v.
       await (dns_publish dns ?fqdn v) (\<lambda>_.
       await (on_client (completeChallenge client challenge)) (\<lambda>_.
       await (on_client (waitForValidStatus client challenge)) (\<lambda>_.
       dns_unpublish dns ?fqdn v)))))" for challenge
    by (rule clean_token [OF _ assms(2), where name = "to_lower ?fqdn"],
        subst await_assoc [symmetric], rule clean_round [OF _ assms(1)])
      (auto intro: own_records_await own_records_client)
  then show ?thesis by (auto simp: authorize_def Let_def split: option.splits)
qed

text \<open>
  A short-lived certificate request that succeeds leaves the DNS records of the server as they
  were, and one that fails, at whatever step, leaves at most one challenge behind.
\<close>

theorem short_lived_request_clean:
  assumes "tidy (own_records w)" and "new_tokens client (own_records w)"
    and "requestCertificate client dns now domain True w = (r, w')"
  shows "own_records w' = own_records w \<or>
    (\<exists>e name v. r = Inl e \<and> own_records w' = set_local name v (own_records w))"
proof -
  have "clean (own_records w) (requestCertificate client dns now domain True)"
    unfolding requestCertificate_def short_lived_order_def Let_def if_True case_prod_unfold
    by (intro clean_await clean_client clean_each clean_authorize [OF assms(1,2)]) (auto simp: clean_def)
  then show ?thesis using assms(3) by (auto simp: clean_def)
qed

text \<open>A provider that issues everything, or fails every challenge.\<close>

definition sample_acme :: "bool \<Rightarrow> (nat, 's) acme_client" where
  "sample_acme ok =
     \<lparr>createCsr = (\<lambda>cn names c. (Inr (''KEY'', ''CSR''), c)),
      createAccount = (\<lambda>contact c. (Inr (), c)),
      createOrder = (\<lambda>names notBefore notAfter c. (Inr ''order'', c)),
      getAuthorizations = (\<lambda>order c. (Inr
        [\<lparr>authz_status = ''pending'', authz_value = ''a.io'',
          authz_challenges = [\<lparr>ch_type = ''dns-01'', ch_url = ''u'', ch_token = ''t''\<rparr>]\<rparr>], c)),
      getChallengeKeyAuthorization = (\<lambda>challenge c. (Inr ''tok'', c)),
      completeChallenge = (\<lambda>challenge c. (if ok then Inr () else Inl (JsError ''unreachable''), c)),
      waitForValidStatus = (\<lambda>challenge c. (Inr (), c)),
      finalizeOrder = (\<lambda>order csr c. (Inr order, c)),
      downloadCertificate = (\<lambda>order c. (Inr ''CERT'', c)),
      revokeCertificate = (\<lambda>cert c. (Inr (), c)),
      auto_issue = (\<lambda>csr priority email create remove w. (Inr ''CERT'', w)),
      readNotAfter = (\<lambda>cert. Inr 5)\<rparr>"

definition no_records :: "(nat, nat) issuing" where
  "no_records = \<lparr>client_state = 0, own_records = \<lambda>_. None, store_state = 0\<rparr>"

lemmas request_simps =
  requestCertificate_def short_lived_order_def authorize_def challenge_of_type_def await_def on_client_def return_def
  is_wildcard_def root_domain_def dns_publish_def dns_unpublish_def publish_def unpublish_def
  setTxtRecord_def removeTxtRecord_def

theorem short_lived_request_clean_witness:
  "own_records (snd (requestCertificate (sample_acme False) (Some None) 0 ''*.a.io'' True no_records)) = own_records no_records \<or>
    (\<exists>e name v. fst (requestCertificate (sample_acme False) (Some None) 0 ''*.a.io'' True no_records) = Inl e \<and>
      own_records (snd (requestCertificate (sample_acme False) (Some None) 0 ''*.a.io'' True no_records)) =
        set_local name v (own_records no_records))"
  by (rule short_lived_request_clean)
    (simp_all add: tidy_def new_tokens_def no_records_def sample_acme_def txt_values_def)

lemma sample_requests:
  "requestCertificate (sample_acme True) (Some None) 0 ''*.a.io'' True no_records =
     (Inr \<lparr>acme_key = ''KEY'', acme_cert = ''CERT'', acme_expiry = 5\<rparr>, no_records)"
  "requestCertificate (sample_acme False) (Some None) 0 ''*.a.io'' True no_records =
     (Inl (JsError ''unreachable''), no_records\<lparr>own_records := [to_lower ''_acme-challenge.a.io'' \<mapsto> [''tok'']]\<rparr>)"
  by (auto simp: request_simps sample_acme_def no_records_def set_local_def remove_local_def txt_values_def Let_def)

text \<open>
  When a DNS challenge fails after it was published, its record stays, and from then on the
  server answers the name with its own records alone: challenges that other servers publish for the
  same name through the shared store are hidden from anyone who asks this one.
\<close>

theorem failed_challenge_lingers:
  assumes "authz_status authz \<noteq> ''valid''" and "challenge_of_type ''dns-01'' authz = Some challenge"
    and "getChallengeKeyAuthorization client challenge (client_state w) = (Inr v, c)"
    and "publish store (''_acme-challenge.'' @ authz_value authz) v (w\<lparr>client_state := c\<rparr>) = (Inr (), w1)"
    and "completeChallenge client challenge c = (Inl e, c')"
    and "authorize client (Some store) True authz w = (r, w')"
    and "dq_type question = ''TXT''" and "to_lower (dq_name question) = to_lower (''_acme-challenge.'' @ authz_value authz)"
  shows "r = Inl e \<and>
    answered (handleQuery any_store (own_records w') s reads (Some \<lparr>dns_id = n, questions = Some (question # rest)\<rparr>)) =
      insert v (set (txt_values (own_records w) (to_lower (''_acme-challenge.'' @ authz_value authz))))"
proof -
  let ?name = "to_lower (''_acme-challenge.'' @ authz_value authz)"
  have w1: "own_records w1 = set_local ?name v (own_records w)" "client_state w1 = c"
    using assms(4) by (auto simp: publish_def setTxtRecord_def Let_def split: option.splits prod.splits)
  have "authorize client (Some store) True authz w = (Inl e, w1\<lparr>client_state := c'\<rparr>)"
    using assms(1-5) w1(2) by (simp add: authorize_def await_def on_client_def dns_publish_def Let_def)
  then have r: "r = Inl e" "own_records w' = own_records w1" using assms(6) by auto
  have "set (txt_values (own_records w') ?name) = insert v (set (txt_values (own_records w) ?name))"
    by (auto simp: r(2) w1(1) set_local_def txt_values_def Let_def split: option.splits)
  moreover from this have "txt_values (own_records w') (to_lower (dq_name question)) \<noteq> []" unfolding assms(8) by force
  note own_records_hide_shared [OF assms(7) this]
  ultimately show ?thesis unfolding assms(8) r(1) by (simp only: simp_thms)
qed

theorem failed_challenge_lingers_witness:
  "Inl (JsError ''unreachable'') = Inl (JsError ''unreachable'') \<and>
    answered (handleQuery (Some (S3ChallengeStore id map_client sample_config CHALLENGE_TTL_MS 7))
      [to_lower (''_acme-challenge.'' @ ''a.io'') \<mapsto> [''tok'']] [] (\<lambda>_. [])
      (Some \<lparr>dns_id = 1, questions = Some [\<lparr>dq_type = ''TXT'', dq_name = ''_acme-challenge.'' @ ''a.io''\<rparr>]\<rparr>)) =
      insert ''tok'' (set (txt_values (own_records no_records) (to_lower (''_acme-challenge.'' @ ''a.io''))))"
  using failed_challenge_lingers [of
      "\<lparr>authz_status = ''pending'', authz_value = ''a.io'',
        authz_challenges = [\<lparr>ch_type = ''dns-01'', ch_url = ''u'', ch_token = ''t''\<rparr>]\<rparr>"
      "\<lparr>ch_type = ''dns-01'', ch_url = ''u'', ch_token = ''t''\<rparr>" "sample_acme False" no_records "''tok''" 0 None
      "no_records\<lparr>own_records := [to_lower (''_acme-challenge.'' @ ''a.io'') \<mapsto> [''tok'']]\<rparr>" "JsError ''unreachable''" 0
      "Inl (JsError ''unreachable'')"
      "no_records\<lparr>own_records := [to_lower (''_acme-challenge.'' @ ''a.io'') \<mapsto> [''tok'']]\<rparr>"
      "\<lparr>dq_type = ''TXT'', dq_name = ''_acme-challenge.'' @ ''a.io''\<rparr>"
      "Some (S3ChallengeStore id map_client sample_config CHALLENGE_TTL_MS 7)" "[]" "\<lambda>_. []" 1 "[]"]
  by (simp add: request_simps sample_acme_def no_records_def set_local_def txt_values_def Let_def)

end
