(* ===== verification/Acme.thy ===== *)
theory Acme
  imports Acme_Request Cert_Definitions
begin

text \<open>
  \<open>AcmeCA\<close> of \<^verbatim>\<open>src/tls-certificates/acme.ts\<close>: which certificate a request for a domain gets, and
  when a new one is ordered. \<open>getCertificate\<close> is asynchronous, so the state holds its promises: an
  \<open>attempt\<close> is the promise of an order under way, a \<open>call\<close> one that starts with reading the cache.
  An event runs the code from one \<open>await\<close> to the next; events of a promise in another phase do
  nothing. The time is an argument of the events that read the clock.
\<close>

section \<open>State\<close>

definition SUPPORTED_ACME_PROVIDERS :: "string list" where
  "SUPPORTED_ACME_PROVIDERS = [''letsencrypt'', ''zerossl'', ''google'']"

definition PROACTIVE_REFRESH_TIME :: int where
  "PROACTIVE_REFRESH_TIME = ONE_DAY_MS * 14"

datatype attempt_phase =
    Requesting
  | Revoking acme_certificate
  | Resolved acme_certificate
  | Follows nat

record attempt =
  attempt_domain :: string
  attempt_options :: options
  attempt_phase :: attempt_phase

datatype call_phase =
    Fetching
  | Fetched "CachedCertificate option fallible"
  | Answered "acme_certificate fallible"
  | Awaiting nat

record call =
  call_domain :: string
  call_options :: options
  call_phase :: call_phase

text \<open>\<open>pending\<close> is \<open>pendingCertRenewals\<close>; \<open>store_ops\<close> are the operations started on the store.\<close>

record acme =
  acme_provider :: string
  memory :: cert_cache
  pending_renewals :: "string \<Rightarrow> nat option"
  attempts :: "attempt list"
  calls :: "call list"
  store_ops :: "store_op list"

definition new_acme :: "cert_cache \<Rightarrow> string \<Rightarrow> acme fallible" where
  "new_acme loaded provider =
     (if provider \<notin> set SUPPORTED_ACME_PROVIDERS
      then Inl (JsError (''Unsupported ACME provider: '' @ provider))
      else Inr \<lparr>acme_provider = provider, memory = loaded, pending_renewals = \<lambda>_. None,
        attempts = [], calls = [], store_ops = []\<rparr>)"

definition attempt_key :: "attempt \<Rightarrow> string" where
  "attempt_key a = calculateCertCacheKey (attempt_domain a) (attempt_options a)"

definition call_key :: "call \<Rightarrow> string" where
  "call_key c = calculateCertCacheKey (call_domain c) (call_options c)"

definition wants_expired :: "options \<Rightarrow> bool" where
  "wants_expired options \<longleftrightarrow> truthy (get options ''expired'')"

definition wants_revoked :: "options \<Rightarrow> bool" where
  "wants_revoked options \<longleftrightarrow> truthy (get options ''revoked'')"

definition as_acme :: "CachedCertificate \<Rightarrow> acme_certificate" where
  "as_acme c = \<lparr>acme_key = key_of c, acme_cert = cert_of c, acme_expiry = expiry_of c\<rparr>"

section \<open>Attempts\<close>

text \<open>The part of \<open>getCertificate\<close> that orders a certificate: it becomes the pending renewal.\<close>

definition start_attempt :: "string \<Rightarrow> options \<Rightarrow> acme \<Rightarrow> acme" where
  "start_attempt domain options st =
     st\<lparr>attempts := attempts st @ [\<lparr>attempt_domain = domain, attempt_options = options, attempt_phase = Requesting\<rparr>],
        pending_renewals := (pending_renewals st)(calculateCertCacheKey domain options \<mapsto> length (attempts st))\<rparr>"

definition set_phase :: "nat \<Rightarrow> attempt_phase \<Rightarrow> acme \<Rightarrow> acme" where
  "set_phase i phase st = st\<lparr>attempts := (attempts st)[i := (attempts st ! i)\<lparr>attempt_phase := phase\<rparr>]\<rparr>"

text \<open>The outcome of the request for an attempt; a Google certificate can be short-lived.\<close>

definition shortLived :: "string \<Rightarrow> options \<Rightarrow> bool" where
  "shortLived provider options \<longleftrightarrow> wants_expired options \<and> provider = ''google''"

definition attempt_request ::
    "('c, 's) acme_client \<Rightarrow> 's challenge_store option option \<Rightarrow> int \<Rightarrow> acme \<Rightarrow> nat \<Rightarrow> ('c, 's, acme_certificate) act" where
  "attempt_request client dns now st i =
     requestCertificate client dns now (attempt_domain (attempts st ! i))
       (shortLived (acme_provider st) (attempt_options (attempts st ! i)))"

text \<open>The revocation of the certificate that an attempt got.\<close>

definition attempt_revoke :: "('c, 's) acme_client \<Rightarrow> acme \<Rightarrow> nat \<Rightarrow> ('c, 's, unit) act" where
  "attempt_revoke client st i =
     (case attempt_phase (attempts st ! i) of
        Revoking data \<Rightarrow> on_client (revokeCertificate client (acme_cert data))
      | _ \<Rightarrow> return ())"

definition complete_attempt :: "nat \<Rightarrow> acme_certificate \<Rightarrow> acme \<Rightarrow> acme" where
  "complete_attempt i data st =
     (let key = attempt_key (attempts st ! i);
          (m, op) = cacheCert
            \<lparr>cacheKey_of = key, domain_of = attempt_domain (attempts st ! i), key_of = acme_key data,
             cert_of = acme_cert data, expiry_of = acme_expiry data\<rparr> (memory st)
      in set_phase i (Resolved data)
           (st\<lparr>pending_renewals := (pending_renewals st)(key := None), memory := m, store_ops := op # store_ops st\<rparr>))"

text \<open>The \<open>catch\<close> of an attempt: another attempt, at once.\<close>

definition retry :: "nat \<Rightarrow> acme \<Rightarrow> acme" where
  "retry i st =
     (let a = attempts st ! i in
      set_phase i (Follows (length (attempts st))) (start_attempt (attempt_domain a) (attempt_options a) st))"

definition request_done :: "nat \<Rightarrow> acme_certificate fallible \<Rightarrow> acme \<Rightarrow> acme" where
  "request_done i r st =
     (if i < length (attempts st) \<and> attempt_phase (attempts st ! i) = Requesting then
        (case r of
           Inl e \<Rightarrow> retry i st
         | Inr data \<Rightarrow>
             (case pending_renewals st (attempt_key (attempts st ! i)) of
                Some j \<Rightarrow>
                  if j \<noteq> i then set_phase i (Follows j) st
                  else if wants_revoked (attempt_options (attempts st ! i)) then set_phase i (Revoking data) st
                  else complete_attempt i data st
              | None \<Rightarrow>
                  if wants_revoked (attempt_options (attempts st ! i)) then set_phase i (Revoking data) st
                  else complete_attempt i data st))
      else st)"

definition revoke_done :: "nat \<Rightarrow> unit fallible \<Rightarrow> acme \<Rightarrow> acme" where
  "revoke_done i r st =
     (if i < length (attempts st) then
        (case attempt_phase (attempts st ! i) of
           Revoking data \<Rightarrow> (case r of Inl e \<Rightarrow> retry i st | Inr _ \<Rightarrow> complete_attempt i data st)
         | _ \<Rightarrow> st)
      else st)"

section \<open>Calls\<close>

definition set_call :: "nat \<Rightarrow> call_phase \<Rightarrow> acme \<Rightarrow> acme" where
  "set_call i phase st = st\<lparr>calls := (calls st)[i := (calls st ! i)\<lparr>call_phase := phase\<rparr>]\<rparr>"

text \<open>\<open>getCertificate\<close> up to its first \<open>await\<close>; this is all of \<open>waitForCertificate\<close>.\<close>

definition start_call :: "string \<Rightarrow> options \<Rightarrow> acme \<Rightarrow> acme" where
  "start_call domain options st =
     st\<lparr>calls := calls st @ [\<lparr>call_domain = domain, call_options = options,
       call_phase = (case memory st (calculateCertCacheKey domain options) of
          Some c \<Rightarrow> Fetched (Inr (Some c)) | None \<Rightarrow> Fetching)\<rparr>]\<rparr>"

definition waitForCertificate :: "string \<Rightarrow> options \<Rightarrow> acme \<Rightarrow> acme" where
  "waitForCertificate domain options st = start_call domain options st"

text \<open>The store has answered the read of \<open>fetchCert\<close>.\<close>

definition store_read :: "nat \<Rightarrow> CachedCertificate option fallible \<Rightarrow> acme \<Rightarrow> acme" where
  "store_read i r st =
     (if i < length (calls st) \<and> call_phase (calls st ! i) = Fetching then
        set_call i (Fetched r)
          (case r of Inr (Some c) \<Rightarrow> st\<lparr>memory := (memory st)(call_key (calls st ! i) \<mapsto> c)\<rparr> | _ \<Rightarrow> st)
      else st)"

text \<open>The rest of \<open>getCertificate\<close>.\<close>

definition resume :: "nat \<Rightarrow> int \<Rightarrow> acme \<Rightarrow> acme" where
  "resume i now st =
     (if i < length (calls st) then
        (let c = calls st ! i; domain = call_domain c; options = call_options c; key = call_key c in
         case call_phase c of
           Fetched (Inl e) \<Rightarrow> set_call i (Answered (Inl e)) st
         | Fetched (Inr (Some cached)) \<Rightarrow>
             if expiry_of cached \<le> now then
               (if wants_expired options then set_call i (Answered (Inr (as_acme cached))) st
                else (case clearCache key (memory st) of
                  (m, op) \<Rightarrow> set_call i (Awaiting (length (attempts st)))
                    (start_attempt domain options (st\<lparr>memory := m, store_ops := op # store_ops st\<rparr>))))
             else set_call i (Answered (Inr (as_acme cached)))
               (if \<not> wants_expired options \<and> expiry_of cached - now < PROACTIVE_REFRESH_TIME \<and> pending_renewals st key = None
                then start_attempt domain options st else st)
         | Fetched (Inr None) \<Rightarrow>
             (case pending_renewals st key of
                Some p \<Rightarrow> set_call i (Awaiting p) st
              | None \<Rightarrow> set_call i (Awaiting (length (attempts st))) (start_attempt domain options st))
         | _ \<Rightarrow> st)
      else st)"

text \<open>The certificate, if there is one, and a call that looks for a better one.\<close>

definition tryGetCertificateSync :: "int \<Rightarrow> string \<Rightarrow> options \<Rightarrow> acme \<Rightarrow> CachedCertificate option \<times> acme" where
  "tryGetCertificateSync now domain options st =
     (case getCert (memory st) (calculateCertCacheKey domain options) of
        None \<Rightarrow> (None, start_call domain options st)
      | Some c \<Rightarrow>
          if wants_expired options then (if expiry_of c \<le> now then Some c else None, st)
          else (Some c, if expiry_of c - now < PROACTIVE_REFRESH_TIME then start_call domain options st else st))"

section \<open>Histories\<close>

datatype acme_event =
    TryGet int string options
  | WaitFor string options
  | StoreRead nat "CachedCertificate option fallible"
  | Resume nat int
  | RequestDone nat "acme_certificate fallible"
  | RevokeDone nat "unit fallible"

fun acme_step :: "acme_event \<Rightarrow> acme \<Rightarrow> acme" where
  "acme_step (TryGet now domain options) st = snd (tryGetCertificateSync now domain options st)"
| "acme_step (WaitFor domain options) st = waitForCertificate domain options st"
| "acme_step (StoreRead i r) st = store_read i r st"
| "acme_step (Resume i now) st = resume i now st"
| "acme_step (RequestDone i r) st = request_done i r st"
| "acme_step (RevokeDone i r) st = revoke_done i r st"

text \<open>The value a promise resolves to, through the promises it follows.\<close>

fun value_within :: "nat \<Rightarrow> attempt list \<Rightarrow> nat \<Rightarrow> acme_certificate option" where
  "value_within 0 as i = None"
| "value_within (Suc n) as i =
     (if i < length as
      then (case attempt_phase (as ! i) of Resolved data \<Rightarrow> Some data | Follows j \<Rightarrow> value_within n as j | _ \<Rightarrow> None)
      else None)"

definition promise_value :: "attempt list \<Rightarrow> nat \<Rightarrow> acme_certificate option" where
  "promise_value as i = value_within (length as) as i"

definition in_progress :: "attempt \<Rightarrow> bool" where
  "in_progress a \<longleftrightarrow> (case attempt_phase a of Requesting \<Rightarrow> True | Revoking _ \<Rightarrow> True | _ \<Rightarrow> False)"

section \<open>The promises\<close>

text \<open>
  A pending renewal is an attempt in progress, the newest one of its key; an attempt follows
  newer ones of its key only; what a call awaits is an attempt of its key.
\<close>

definition attempts_ok :: "(string \<Rightarrow> nat option) \<Rightarrow> attempt list \<Rightarrow> bool" where
  "attempts_ok renewals as \<longleftrightarrow>
     (\<forall>k p. renewals k = Some p \<longrightarrow> p < length as \<and> attempt_key (as ! p) = k \<and> in_progress (as ! p)) \<and>
     (\<forall>i j. i < length as \<longrightarrow> attempt_phase (as ! i) = Follows j \<longrightarrow>
        i < j \<and> j < length as \<and> attempt_key (as ! j) = attempt_key (as ! i)) \<and>
     (\<forall>i p. i < length as \<longrightarrow> in_progress (as ! i) \<longrightarrow> renewals (attempt_key (as ! i)) = Some p \<longrightarrow> i \<le> p)"

definition calls_ok :: "attempt list \<Rightarrow> call list \<Rightarrow> bool" where
  "calls_ok as cs \<longleftrightarrow>
     (\<forall>c p. c \<in> set cs \<longrightarrow> call_phase c = Awaiting p \<longrightarrow> p < length as \<and> attempt_key (as ! p) = call_key c)"

definition acme_ok :: "acme \<Rightarrow> bool" where
  "acme_ok st \<longleftrightarrow> attempts_ok (pending_renewals st) (attempts st) \<and> calls_ok (attempts st) (calls st)"

lemma attempts_okD:
  assumes "attempts_ok renewals as"
  shows "renewals k = Some p \<Longrightarrow> p < length as \<and> attempt_key (as ! p) = k \<and> in_progress (as ! p)"
    and "i < length as \<Longrightarrow> attempt_phase (as ! i) = Follows j \<Longrightarrow> i < j \<and> j < length as \<and> attempt_key (as ! j) = attempt_key (as ! i)"
    and "i < length as \<Longrightarrow> in_progress (as ! i) \<Longrightarrow> renewals (attempt_key (as ! i)) = Some p \<Longrightarrow> i \<le> p"
  using assms unfolding attempts_ok_def by blast+

lemma attempts_okI:
  assumes "\<And>k p. renewals k = Some p \<Longrightarrow> p < length as \<and> attempt_key (as ! p) = k \<and> in_progress (as ! p)"
    and "\<And>i j. i < length as \<Longrightarrow> attempt_phase (as ! i) = Follows j \<Longrightarrow>
      i < j \<and> j < length as \<and> attempt_key (as ! j) = attempt_key (as ! i)"
    and "\<And>i p. i < length as \<Longrightarrow> in_progress (as ! i) \<Longrightarrow> renewals (attempt_key (as ! i)) = Some p \<Longrightarrow> i \<le> p"
  shows "attempts_ok renewals as"
  unfolding attempts_ok_def
  by (rule conjI, intro allI impI, rule assms(1), assumption, rule conjI, intro allI impI, rule assms(2),
      assumption, assumption, intro allI impI, rule assms(3), assumption, assumption, assumption)

lemma attempt_key_phase [simp]: "attempt_key (a\<lparr>attempt_phase := ph\<rparr>) = attempt_key a"
  by (simp add: attempt_key_def)

lemma key_update [simp]: "i < length as \<Longrightarrow> attempt_key (as[i := (as ! i)\<lparr>attempt_phase := ph\<rparr>] ! j) = attempt_key (as ! j)"
  by (cases "i = j") simp_all

lemma start_attempts_ok:
  assumes "attempts_ok renewals as" and "in_progress a"
  shows "attempts_ok (renewals(attempt_key a \<mapsto> length as)) (as @ [a])"
proof (rule attempts_okI, goal_cases)
  case (1 k p)
  then show ?case
    using attempts_okD(1) [OF assms(1), of k p] assms(2) by (cases "k = attempt_key a") (auto simp: nth_append)
next
  case (2 i j)
  then have "i < length as" using assms(2) by (cases "i = length as") (auto simp: in_progress_def)
  then show ?case using attempts_okD(2) [OF assms(1), of i j] 2 by (auto simp: nth_append)
next
  case (3 i p)
  show ?case
  proof (cases "i = length as")
    case False
    then have i: "i < length as" "(as @ [a]) ! i = as ! i" using 3(1) by (simp_all add: nth_append)
    show ?thesis
    proof (cases "attempt_key (as ! i) = attempt_key a")
      case False
      then show ?thesis using attempts_okD(3) [OF assms(1), of i p] 3 i by simp
    qed (use 3 i in simp)
  qed (use 3 in simp)
qed

lemma settle_ok:
  assumes ok: "attempts_ok renewals as" and "i < length as"
    and fewer: "\<And>k p. renewals' k = Some p \<Longrightarrow> renewals k = Some p \<and> p \<noteq> i"
    and phase: "\<And>j. ph = Follows j \<Longrightarrow> i < j \<and> j < length as \<and> attempt_key (as ! j) = attempt_key (as ! i)"
    and settled: "ph \<noteq> Requesting" "\<And>d. ph \<noteq> Revoking d"
  shows "attempts_ok renewals' (as[i := (as ! i)\<lparr>attempt_phase := ph\<rparr>])"
proof (rule attempts_okI, goal_cases)
  case (1 k p)
  then have "renewals k = Some p" "p \<noteq> i" using fewer by blast+
  then show ?case using attempts_okD(1) [OF ok, of k p] by simp
next
  case (2 j j')
  show ?case
  proof (cases "j = i")
    case True
    then show ?thesis using phase [of j'] 2 assms(2) by (cases "j' = i") auto
  next
    case False
    then show ?thesis using attempts_okD(2) [OF ok, of j j'] 2 assms(2) by (cases "j' = i") auto
  qed
next
  case (3 j p)
  have "j \<noteq> i" using 3(2) settled assms(2) by (auto simp: in_progress_def split: attempt_phase.splits)
  then show ?case using attempts_okD(3) [OF ok, of j p] fewer 3 by simp
qed

lemma revoking_ok:
  assumes ok: "attempts_ok renewals as" and "i < length as" and "in_progress (as ! i)"
  shows "attempts_ok renewals (as[i := (as ! i)\<lparr>attempt_phase := Revoking d\<rparr>])"
proof (rule attempts_okI, goal_cases)
  case (1 k p)
  then show ?case using attempts_okD(1) [OF ok 1] by (cases "p = i") (auto simp: in_progress_def)
next
  case (2 j j')
  then have "j \<noteq> i" by auto
  then show ?case using attempts_okD(2) [OF ok, of j j'] 2 assms(2) by (cases "j' = i") auto
next
  case (3 j p)
  then show ?case using attempts_okD(3) [OF ok, of j p] assms(3) by (cases "j = i") auto
qed

text \<open>What a call awaits stays: attempts are only added, and keep their key.\<close>

lemma calls_ok_more:
  assumes "calls_ok as cs" and "length as \<le> length as'"
    and "\<And>p. p < length as \<Longrightarrow> attempt_key (as' ! p) = attempt_key (as ! p)"
  shows "calls_ok as' cs"
  using assms unfolding calls_ok_def by (metis order_less_le_trans)

lemma calls_ok_phase:
  "calls_ok as cs \<Longrightarrow> i < length as \<Longrightarrow> calls_ok (as[i := (as ! i)\<lparr>attempt_phase := ph\<rparr>]) cs"
  by (rule calls_ok_more) (simp_all only: length_list_update key_update order_refl)

lemma calls_ok_set:
  assumes "calls_ok as cs" and "i < length cs"
    and "\<And>p. ph = Awaiting p \<Longrightarrow> p < length as \<and> attempt_key (as ! p) = call_key (cs ! i)"
  shows "calls_ok as (cs[i := (cs ! i)\<lparr>call_phase := ph\<rparr>])"
proof -
  have "call_key ((cs ! i)\<lparr>call_phase := ph\<rparr>) = call_key (cs ! i)" by (simp add: call_key_def)
  then show ?thesis
    using assms set_update_subset_insert [of cs i "(cs ! i)\<lparr>call_phase := ph\<rparr>"] unfolding calls_ok_def by fastforce
qed

lemma start_attempt_acme_ok:
  assumes "acme_ok st"
  shows "acme_ok (start_attempt domain options st)"
proof -
  let ?a = "\<lparr>attempt_domain = domain, attempt_options = options, attempt_phase = Requesting\<rparr>"
  have "calls_ok (attempts st @ [?a]) (calls st)"
    using calls_ok_more [of "attempts st" "calls st" "attempts st @ [?a]"] assms by (simp add: acme_ok_def nth_append)
  moreover have "attempts_ok ((pending_renewals st)(attempt_key ?a \<mapsto> length (attempts st))) (attempts st @ [?a])"
    using start_attempts_ok [of "pending_renewals st" "attempts st" ?a] assms by (simp add: acme_ok_def in_progress_def)
  ultimately show ?thesis by (simp add: acme_ok_def start_attempt_def attempt_key_def)
qed

lemma started [simp]:
  "length (attempts (start_attempt d opts st)) = Suc (length (attempts st))"
  "i < length (attempts st) \<Longrightarrow> attempts (start_attempt d opts st) ! i = attempts st ! i"
  "attempt_key (attempts (start_attempt d opts st) ! length (attempts st)) = calculateCertCacheKey d opts"
  "pending_renewals (start_attempt d opts st) = (pending_renewals st)(calculateCertCacheKey d opts \<mapsto> length (attempts st))"
  "calls (start_attempt d opts st) = calls st"
  "memory (start_attempt d opts st) = memory st"
  by (simp_all add: start_attempt_def nth_append attempt_key_def)

lemma set_phase_ok:
  assumes "acme_ok st" and "i < length (attempts st)"
    and "\<And>k p. renewals k = Some p \<Longrightarrow> pending_renewals st k = Some p \<and> p \<noteq> i"
    and "\<And>j. ph = Follows j \<Longrightarrow> i < j \<and> j < length (attempts st) \<and> attempt_key (attempts st ! j) = attempt_key (attempts st ! i)"
    and "ph \<noteq> Requesting" "\<And>d. ph \<noteq> Revoking d"
  shows "acme_ok (set_phase i ph (st\<lparr>pending_renewals := renewals, memory := m, store_ops := ops\<rparr>))"
proof -
  have "calls_ok ((attempts st)[i := (attempts st ! i)\<lparr>attempt_phase := ph\<rparr>]) (calls st)"
    using calls_ok_phase assms(1,2) by (simp add: acme_ok_def)
  then show ?thesis
    using settle_ok [where renewals = "pending_renewals st" and renewals' = renewals, OF _ assms(2-6)] assms(1) by (simp add: acme_ok_def set_phase_def)
qed

lemma complete_ok:
  assumes "acme_ok st" and "i < length (attempts st)"
  shows "acme_ok (complete_attempt i data st)"
proof -
  have other: "pending_renewals st k = Some p \<and> p \<noteq> i"
    if "((pending_renewals st)(attempt_key (attempts st ! i) := None)) k = Some p" for k p
    using that attempts_okD(1) [of "pending_renewals st" "attempts st" k p] assms(1)
    by (auto simp: acme_ok_def split: if_splits)
  show ?thesis
    unfolding complete_attempt_def Let_def cacheCert_def prod.case
    by (rule set_phase_ok [OF assms other]) simp_all
qed

lemma retry_ok:
  assumes "acme_ok st" and "i < length (attempts st)"
  shows "acme_ok (retry i st)"
proof -
  let ?a = "attempts st ! i"
  let ?st = "start_attempt (attempt_domain ?a) (attempt_options ?a) st"
  have other: "pending_renewals ?st k = Some p \<and> p \<noteq> i" if "pending_renewals ?st k = Some p" for k p
    using that attempts_okD(1) [of "pending_renewals st" "attempts st" k p] assms
    by (auto simp: acme_ok_def attempt_key_def split: if_splits)
  have "acme_ok (set_phase i (Follows (length (attempts st))) (?st\<lparr>pending_renewals := pending_renewals ?st,
      memory := memory ?st, store_ops := store_ops ?st\<rparr>))"
    by (rule set_phase_ok [OF start_attempt_acme_ok [OF assms(1)] _ other]) (use assms(2) in \<open>simp_all add: attempt_key_def [of ?a]\<close>)
  moreover have "st'\<lparr>pending_renewals := pending_renewals st', memory := memory st', store_ops := store_ops st'\<rparr> = st'" for st' :: acme
    by simp
  ultimately show ?thesis by (simp only: retry_def Let_def)
qed

lemma request_done_ok: "acme_ok st \<Longrightarrow> acme_ok (request_done i r st)"
proof -
  assume ok: "acme_ok st"
  show ?thesis
  proof (cases "i < length (attempts st) \<and> attempt_phase (attempts st ! i) = Requesting")
    case True
    then have i: "i < length (attempts st)" "in_progress (attempts st ! i)" by (simp_all add: in_progress_def)
    note oks = ok [unfolded acme_ok_def, THEN conjunct1]
    have revoking: "acme_ok (set_phase i (Revoking d) st)" for d
      using revoking_ok [OF oks i, of d] ok i(1) calls_ok_phase
      by (simp add: acme_ok_def set_phase_def)
    have follows: "acme_ok (set_phase i (Follows j) st)"
      if j: "pending_renewals st (attempt_key (attempts st ! i)) = Some j" "j \<noteq> i" for j
    proof -
      have "i < j" using attempts_okD(3) [OF oks i j(1)] j(2) by simp
      moreover have "pending_renewals st k = Some p \<and> p \<noteq> i" if "pending_renewals st k = Some p" for k p
        using that attempts_okD(1) [OF oks, of k p] j by auto
      ultimately show ?thesis
        using set_phase_ok [where renewals = "pending_renewals st" and ph = "Follows j" and m = "memory st"
            and ops = "store_ops st", OF ok i(1)]
          attempts_okD(1) [OF oks j(1)] by simp
    qed
    show ?thesis
      using True revoking follows complete_ok [OF ok i(1)] retry_ok [OF ok i(1)]
      by (simp add: request_done_def split: sum.split option.split)
  qed (use ok in \<open>auto simp: request_done_def\<close>)
qed

lemma revoke_done_ok: "acme_ok st \<Longrightarrow> acme_ok (revoke_done i r st)"
  using complete_ok retry_ok by (simp add: revoke_done_def split: attempt_phase.split sum.split)

lemma set_call_ok:
  assumes "acme_ok st" and "i < length (calls st)"
    and "\<And>p. ph = Awaiting p \<Longrightarrow> p < length (attempts st) \<and> attempt_key (attempts st ! p) = call_key (calls st ! i)"
  shows "acme_ok (set_call i ph st)"
  using calls_ok_set [OF _ assms(2,3)] assms(1) by (simp add: acme_ok_def set_call_def)

lemma memory_ok [simp]: "acme_ok (st\<lparr>memory := m\<rparr>) = acme_ok st" "acme_ok (st\<lparr>store_ops := ops\<rparr>) = acme_ok st"
  by (simp_all add: acme_ok_def)

lemma start_call_ok: "acme_ok st \<Longrightarrow> acme_ok (start_call domain options st)"
  by (auto simp: acme_ok_def start_call_def calls_ok_def split: option.splits)

lemma store_read_ok: "acme_ok st \<Longrightarrow> acme_ok (store_read i r st)"
  by (auto simp: store_read_def intro!: set_call_ok split: sum.split option.split)

lemma await_new_ok:
  assumes "acme_ok st" and "i < length (calls st)" and "call_key (calls st ! i) = calculateCertCacheKey domain options"
  shows "acme_ok (set_call i (Awaiting (length (attempts st))) (start_attempt domain options st))"
  by (rule set_call_ok [OF start_attempt_acme_ok [OF assms(1)]]) (use assms(2,3) in simp_all)

lemma resume_ok:
  assumes ok: "acme_ok st"
  shows "acme_ok (resume i now st)"
proof (cases "i < length (calls st)")
  case True
  let ?c = "calls st ! i"
  have key: "call_key ?c = calculateCertCacheKey (call_domain ?c) (call_options ?c)" by (simp add: call_key_def)
  have answered: "acme_ok (set_call i (Answered r) st')" if "acme_ok st'" "calls st' = calls st" for r st'
    using set_call_ok [OF that(1), of i "Answered r"] that(2) True by simp
  have waiting: "acme_ok (set_call i (Awaiting p) st)" if "pending_renewals st (call_key ?c) = Some p" for p
    using set_call_ok [OF ok True, of "Awaiting p"] attempts_okD(1) [OF ok [unfolded acme_ok_def, THEN conjunct1] that] by simp
  have cleared: "acme_ok (set_call i (Awaiting (length (attempts st)))
      (start_attempt (call_domain ?c) (call_options ?c) (st\<lparr>memory := m, store_ops := ops\<rparr>)))" for m ops
    using await_new_ok [of "st\<lparr>memory := m, store_ops := ops\<rparr>" i] ok True key by simp
  show ?thesis
    using True ok answered waiting cleared await_new_ok [OF ok True key] start_attempt_acme_ok [OF ok]
    by (simp add: resume_def Let_def clearCache_def split: call_phase.split sum.split option.split)
qed (use ok in \<open>simp add: resume_def\<close>)

lemma acme_step_ok: "acme_ok st \<Longrightarrow> acme_ok (acme_step ev st)"
  using request_done_ok revoke_done_ok start_call_ok store_read_ok resume_ok
  by (cases ev) (auto simp: tryGetCertificateSync_def waitForCertificate_def split: option.split)

lemma new_acme_ok: "new_acme loaded provider = Inr st \<Longrightarrow> acme_ok st"
  by (auto simp: new_acme_def acme_ok_def attempts_ok_def calls_ok_def split: if_splits)

lemma acme_run_ok: "acme_ok st \<Longrightarrow> acme_ok (fold acme_step evs st)"
  by (induction evs arbitrary: st) (simp_all add: acme_step_ok)

section \<open>Every promise settles\<close>

text \<open>The attempts in \<open>ps\<close> succeed one after the other, revocations included.\<close>

definition successes :: "(nat \<Rightarrow> acme_certificate) \<Rightarrow> nat list \<Rightarrow> acme_event list" where
  "successes data ps = concat (map (\<lambda>i. [RequestDone i (Inr (data i)), RevokeDone i (Inr ())]) ps)"

lemma set_phase_attempts [simp]:
  "attempts (set_phase i ph st) = (attempts st)[i := (attempts st ! i)\<lparr>attempt_phase := ph\<rparr>]"
  "calls (set_phase i ph st) = calls st"
  "pending_renewals (set_phase i ph st) = pending_renewals st"
  by (simp_all add: set_phase_def)

lemma complete_attempts [simp]:
  "attempts (complete_attempt i data st) = (attempts st)[i := (attempts st ! i)\<lparr>attempt_phase := Resolved data\<rparr>]"
  "calls (complete_attempt i data st) = calls st"
  by (simp_all add: complete_attempt_def Let_def cacheCert_def)

lemma success_settles:
  fixes st data i
  defines "st' \<equiv> revoke_done i (Inr ()) (request_done i (Inr data) st)"
  shows "length (attempts st') = length (attempts st) \<and> calls st' = calls st \<and>
    (\<forall>j. j \<noteq> i \<longrightarrow> attempts st' ! j = attempts st ! j) \<and> (i < length (attempts st) \<longrightarrow> \<not> in_progress (attempts st' ! i))"
proof (cases "i < length (attempts st)")
  case True
  have settled: "\<not> in_progress (a\<lparr>attempt_phase := Resolved d\<rparr>)" "\<not> in_progress (a\<lparr>attempt_phase := Follows j\<rparr>)" for a d j
    by (simp_all add: in_progress_def)
  show ?thesis
    using True settled
    by (cases "attempt_phase (attempts st ! i)")
      (auto simp: st'_def request_done_def revoke_done_def in_progress_def split: option.split)
qed (simp add: st'_def request_done_def revoke_done_def)

lemma successes_settle:
  fixes st data ps
  defines "st' \<equiv> fold acme_step (successes data ps) st"
  shows "length (attempts st') = length (attempts st) \<and> calls st' = calls st \<and>
    (\<forall>j < length (attempts st). in_progress (attempts st' ! j) \<longrightarrow> in_progress (attempts st ! j) \<and> j \<notin> set ps)"
  unfolding st'_def
proof (induction ps arbitrary: st)
  case Nil
  then show ?case by (simp add: successes_def)
next
  case (Cons i ps)
  let ?st = "revoke_done i (Inr ()) (request_done i (Inr (data i)) st)"
  have run: "fold acme_step (successes data (i # ps)) st = fold acme_step (successes data ps) ?st"
    by (simp add: successes_def)
  show ?case unfolding run using Cons.IH [of ?st] success_settles [of i "data i" st] by (metis set_ConsD)
qed

lemma value_more: "value_within n as i = Some d \<Longrightarrow> n \<le> m \<Longrightarrow> value_within m as i = Some d"
proof (induction n as i arbitrary: m rule: value_within.induct)
  case (2 n as i)
  then obtain m' where "m = Suc m'" by (cases m) auto
  with 2 show ?case by (auto split: attempt_phase.splits if_splits)
qed simp

lemma settled_value:
  assumes ok: "attempts_ok renewals as" and settled: "\<And>j. j < length as \<Longrightarrow> \<not> in_progress (as ! j)" and "i < length as"
  shows "\<exists>d q. value_within (length as - i) as i = Some d \<and> q < length as \<and> attempt_phase (as ! q) = Resolved d \<and>
    attempt_key (as ! q) = attempt_key (as ! i)"
  using assms(3)
proof (induction "length as - i" arbitrary: i rule: less_induct)
  case less
  then obtain n where n: "length as - i = Suc n" by (metis Suc_diff_Suc)
  show ?case
  proof (cases "attempt_phase (as ! i)")
    case (Follows j)
    note later = attempts_okD(2) [OF ok less.prems Follows]
    obtain d q where d: "value_within (length as - j) as j = Some d" "q < length as"
        "attempt_phase (as ! q) = Resolved d" "attempt_key (as ! q) = attempt_key (as ! j)"
      using less.hyps [of j] later by (metis diff_less_mono2 less.prems)
    have "value_within n as j = Some d" by (rule value_more [OF d(1)]) (use later n in linarith)
    then show ?thesis using d later Follows n less.prems by auto
  next
    case (Resolved d)
    then show ?thesis using n less.prems by auto
  qed (use settled [OF less.prems] in \<open>simp_all add: in_progress_def\<close>)
qed

text \<open>
  C7: No promise is ever lost: whatever has happened, once the attempts under way have succeeded, in
  any order, everyone who waits has a certificate that was issued for the key they asked for, and
  no renewal is left pending.
\<close>

theorem acme_promises_settle:
  assumes "new_acme loaded provider = Inr st0" and "st = fold acme_step evs st0"
    and "{i. i < length (attempts st) \<and> in_progress (attempts st ! i)} \<subseteq> set ps"
    and "st' = fold acme_step (successes data ps) st"
    and "c \<in> set (calls st')" and "call_phase c = Awaiting p"
  shows "(\<exists>d q. promise_value (attempts st') p = Some d \<and> q < length (attempts st') \<and>
      attempt_phase (attempts st' ! q) = Resolved d \<and> attempt_key (attempts st' ! q) = call_key c) \<and>
    pending_renewals st' = (\<lambda>_. None)"
proof -
  have "acme_ok st'" unfolding assms(2,4) by (intro acme_run_ok new_acme_ok [OF assms(1)])
  then have ok: "attempts_ok (pending_renewals st') (attempts st')" and calls: "calls_ok (attempts st') (calls st')"
    by (simp_all add: acme_ok_def)
  have settled: "\<not> in_progress (attempts st' ! j)" if "j < length (attempts st')" for j
    using that successes_settle [of data ps st] assms(3,4) by auto
  have p: "p < length (attempts st')" "attempt_key (attempts st' ! p) = call_key c"
    using calls assms(5,6) by (auto simp: calls_ok_def)
  obtain d q where d: "value_within (length (attempts st') - p) (attempts st') p = Some d" "q < length (attempts st')"
      "attempt_phase (attempts st' ! q) = Resolved d" "attempt_key (attempts st' ! q) = call_key c"
    using settled_value [OF ok settled p(1)] p(2) by auto
  have "promise_value (attempts st') p = Some d" unfolding promise_value_def by (rule value_more [OF d(1)]) simp
  moreover have "pending_renewals st' k = None" for k
    using attempts_okD(1) [OF ok, of k] settled by (cases "pending_renewals st' k") auto
  ultimately show ?thesis using d(2-4) by (blast intro: ext)
qed

text \<open>Two callers, a failed request, and its repetition.\<close>

definition sample_history :: "acme_event list" where
  "sample_history =
     [WaitFor ''a.io'' [], StoreRead 0 (Inr None), Resume 0 5, WaitFor ''a.io'' [], StoreRead 1 (Inr None),
      Resume 1 6, RequestDone 0 (Inl (JsError ''refused''))]"

definition sample_start :: acme where
  "sample_start = \<lparr>acme_provider = ''google'', memory = \<lambda>_. None, pending_renewals = \<lambda>_. None,
     attempts = [], calls = [], store_ops = []\<rparr>"

lemma sample_key: "calculateCertCacheKey ''a.io'' [] = ''a.io+''"
  by (simp add: calculateCertCacheKey_def key_parts_def cert_flags_def get_def)

lemma sample_state:
  "fold acme_step sample_history sample_start =
     \<lparr>acme_provider = ''google'', memory = \<lambda>_. None, pending_renewals = [''a.io+'' \<mapsto> 1],
      attempts = [\<lparr>attempt_domain = ''a.io'', attempt_options = [], attempt_phase = Follows 1\<rparr>,
        \<lparr>attempt_domain = ''a.io'', attempt_options = [], attempt_phase = Requesting\<rparr>],
      calls = [\<lparr>call_domain = ''a.io'', call_options = [], call_phase = Awaiting 0\<rparr>,
        \<lparr>call_domain = ''a.io'', call_options = [], call_phase = Awaiting 0\<rparr>],
      store_ops = []\<rparr>"
  by (simp add: sample_history_def sample_start_def waitForCertificate_def start_call_def store_read_def resume_def
      request_done_def retry_def start_attempt_def set_call_def set_phase_def call_key_def sample_key Let_def)

theorem acme_promises_settle_witness:
  "(\<exists>d q. promise_value (attempts (fold acme_step (successes (\<lambda>_. \<lparr>acme_key = ''K'', acme_cert = ''C'', acme_expiry = 9\<rparr>) [1])
        (fold acme_step sample_history sample_start))) 0 = Some d \<and>
      q < length (attempts (fold acme_step (successes (\<lambda>_. \<lparr>acme_key = ''K'', acme_cert = ''C'', acme_expiry = 9\<rparr>) [1])
        (fold acme_step sample_history sample_start))) \<and>
      attempt_phase (attempts (fold acme_step (successes (\<lambda>_. \<lparr>acme_key = ''K'', acme_cert = ''C'', acme_expiry = 9\<rparr>) [1])
        (fold acme_step sample_history sample_start)) ! q) = Resolved d \<and>
      attempt_key (attempts (fold acme_step (successes (\<lambda>_. \<lparr>acme_key = ''K'', acme_cert = ''C'', acme_expiry = 9\<rparr>) [1])
        (fold acme_step sample_history sample_start)) ! q) =
        call_key \<lparr>call_domain = ''a.io'', call_options = [], call_phase = Awaiting 0\<rparr>) \<and>
    pending_renewals (fold acme_step (successes (\<lambda>_. \<lparr>acme_key = ''K'', acme_cert = ''C'', acme_expiry = 9\<rparr>) [1])
      (fold acme_step sample_history sample_start)) = (\<lambda>_. None)"
proof (rule acme_promises_settle [OF _ refl _ refl])
  show "new_acme (\<lambda>_. None) ''google'' = Inr sample_start"
    by (simp add: new_acme_def SUPPORTED_ACME_PROVIDERS_def sample_start_def)
  show "{i. i < length (attempts (fold acme_step sample_history sample_start)) \<and>
      in_progress (attempts (fold acme_step sample_history sample_start) ! i)} \<subseteq> set [1]"
    unfolding sample_state by (auto simp: less_Suc_eq in_progress_def)
  have "calls (fold acme_step (successes data ps) st) = calls st" for data ps st using successes_settle by blast
  then show "\<lparr>call_domain = ''a.io'', call_options = [], call_phase = Awaiting 0\<rparr> \<in> set (calls (fold acme_step
      (successes (\<lambda>_. \<lparr>acme_key = ''K'', acme_cert = ''C'', acme_expiry = 9\<rparr>) [1]) (fold acme_step sample_history sample_start)))"
    by (simp add: sample_state)
qed simp

section \<open>What a call answers\<close>

text \<open>
  C27: A call that has read the cache passes on a failure of the store, or answers a certificate that
  has not expired (unless it asks for an expired one) with a renewal pending when less than two weeks
  are left, or waits for an attempt under way for its own key.
\<close>

theorem acme_answers_current:
  assumes "new_acme loaded provider = Inr st0" and "st = fold acme_step evs st0"
    and "i < length (calls st)" and "call_phase (calls st ! i) = Fetched r" and "st' = acme_step (Resume i now) st"
  shows "case call_phase (calls st' ! i) of
      Answered (Inl e) \<Rightarrow> r = Inl e
    | Answered (Inr d) \<Rightarrow>
        (\<exists>c. r = Inr (Some c) \<and> d = as_acme c) \<and>
        (wants_expired (call_options (calls st ! i)) \<or> acme_expiry d > now) \<and>
        (wants_expired (call_options (calls st ! i)) \<or> acme_expiry d - now \<ge> PROACTIVE_REFRESH_TIME \<or>
          pending_renewals st' (call_key (calls st ! i)) \<noteq> None)
    | Awaiting p \<Rightarrow>
        p < length (attempts st') \<and> attempt_key (attempts st' ! p) = call_key (calls st ! i) \<and> in_progress (attempts st' ! p)
    | _ \<Rightarrow> False"
proof -
  have "acme_ok st" unfolding assms(2) by (intro acme_run_ok new_acme_ok [OF assms(1)])
  then have ok: "attempts_ok (pending_renewals st) (attempts st)" by (simp add: acme_ok_def)
  have fresh: "in_progress (attempts (start_attempt d opts s) ! length (attempts s))" for d opts s
    by (simp add: start_attempt_def in_progress_def nth_append)
  have cleared: "attempts (start_attempt d opts (st\<lparr>memory := m, store_ops := ops\<rparr>)) = attempts (start_attempt d opts st)"
    for d opts m ops by (simp add: start_attempt_def)
  show ?thesis
    using assms(3,4) attempts_okD(1) [OF ok] fresh [of _ _ st] unfolding assms(5)
    by (auto simp: cleared resume_def set_call_def Let_def clearCache_def as_acme_def call_key_def split: sum.split option.split)
qed

text \<open>A loaded certificate with a day left is answered while its renewal starts.\<close>

definition loaded_cert :: CachedCertificate where
  "loaded_cert = \<lparr>cacheKey_of = ''a.io+'', domain_of = ''a.io'', key_of = ''K'', cert_of = ''C'', expiry_of = ONE_DAY_MS\<rparr>"

definition loaded_start :: acme where
  "loaded_start = sample_start\<lparr>memory := [''a.io+'' \<mapsto> loaded_cert]\<rparr>"

theorem acme_answers_current_witness:
  "acme_expiry (as_acme loaded_cert) > 5 \<and>
    pending_renewals (acme_step (Resume 0 5) (fold acme_step [WaitFor ''a.io'' []] loaded_start)) ''a.io+'' \<noteq> None"
proof -
  have start: "new_acme [''a.io+'' \<mapsto> loaded_cert] ''google'' = Inr loaded_start"
    by (simp add: new_acme_def SUPPORTED_ACME_PROVIDERS_def loaded_start_def sample_start_def)
  let ?st = "fold acme_step [WaitFor ''a.io'' []] loaded_start"
  have st: "calls ?st ! 0 = \<lparr>call_domain = ''a.io'', call_options = [], call_phase = Fetched (Inr (Some loaded_cert))\<rparr>"
      "0 < length (calls ?st)"
    by (simp_all add: waitForCertificate_def start_call_def loaded_start_def sample_start_def sample_key)
  then have "call_phase (calls (acme_step (Resume 0 5) ?st) ! 0) = Answered (Inr (as_acme loaded_cert))"
    by (simp add: resume_def set_call_def Let_def loaded_cert_def ONE_DAY_MS_def)
  moreover have "\<not> wants_expired []" by (simp add: wants_expired_def get_def)
  ultimately show ?thesis
    using acme_answers_current [OF start refl st(2) _ refl, of _ 5] st(1)
    by (simp add: call_key_def sample_key as_acme_def loaded_cert_def ONE_DAY_MS_def PROACTIVE_REFRESH_TIME_def)
qed

text \<open>The synchronous look-up does not check the expiry of a certificate that should be valid.\<close>

lemma sync_serves_expired:
  assumes "memory st (calculateCertCacheKey domain options) = Some c" and "\<not> wants_expired options" and "expiry_of c \<le> now"
  shows "fst (tryGetCertificateSync now domain options st) = Some c"
  using assms by (simp add: tryGetCertificateSync_def getCert_def)

text \<open>A failed request is repeated in the same moment: after \<open>n\<close> failures the provider was asked \<open>n\<close> more times.\<close>

lemma failed_request_repeats:
  assumes "attempts st = as @ [a]" and "attempt_phase a = Requesting"
  shows "\<exists>as'. attempts (fold acme_step (map (\<lambda>k. RequestDone (length as + k) (Inl e)) [0..<n]) st) = as' @ [a] \<and>
    length as' = length as + n"
  using assms(1)
proof (induction n)
  case (Suc n)
  then obtain as' where as': "attempts (fold acme_step (map (\<lambda>k. RequestDone (length as + k) (Inl e)) [0..<n]) st) = as' @ [a]"
      "length as' = length as + n" by blast
  have "a\<lparr>attempt_phase := Requesting\<rparr> = a" using assms(2) by simp
  moreover have "\<lparr>attempt_domain = attempt_domain a, attempt_options = attempt_options a, attempt_phase = Requesting\<rparr> = a"
    using assms(2) by (cases a) simp
  ultimately show ?case
    using as' assms(2)
    by (intro exI [of _ "as' @ [a\<lparr>attempt_phase := Follows (Suc (length as'))\<rparr>]"])
      (simp add: request_done_def retry_def start_attempt_def set_phase_def Let_def nth_append list_update_append)
qed (use assms in simp)

end
