(* ===== verification/Server.thy ===== *)
theory Server
  imports Acme Local_Ca_Laws
begin

text \<open>
  \<^verbatim>\<open>src/server.ts\<close>: the configuration of the server. \<open>generateTlsConfig\<close> checks the options, makes
  the local CA and, when a provider is configured, the ACME CA; \<open>server_certificate\<close> is the
  \<open>generateCertificate\<close> that it returns, which decides between the two. Binding ports, reading the
  client hello and the environment of the process are Node's and left out; \<open>s3ConfigFromEnv\<close> takes
  the environment as a map.
\<close>

section \<open>Options\<close>

definition isWildcardCoverable :: "string \<Rightarrow> string \<Rightarrow> bool" where
  "isWildcardCoverable domain rootDomain \<longleftrightarrow>
     ends_with domain (''.'' @ rootDomain) \<and>
     CHR ''.'' \<notin> set (slice_off_end (length rootDomain + 1) domain)"

definition nonempty :: "string option \<Rightarrow> bool" where
  "nonempty v \<longleftrightarrow> (case v of None \<Rightarrow> False | Some s \<Rightarrow> s \<noteq> [])"

definition s3ConfigFromEnv :: "(string \<Rightarrow> string option) \<Rightarrow> S3Config option fallible" where
  "s3ConfigFromEnv process_env =
     (if \<not> nonempty (process_env ''CERT_STORE_S3_BUCKET'') then Inr None
      else
        (let endpoint = (case process_env ''AWS_ENDPOINT_URL_S3'' of None \<Rightarrow> process_env ''AWS_ENDPOINT_URL'' | Some u \<Rightarrow> Some u);
             accessKeyId = process_env ''AWS_ACCESS_KEY_ID'';
             secretAccessKey = process_env ''AWS_SECRET_ACCESS_KEY''
         in if \<not> nonempty endpoint \<or> \<not> nonempty accessKeyId \<or> \<not> nonempty secretAccessKey
            then Inl (JsError (''CERT_STORE_S3_BUCKET is set but the S3 connection is incomplete - need '' @
              ''AWS_ENDPOINT_URL_S3, AWS_ACCESS_KEY_ID and AWS_SECRET_ACCESS_KEY''))
            else Inr (Some
              \<lparr>config_endpoint = the endpoint,
               config_region = (case process_env ''AWS_REGION'' of None \<Rightarrow> ''auto'' | Some r \<Rightarrow> r),
               config_bucket = the (process_env ''CERT_STORE_S3_BUCKET''),
               config_accessKeyId = the accessKeyId, config_secretAccessKey = the secretAccessKey,
               config_prefix = Some ''certs/''\<rparr>)))"

record server_options =
  opt_domain :: "string option"
  opt_acmeProvider :: "string option"
  opt_acmeAccountKey :: "string option"
  opt_certCacheDir :: "string option"
  opt_certStoreS3 :: "S3Config option"
  opt_localCaKey :: "string option"
  opt_localCaCert :: "string option"
  opt_dnsServer :: bool
  opt_proactiveCertDomains :: "string list option"
  opt_trustProxyProtocol :: bool

text \<open>What the program reads from the environment when it is run directly; without \<open>PORTS\<close> it listens on 3000.\<close>

definition options_from_env :: "(string \<Rightarrow> string option) \<Rightarrow> server_options fallible" where
  "options_from_env process_env =
     map_sum id (\<lambda>s3.
       \<lparr>opt_domain = process_env ''ROOT_DOMAIN'',
        opt_acmeProvider = process_env ''ACME_PROVIDER'',
        opt_acmeAccountKey = process_env ''ACME_ACCOUNT_KEY'',
        opt_certCacheDir = process_env ''CERT_CACHE_DIR'',
        opt_certStoreS3 = s3,
        opt_localCaKey = process_env ''LOCAL_CA_KEY'',
        opt_localCaCert = process_env ''LOCAL_CA_CERT'',
        opt_dnsServer = (process_env ''DNS_SERVER'' = Some ''true''),
        opt_proactiveCertDomains = map_option (split_seq '','') (process_env ''PROACTIVE_CERT_DOMAINS''),
        opt_trustProxyProtocol = (process_env ''TRUST_PROXY_PROTOCOL'' = Some ''true'')\<rparr>)
       (s3ConfigFromEnv process_env)"

definition listening_ports :: "(string \<Rightarrow> string option) \<Rightarrow> string list" where
  "listening_ports process_env =
     (case process_env ''PORTS'' of None \<Rightarrow> [''3000''] | Some ports \<Rightarrow> split_seq '','' ports)"

definition metrics_port :: "(string \<Rightarrow> string option) \<Rightarrow> int option" where
  "metrics_port process_env =
     (let port = (if nonempty (process_env ''METRICS_PORT'') then parse_int (the (process_env ''METRICS_PORT'')) else None)
      in if port = Some 0 then None else port)"

datatype cert_backend = NoStore | FileStore string | BucketStore S3Config

definition choose_backend :: "server_options \<Rightarrow> cert_backend fallible" where
  "choose_backend options =
     (if nonempty (opt_certCacheDir options) \<and> opt_certStoreS3 options \<noteq> None
      then Inl (JsError (''Can'' @ [CHR 0x27] @ ''t use both a local cert cache directory and an S3 cert store - '' @
        ''set only one of CERT_CACHE_DIR or CERT_STORE_S3_BUCKET''))
      else Inr (case opt_certStoreS3 options of
          Some config \<Rightarrow> BucketStore config
        | None \<Rightarrow> if nonempty (opt_certCacheDir options) then FileStore (the (opt_certCacheDir options)) else NoStore))"

text \<open>The key and certificate of the root CA.\<close>

definition ca_material :: "x509_lib \<Rightarrow> moment \<Rightarrow> server_options \<Rightarrow> string \<times> string" where
  "ca_material lib m options =
     (if nonempty (opt_localCaKey options) \<and> nonempty (opt_localCaCert options)
      then (the (opt_localCaKey options), the (opt_localCaCert options))
      else generateCACertificate lib m None None None None)"

section \<open>Start-up\<close>

text \<open>What start-up leaves: \<open>acme\<close> is the ACME CA, if one is configured, with whether DNS is served.\<close>

record tls_config =
  rootDomain_of :: string
  default_cert :: local_cert
  ca_of :: string
  local_of :: local_ca
  acme_of :: "acme option"
  dns_of :: bool

definition missing :: "string \<Rightarrow> js_exn" where
  "missing what = JsError (''Can'' @ [CHR 0x27] @ ''t enable ACME without '' @ what)"

text \<open>
  \<open>loaded\<close> is what \<open>loadCache\<close> read from the store. The DNS server and the reaping of old challenges
  start in between; they do not decide anything here.
\<close>

definition generateTlsConfig ::
    "ca_env \<Rightarrow> cert_cache \<Rightarrow> ((bytes \<times> bytes) \<times> nat) option \<Rightarrow> int \<Rightarrow> server_options \<Rightarrow> tls_config fallible" where
  "generateTlsConfig env loaded keyPair now options =
     (let rootDomain = (case opt_domain options of None \<Rightarrow> ''localhost'' | Some d \<Rightarrow> d);
          (caKey, caCert) = ca_material (env_lib env) (env_moment env) options
      in
      case choose_backend options of
        Inl e \<Rightarrow> Inl e
      | Inr backend \<Rightarrow>
          (case create_local_ca (env_lib env) (env_moment env) caKey caCert None None keyPair of
             Inl e \<Rightarrow> Inl e
           | Inr (localCA, _) \<Rightarrow>
               (case generateCertificate env localCA rootDomain [] of
                  (Inl e, _) \<Rightarrow> Inl e
                | (Inr defaultCert, localCA) \<Rightarrow>
                    let local = \<lparr>rootDomain_of = rootDomain, default_cert = defaultCert, ca_of = caCert,
                      local_of = localCA, acme_of = None, dns_of = False\<rparr>
                    in
                    if \<not> nonempty (opt_acmeProvider options) then Inr local
                    else if \<not> nonempty (opt_domain options)
                    then Inl (missing ''configuring a domain (via $ROOT_DOMAIN)'')
                    else if backend = NoStore
                    then Inl (missing ''a cert store (via $CERT_CACHE_DIR or $CERT_STORE_S3_BUCKET)'')
                    else if \<not> nonempty (opt_acmeAccountKey options)
                    then Inl (missing ''configuring an account key (via $ACME_ACCOUNT_KEY)'')
                    else (case new_acme loaded (the (opt_acmeProvider options)) of
                        Inl e \<Rightarrow> Inl e
                      | Inr acmeCA \<Rightarrow>
                          Inr (local\<lparr>acme_of := Some (snd (tryGetCertificateSync now rootDomain [] acmeCA)),
                            dns_of := opt_dnsServer options\<rparr>)))))"

section \<open>Certificates\<close>

record generated_certificate =
  gc_key :: string
  gc_cert :: string
  isTemporary :: bool

text \<open>A certificate, or the call of the ACME CA that is waited for.\<close>

datatype certificate_answer = Now "generated_certificate fallible" | Later nat

definition local_answer :: "ca_env \<Rightarrow> bool \<Rightarrow> string \<Rightarrow> options \<Rightarrow> tls_config \<Rightarrow> certificate_answer \<times> tls_config" where
  "local_answer env temporary domain options config =
     (case generateCertificate env (local_of config) domain options of
        (r, ca) \<Rightarrow>
          (Now (map_sum id (\<lambda>c. \<lparr>gc_key = lc_key c, gc_cert = lc_cert c, isTemporary = temporary\<rparr>) r),
           config\<lparr>local_of := ca\<rparr>))"

definition effective_domain :: "tls_config \<Rightarrow> string \<Rightarrow> options \<Rightarrow> string" where
  "effective_domain config domain options =
     (if dns_of config \<and> isWildcardCoverable domain (rootDomain_of config) \<and> \<not> truthy (get options ''overridePrefix'')
      then ''*.'' @ rootDomain_of config else domain)"

definition server_certificate ::
    "ca_env \<Rightarrow> int \<Rightarrow> string \<Rightarrow> options \<Rightarrow> tls_config \<Rightarrow> certificate_answer \<times> tls_config" where
  "server_certificate env now domain options config =
     (case acme_of config of
        None \<Rightarrow>
          if get options ''requiredType'' = OStr ''acme''
          then (Now (Inl (JsError (''Can'' @ [CHR 0x27] @ ''t generate cert for '' @ domain @ '' without ACME''))), config)
          else local_answer env False domain options config
      | Some acmeCA \<Rightarrow>
          if get options ''requiredType'' = OStr ''local'' then local_answer env False domain options config
          else
            (let effectiveDomain = effective_domain config domain options in
             case tryGetCertificateSync now effectiveDomain options acmeCA of
               (Some cert, acmeCA) \<Rightarrow>
                 (Now (Inr \<lparr>gc_key = key_of cert, gc_cert = cert_of cert, isTemporary = False\<rparr>),
                  config\<lparr>acme_of := Some acmeCA\<rparr>)
             | (None, acmeCA) \<Rightarrow>
                 if get options ''requiredType'' = OStr ''acme''
                 then (Later (length (calls acmeCA)), config\<lparr>acme_of := Some (waitForCertificate effectiveDomain options acmeCA)\<rparr>)
                 else local_answer env True domain options (config\<lparr>acme_of := Some acmeCA\<rparr>)))"

section \<open>Certificates for download\<close>

text \<open>
  The providers that start-up registers for \<^verbatim>\<open>/tls/certs/*\<close>, each run when it is first asked, and the
  promises that \<^verbatim>\<open>src/endpoints/http/tls-certs.ts\<close> keeps of them, resolved or rejected.
\<close>

definition downloadable_certificate :: "ca_env \<Rightarrow> tls_config \<Rightarrow> string \<Rightarrow> (string fallible \<times> tls_config) option" where
  "downloadable_certificate env config name =
     (let localCA = local_of config; kept = (\<lambda>ca. config\<lparr>local_of := ca\<rparr>) in
      map_of
       [(''untrusted-root'', (Inr (ca_of config), config)),
        (''intermediate'', map_prod id kept (getIntermediateCertificatePem env localCA)),
        (''self-signed'', map_prod (map_sum id lc_cert) kept
          (generateCertificate env localCA (rootDomain_of config) [(''selfSigned'', OBool True)])),
        (''client-cert'', map_prod (map_sum id (\<lambda>c. trim_end (lc_cert c) @ newline @ trim_end (lc_key c) @ newline)) kept
          (getClientCertificate env localCA))] name)"

type_synonym downloads = "string \<Rightarrow> string fallible option"

definition resolve_certificate ::
    "ca_env \<Rightarrow> string \<Rightarrow> downloads \<times> tls_config \<Rightarrow> string fallible option \<times> downloads \<times> tls_config" where
  "resolve_certificate env name = (\<lambda>(resolved, config).
     case downloadable_certificate env config name of
       None \<Rightarrow> (None, resolved, config)
     | Some (pem, config') \<Rightarrow>
         (case resolved name of
            Some pem \<Rightarrow> (Some pem, resolved, config)
          | None \<Rightarrow> (Some pem, resolved(name \<mapsto> pem), config')))"

text \<open>
  The first outcome for a name is the one for ever, whatever is downloaded and however the configuration
  changes afterwards: a failure is not tried again, and a client certificate is not replaced when it nears its
  expiry, although \<open>getClientCertificate\<close> would renew it.
\<close>

lemma download_kept:
  assumes "fst (resolve_certificate env name s) = Some pem"
  shows "fst (resolve_certificate env' name
    (fold (\<lambda>(env, n, config) s. snd (resolve_certificate env n (fst s, config))) later (snd (resolve_certificate env name s)))) =
    Some pem"
proof -
  have offered: "downloadable_certificate env' config' name \<noteq> None"
    if "downloadable_certificate env config name \<noteq> None" for env config env' config'
    using that by (auto simp: downloadable_certificate_def Let_def split: if_splits)
  have first: "downloadable_certificate env (snd s) name \<noteq> None" "fst (snd (resolve_certificate env name s)) name = Some pem"
    using assms by (auto simp: resolve_certificate_def split: prod.splits option.splits)
  define run where "run = fold (\<lambda>(env, n, config) s. snd (resolve_certificate env n (fst s, config)))"
  have "fst (run later s') name = Some pem" if "fst s' name = Some pem" for s'
    using that unfolding run_def
  proof (induction later arbitrary: s')
    case (Cons l later)
    obtain e n c where l: "l = (e, n, c)" by (cases l) auto
    have "fst (snd (resolve_certificate e n (fst s', c))) name = Some pem"
      using Cons.prems by (auto simp: resolve_certificate_def split: prod.splits option.splits)
    then show ?case using Cons.IH by (simp add: l)
  qed simp
  then have "fst (run later (snd (resolve_certificate env name s))) name = Some pem" using first(2) by blast
  moreover have "fst (resolve_certificate env' name t) = Some pem" if "fst t name = Some pem" for t
    using that offered [OF first(1), of env' "snd t"]
    by (auto simp: resolve_certificate_def split: prod.splits option.splits)
  ultimately show ?thesis unfolding run_def by blast
qed

section \<open>Which names a certificate covers\<close>

text \<open>A wildcard name covers a host with one more label; any other name covers itself.\<close>

definition name_covers :: "string \<Rightarrow> string \<Rightarrow> bool" where
  "name_covers name host \<longleftrightarrow>
     name = host \<or>
     (case name of
        a # b # r \<Rightarrow> a = CHR ''*'' \<and> b = CHR ''.'' \<and> (\<exists>label. host = label @ ''.'' @ r \<and> CHR ''.'' \<notin> set label)
      | _ \<Rightarrow> False)"

lemma wildcard_coverable: "isWildcardCoverable domain rootDomain \<longleftrightarrow> (\<exists>label. domain = label @ ''.'' @ rootDomain \<and> CHR ''.'' \<notin> set label)"
proof -
  have "slice_off_end (length rootDomain + 1) (label @ ''.'' @ rootDomain) = label" for label
    by (rule slice_off_end_append) simp
  then show ?thesis unfolding isWildcardCoverable_def ends_with_iff by auto
qed

lemma effective_covers: "name_covers (effective_domain config domain options) domain"
  using wildcard_coverable by (auto simp: effective_domain_def name_covers_def)

section \<open>What the configuration decides\<close>

text \<open>
  With a usable CA the server starts exactly when it is not given two certificate stores and,
  when an ACME provider is named, the provider is supported and domain, store and account key are
  there; it uses ACME exactly when a provider is named.
\<close>

theorem startup_accepts:
  assumes "create_local_ca (env_lib env) (env_moment env) (fst (ca_material (env_lib env) (env_moment env) options))
      (snd (ca_material (env_lib env) (env_moment env) options)) None None keyPair = Inr (localCA, keys)"
    and "generateCertificate env localCA (case opt_domain options of None \<Rightarrow> ''localhost'' | Some d \<Rightarrow> d) [] = (Inr cert, localCA')"
  shows "(\<exists>config. generateTlsConfig env loaded keyPair now options = Inr config \<and>
      (acme_of config \<noteq> None) = nonempty (opt_acmeProvider options)) \<longleftrightarrow>
    \<not> (nonempty (opt_certCacheDir options) \<and> opt_certStoreS3 options \<noteq> None) \<and>
    (\<not> nonempty (opt_acmeProvider options) \<or>
      opt_acmeProvider options \<in> Some ` set SUPPORTED_ACME_PROVIDERS \<and> nonempty (opt_domain options) \<and>
      nonempty (opt_acmeAccountKey options) \<and> (nonempty (opt_certCacheDir options) \<or> opt_certStoreS3 options \<noteq> None))"
proof -
  have provider: "nonempty p \<Longrightarrow> p \<in> Some ` set SUPPORTED_ACME_PROVIDERS \<longleftrightarrow> the p \<in> set SUPPORTED_ACME_PROVIDERS" for p
    by (cases p) (auto simp: nonempty_def)
  show ?thesis
    using assms provider [of "opt_acmeProvider options"]
    by (auto simp: generateTlsConfig_def choose_backend_def new_acme_def Let_def split: prod.splits option.splits if_splits)
qed

definition sample_options :: server_options where
  "sample_options =
     \<lparr>opt_domain = Some ''a.io'', opt_acmeProvider = None, opt_acmeAccountKey = None, opt_certCacheDir = None,
      opt_certStoreS3 = None, opt_localCaKey = Some ''KEY'', opt_localCaCert = Some ''ROOT'', opt_dnsServer = False,
      opt_proactiveCertDomains = None, opt_trustProxyProtocol = False\<rparr>"

theorem startup_accepts_witness:
  "(\<exists>config. generateTlsConfig sample_env (\<lambda>_. None) None 0 sample_options = Inr config \<and> acme_of config = None) \<and>
   \<not> (\<exists>config. generateTlsConfig sample_env (\<lambda>_. None) None 0 (sample_options\<lparr>opt_acmeProvider := Some ''google''\<rparr>) = Inr config \<and>
     acme_of config \<noteq> None)"
proof -
  have ca: "\<exists>ca keys. create_local_ca (env_lib sample_env) (env_moment sample_env) ''KEY'' ''ROOT'' None None None = Inr (ca, keys) \<and>
      memory_certs ca = (\<lambda>_. None)"
    by (simp add: create_local_ca_def sample_env_def sample_lib_def Let_def)
  then obtain ca keys where ca: "create_local_ca (env_lib sample_env) (env_moment sample_env) ''KEY'' ''ROOT'' None None None = Inr (ca, keys)"
      "memory_certs ca = (\<lambda>_. None)" by blast
  have domain: "certifiable_domain ''a.io'' = Inr ''a.io''" by code_simp
  have inter: "memory_certs (snd (getIntermediateCA sample_env ca)) = (\<lambda>_. None)" using getIntermediate_memory ca(2) by simp
  have "intermediateCA ca = None"
    using ca(1) by (auto simp: create_local_ca_def Let_def split: option.splits)
  then have "\<exists>i ca'. getIntermediateCA sample_env ca = (Inr i, ca')"
    by (simp add: getIntermediateCA_def sample_env_def Let_def)
  then have "\<exists>cert ca'. generateCertificate sample_env ca ''a.io'' [] = (Inr cert, ca')"
    using ca(2) by (auto simp: generateCertificate_def domain get_def map_prod_def split: prod.splits)
  then obtain cert ca' where cert: "generateCertificate sample_env ca ''a.io'' [] = (Inr cert, ca')" by blast
  have plain: "ca_material lib m sample_options = (''KEY'', ''ROOT'')"
      "ca_material lib m (sample_options\<lparr>opt_acmeProvider := p\<rparr>) = (''KEY'', ''ROOT'')" for lib m p
    by (simp_all add: ca_material_def sample_options_def nonempty_def)
  show ?thesis
    using startup_accepts [of sample_env sample_options None ca keys cert ca' "\<lambda>_. None" 0] ca(1) cert plain
      startup_accepts [of sample_env "sample_options\<lparr>opt_acmeProvider := Some ''google''\<rparr>" None ca keys cert ca' "\<lambda>_. None" 0]
    by (simp add: sample_options_def nonempty_def)
qed

lemma local_answer_Now:
  assumes "local_answer env temporary domain options config = (Now (Inr c), config')"
  shows "\<exists>l. fst (generateCertificate env (local_of config) domain options) = Inr l \<and>
    gc_key c = lc_key l \<and> gc_cert c = lc_cert l \<and> isTemporary c = temporary"
  using assms by (auto simp: local_answer_def map_sum_def split: prod.splits sum.splits)

text \<open>
  C8: A certificate for a host is the local CA's, marked temporary exactly when an ACME certificate
  could take its place, or a cached ACME certificate that was ordered for a name covering the host;
  a host that needs the local CA never gets the latter, and one that needs ACME never the former.
\<close>

theorem certificate_source:
  assumes "server_certificate env now domain options config = (Now (Inr c), config')"
  shows "(\<exists>l. fst (generateCertificate env (local_of config) domain options) = Inr l \<and>
      gc_key c = lc_key l \<and> gc_cert c = lc_cert l \<and> get options ''requiredType'' \<noteq> OStr ''acme'' \<and>
      isTemporary c = (acme_of config \<noteq> None \<and> get options ''requiredType'' \<noteq> OStr ''local'')) \<or>
    (\<exists>acmeCA m name. acme_of config = Some acmeCA \<and> memory acmeCA (calculateCertCacheKey name options) = Some m \<and>
      name_covers name domain \<and> get options ''requiredType'' \<noteq> OStr ''local'' \<and>
      gc_key c = key_of m \<and> gc_cert c = cert_of m \<and> \<not> isTemporary c)"
proof (cases "acme_of config")
  case None
  then have "get options ''requiredType'' \<noteq> OStr ''acme''" "local_answer env False domain options config = (Now (Inr c), config')"
    using assms by (auto simp: server_certificate_def split: if_splits)
  then show ?thesis using local_answer_Now None by fastforce
next
  case (Some acmeCA)
  let ?name = "effective_domain config domain options"
  obtain hit acme' where sync: "tryGetCertificateSync now ?name options acmeCA = (hit, acme')" by force
  consider "get options ''requiredType'' = OStr ''local''" | "get options ''requiredType'' \<noteq> OStr ''local''" "hit = None"
    | cert where "get options ''requiredType'' \<noteq> OStr ''local''" "hit = Some cert" by (cases hit) auto
  then show ?thesis
  proof cases
    case 1
    then have "local_answer env False domain options config = (Now (Inr c), config')"
      using assms Some by (simp add: server_certificate_def)
    then show ?thesis using local_answer_Now 1 by fastforce
  next
    case 2
    then have "get options ''requiredType'' \<noteq> OStr ''acme''"
      "local_answer env True domain options (config\<lparr>acme_of := Some acme'\<rparr>) = (Now (Inr c), config')"
      using assms Some sync by (auto simp: server_certificate_def Let_def split: if_splits)
    then show ?thesis using local_answer_Now [of env True domain options "config\<lparr>acme_of := Some acme'\<rparr>"] 2 Some by simp
  next
    case (3 cert)
    then have "c = \<lparr>gc_key = key_of cert, gc_cert = cert_of cert, isTemporary = False\<rparr>"
      using assms Some sync by (simp add: server_certificate_def Let_def)
    moreover have "memory acmeCA (calculateCertCacheKey ?name options) = Some cert"
      using sync 3 by (auto simp: tryGetCertificateSync_def getCert_def split: option.splits if_splits)
    ultimately show ?thesis using Some 3 effective_covers by fastforce
  qed
qed

definition sample_config_acme :: tls_config where
  "sample_config_acme =
     \<lparr>rootDomain_of = ''a.io'', default_cert = \<lparr>lc_key = ''K'', lc_cert = ''C'', lc_ca = ''ROOT''\<rparr>, ca_of = ''ROOT'',
      local_of = sample_local_ca, acme_of = Some loaded_start, dns_of = False\<rparr>"

theorem certificate_source_witness:
  "\<exists>acmeCA m name. acme_of sample_config_acme = Some acmeCA \<and> memory acmeCA (calculateCertCacheKey name []) = Some m \<and>
    name_covers name ''a.io'' \<and> ''K'' = key_of m \<and> ''C'' = cert_of m"
proof -
  have "fst (server_certificate sample_env 5 ''a.io'' [] sample_config_acme) =
      Now (Inr \<lparr>gc_key = ''K'', gc_cert = ''C'', isTemporary = False\<rparr>)"
    by (simp add: server_certificate_def sample_config_acme_def effective_domain_def get_def tryGetCertificateSync_def
        getCert_def sample_key loaded_start_def loaded_cert_def wants_expired_def Let_def)
  then obtain config' where now: "server_certificate sample_env 5 ''a.io'' [] sample_config_acme =
      (Now (Inr \<lparr>gc_key = ''K'', gc_cert = ''C'', isTemporary = False\<rparr>), config')" by (metis prod.collapse)
  show ?thesis using certificate_source [OF now] by (auto simp: sample_config_acme_def get_def)
qed

end
