(* ===== verification/Tls_Handler.thy ===== *)
theory Tls_Handler
  imports Server Secure_Context_Cache "HOL-Library.List_Lexorder" "HOL-Library.Char_ord"
begin

text \<open>
  \<^verbatim>\<open>src/tls-handler.ts\<close>: from the server name of a client hello to the TLS context of the
  connection. The plan of a connection is what is computed before the context cache is asked. When
  it misses, a certificate is made (or waited for, when only ACME can give one) and a context is
  built from it and stored. Node's \<open>createSecureContext\<close> and its X.509 parser are parameters.
\<close>

section \<open>The key of a context\<close>

fun opt_json :: "optval \<Rightarrow> json" where
  "opt_json OUndef = JUndefined"
| "opt_json (OBool b) = JBool b"
| "opt_json (ONum n) = JNum n"
| "opt_json (OStr s) = JStr s"
| "opt_json (OFlags w) = JNum (uint w)"
| "opt_json (OVersion v) = JStr (version_str v)"
| "opt_json (OVersions vs) = JArr (map (JStr \<circ> version_str) vs)"

text \<open>\<open>JSON.stringify(tlsOptions, Object.keys(tlsOptions).sort())\<close>: the replacer gives the order.\<close>

definition sorted_options :: "options \<Rightarrow> (string \<times> json) list" where
  "sorted_options tls = map (\<lambda>k. (k, opt_json (get tls k))) (sort (remdups (map fst tls)))"

definition calculateContextCacheKey :: "string \<Rightarrow> options \<Rightarrow> options \<Rightarrow> string" where
  "calculateContextCacheKey domain options tls =
     calculateCertCacheKey domain options @
     (if truthy (get options ''incompleteChain'') then ''|incomplete-chain'' else []) @
     (if tls \<noteq> [] then ''|'' @ stringify (JObj (sorted_options tls)) else [])"

section \<open>Connections\<close>

definition DEFAULT_ALPN_PROTOCOLS :: "string list" where
  "DEFAULT_ALPN_PROTOCOLS = [''http/1.1'', ''h2'']"

record tls_plan =
  plan_parts :: "string list"
  plan_config :: endpoint_config
  plan_domain :: string
  plan_key :: string

text \<open>\<open>None\<close> is a connection that is refused on purpose; an exception also ends it.\<close>

definition connection_plan :: "string \<Rightarrow> string option \<Rightarrow> tls_plan option fallible" where
  "connection_plan rootDomain serverName =
     (let domain = (if nonempty serverName then the serverName else rootDomain);
          serverNameParts = getSNIPrefixParts domain rootDomain
      in case getEndpointConfig serverNameParts of
           Inl e \<Rightarrow> Inl e
         | Inr config \<Rightarrow>
             if rejectTls config then Inr None
             else
               (let prefix = get (certOptions config) ''overridePrefix'';
                    certDomain = (if truthy prefix then opt_text prefix @ ''.'' @ rootDomain else domain)
                in Inr (Some
                  \<lparr>plan_parts = serverNameParts, plan_config = config, plan_domain = certDomain,
                   plan_key = calculateContextCacheKey certDomain (certOptions config) (tlsOptions config) @
                     (if requireClientCert config then ''|client-cert'' else [])\<rparr>)))"

record context_options =
  co_key :: string
  co_cert :: string
  co_ca :: "string option"
  co_tls :: options

record 'c tls_lib =
  createSecureContext :: "context_options \<Rightarrow> 'c fallible"
  validTo :: "string \<Rightarrow> int fallible"

text \<open>The factory of the context cache, after the certificate is there: a context and its expiry.\<close>

definition create_context ::
    "'c tls_lib \<Rightarrow> ca_env \<Rightarrow> int \<Rightarrow> endpoint_config \<Rightarrow> generated_certificate \<Rightarrow> tls_config \<Rightarrow> ('c \<times> int) fallible \<times> tls_config" where
  "create_context lib env now config cert server =
     (case (if truthy (get (certOptions config) ''incompleteChain'') then extractLeafCertificate (gc_cert cert)
            else Inr (gc_cert cert)) of
        Inl e \<Rightarrow> (Inl e, server)
      | Inr servedCert \<Rightarrow>
          (let (clientAuthCa, server') =
             (if requireClientCert config
              then (case getClientAuthCaCertPem env (local_of server) of (r, ca) \<Rightarrow> (map_sum id Some r, server\<lparr>local_of := ca\<rparr>))
              else (Inr None, server))
           in
           case clientAuthCa of
             Inl e \<Rightarrow> (Inl e, server')
           | Inr ca \<Rightarrow>
               (case createSecureContext lib
                   \<lparr>co_key = gc_key cert, co_cert = servedCert, co_ca = ca, co_tls = tlsOptions config\<rparr> of
                  Inl e \<Rightarrow> (Inl e, server')
                | Inr context \<Rightarrow>
                    (if isTemporary cert then Inr (context, now + 5000) else map_sum id (Pair context) (validTo lib servedCert),
                     server'))))"

text \<open>The options of the TLS socket: its context, protocols, and whether a client certificate or OCSP is wanted.\<close>

record 'c tls_socket =
  ts_context :: 'c
  ts_alpn :: "string list"
  ts_requestCert :: bool
  ts_ocsp :: bool
  ts_label :: string

definition secure_socket :: "tls_plan \<Rightarrow> bool \<Rightarrow> 'c \<Rightarrow> 'c tls_socket" where
  "secure_socket plan clientRequestedOCSP context =
     \<lparr>ts_context = context,
      ts_alpn = (if alpnPreferences (plan_config plan) \<noteq> [] then alpnPreferences (plan_config plan) else DEFAULT_ALPN_PROTOCOLS),
      ts_requestCert = requireClientCert (plan_config plan),
      ts_ocsp = clientRequestedOCSP,
      ts_label = (if plan_parts plan \<noteq> [] then join ''--'' (plan_parts plan) else ''default'')\<rparr>"

record 'c tls_handler =
  server :: tls_config
  contexts :: "'c context_cache"

text \<open>\<open>Waiting\<close> for a call of the ACME CA; \<open>Hung\<close> is an eviction that never ends.\<close>

datatype 'c tls_outcome = Destroyed | Secured "'c tls_socket" | Waiting nat | Hung

text \<open>The end of the factory: \<open>started\<close> is when the cache was asked, \<open>now\<close> when the certificate was there.\<close>

definition finish_handshake ::
    "'c tls_lib \<Rightarrow> ca_env \<Rightarrow> int \<Rightarrow> int \<Rightarrow> tls_plan \<Rightarrow> bool \<Rightarrow> generated_certificate fallible \<Rightarrow> 'c tls_handler \<Rightarrow>
      'c tls_outcome \<times> 'c tls_handler" where
  "finish_handshake lib env started now plan ocsp outcome h =
     (case outcome of
        Inl e \<Rightarrow> (Destroyed, h)
      | Inr cert \<Rightarrow>
          (case create_context lib env now (plan_config plan) cert (server h) of
             (Inl e, config) \<Rightarrow> (Destroyed, h\<lparr>server := config\<rparr>)
           | (Inr (context, expiry), config) \<Rightarrow>
               (case store_context DEFAULT_MAX_SIZE started (plan_key plan) context expiry (contexts h) of
                  None \<Rightarrow> (Hung, h\<lparr>server := config\<rparr>)
                | Some cache \<Rightarrow> (Secured (secure_socket plan ocsp context), h\<lparr>server := config, contexts := cache\<rparr>))))"

definition handleConnection ::
    "'c tls_lib \<Rightarrow> ca_env \<Rightarrow> int \<Rightarrow> string option \<Rightarrow> bool \<Rightarrow> 'c tls_handler \<Rightarrow> 'c tls_outcome \<times> 'c tls_handler" where
  "handleConnection lib env now serverName ocsp h =
     (case connection_plan (rootDomain_of (server h)) serverName of
        Inl e \<Rightarrow> (Destroyed, h)
      | Inr None \<Rightarrow> (Destroyed, h)
      | Inr (Some plan) \<Rightarrow>
          (case lookup now (plan_key plan) (contexts h) of
             (Some context, cache) \<Rightarrow> (Secured (secure_socket plan ocsp context), h\<lparr>contexts := cache\<rparr>)
           | (None, cache) \<Rightarrow>
               (case server_certificate env now (plan_domain plan) (certOptions (plan_config plan)) (server h) of
                  (Later i, config) \<Rightarrow> (Waiting i, h\<lparr>server := config, contexts := cache\<rparr>)
                | (Now outcome, config) \<Rightarrow>
                    finish_handshake lib env now now plan ocsp outcome (h\<lparr>server := config, contexts := cache\<rparr>))))"

text \<open>The listener of Node's OCSP event: an error is logged, and the certificate is not stapled.\<close>

definition on_ocsp_request ::
    "asn1_lib \<Rightarrow> ca_env \<Rightarrow> (bytes \<Rightarrow> x509 \<Rightarrow> bool) \<Rightarrow> 'c tls_handler \<Rightarrow> bytes \<Rightarrow> bytes option" where
  "on_ocsp_request asn1 env signed_by h certificate =
     (case getOcspResponse asn1 env signed_by (local_of (server h)) certificate of Inl e \<Rightarrow> None | Inr r \<Rightarrow> r)"

text \<open>
  The daily check of \<open>proactivelyRefreshDomains\<close>: the certificates it asks for, and the exception
  at the first domain whose parts are not valid.
\<close>

fun refresh_targets :: "string \<Rightarrow> string list \<Rightarrow> (string \<times> options) list \<times> js_exn option" where
  "refresh_targets rootDomain [] = ([], None)"
| "refresh_targets rootDomain (domain # domains) =
     (case getEndpointConfig (getSNIPrefixParts domain rootDomain) of
        Inl e \<Rightarrow> ([], Some e)
      | Inr config \<Rightarrow> map_prod (Cons (domain, certOptions config)) id (refresh_targets rootDomain domains))"

section \<open>What a key says\<close>

lemma stringify_obj_ends: "\<exists>t. stringify (JObj fs) = CHR ''{'' # t @ [CHR ''}'']"
  by simp

lemma cert_key_chars:
  assumes "CHR ''|'' \<notin> set domain" and "cert_typed options" and "CHR ''|'' \<notin> set (opt_text (get options ''overridePrefix''))"
  shows "CHR ''|'' \<notin> set (calculateCertCacheKey domain options)"
proof -
  have bits: "CHR ''|'' \<notin> set (opt_text (get options ''keyBits''))" if "truthy (get options ''keyBits'')"
    using that assms(2) nat_str_no_char [of "CHR ''|''"] by (auto simp: cert_typed_def int_str_def is_digit_def split: optval.splits)
  have flag: "CHR ''|'' \<notin> set k" if "k \<in> set cert_flags" for k using that by (auto simp: cert_flags_def)
  have part: "CHR ''|'' \<notin> set p" if "p \<in> set (key_parts options)" for p
    using that assms(3) bits flag by (auto simp: key_parts_def split: if_splits)
  have "CHR ''|'' \<notin> set (join ''+'' (key_parts options))" using set_join [of "''+''" "key_parts options"] part by auto
  then show ?thesis using assms(1) by (simp add: calculateCertCacheKey_def)
qed

lemma bar_split: "CHR ''|'' \<notin> set x \<Longrightarrow> CHR ''|'' \<notin> set y \<Longrightarrow> x @ r = y @ s \<Longrightarrow>
    (r = [] \<or> hd r = CHR ''|'') \<Longrightarrow> (s = [] \<or> hd s = CHR ''|'') \<Longrightarrow> x = y \<and> r = s"
proof (induction x arbitrary: y)
  case Nil
  then show ?case by (cases y) auto
next
  case (Cons c x)
  then show ?case by (cases y) auto
qed

definition chain_key :: "options \<Rightarrow> string" where
  "chain_key options = (if truthy (get options ''incompleteChain'') then ''|incomplete-chain'' else [])"

definition tls_key :: "options \<Rightarrow> string" where
  "tls_key tls = (if tls \<noteq> [] then ''|'' @ stringify (JObj (sorted_options tls)) else [])"

definition client_key :: "bool \<Rightarrow> string" where
  "client_key required = (if required then ''|client-cert'' else [])"

lemma tls_key_cases: "tls_key t = [] \<or> (\<exists>u. tls_key t = ''|{'' @ u @ ''}'')"
  using stringify_obj_ends [of "sorted_options t"] by (auto simp: tls_key_def)

lemma suffix_unique:
  assumes "chain_key o1 @ tls_key t1 @ client_key r1 = chain_key o2 @ tls_key t2 @ client_key r2"
  shows "truthy (get o1 ''incompleteChain'') = truthy (get o2 ''incompleteChain'') \<and> tls_key t1 = tls_key t2 \<and> r1 = r2"
proof -
  have start: "hd (tl (tls_key t @ client_key r @ ''|x'')) \<noteq> CHR ''i''" for t r
    using tls_key_cases [of t] by (auto simp: client_key_def)
  have chain: "truthy (get o1 ''incompleteChain'') = truthy (get o2 ''incompleteChain'')"
    using arg_cong [OF assms, of "\<lambda>x. hd (tl (x @ ''|x''))"] start [of t1 r1] start [of t2 r2]
    by (auto simp: chain_key_def split: if_splits)
  then have rest: "tls_key t1 @ client_key r1 = tls_key t2 @ client_key r2"
    using assms by (auto simp: chain_key_def split: if_splits)
  have last: "last (''}'' @ tls_key t @ client_key r) = (if r then CHR ''t'' else CHR ''}'')" for t r
    using tls_key_cases [of t] by (auto simp: client_key_def)
  have "r1 = r2" using arg_cong [OF rest, of "\<lambda>x. last (''}'' @ x)"] last [of t1 r1] last [of t2 r2]
    by (simp split: if_splits)
  then show ?thesis using chain rest by simp
qed

text \<open>Equal texts of the TLS options are equal options, up to the form in which JSON writes them.\<close>

fun unparsed :: "parsed \<Rightarrow> json" where
  "unparsed (PBool b) = JBool b"
| "unparsed (PNum x) = JNum \<lfloor>x\<rfloor>"
| "unparsed (PStr s) = JStr s"
| "unparsed (PArr vs) = JArr (map (\<lambda>v. case v of PStr s \<Rightarrow> JStr s | _ \<Rightarrow> JNull) vs)"
| "unparsed _ = JUndefined"

lemma unparsed_opt: "unparsed (of_json (opt_json v)) = opt_json v"
proof (cases v)
  case (OFlags w)
  then show ?thesis by (simp only: opt_json.simps of_json.simps unparsed.simps floor_of_int)
qed (simp_all add: comp_def)

lemma of_json_opt: "of_json (opt_json v) = of_json (opt_json w) \<Longrightarrow> opt_json v = opt_json w"
  by (metis unparsed_opt)

lemma opt_json_undefined: "of_json (opt_json v) = PNull \<longleftrightarrow> v = OUndef" "defined (opt_json v) \<longleftrightarrow> v \<noteq> OUndef"
  by (cases v; simp)+

definition parsed_options :: "options \<Rightarrow> (string \<times> parsed) list" where
  "parsed_options t = map (\<lambda>(k, v). (k, of_json v)) (filter (\<lambda>(k, v). defined v) (sorted_options t))"

lemma parsed_options_get:
  "map_of (parsed_options t) k = (if get t k = OUndef then None else Some (of_json (opt_json (get t k))))"
proof -
  let ?ks = "sort (remdups (map fst t))"
  have "parsed_options t = map (\<lambda>k. (k, of_json (opt_json (get t k)))) (filter (\<lambda>k. get t k \<noteq> OUndef) ?ks)"
    by (simp add: parsed_options_def sorted_options_def filter_map comp_def opt_json_undefined)
  moreover have "map_of (map (\<lambda>k. (k, f k)) ks) k = (if k \<in> set ks then Some (f k) else None)" for f :: "string \<Rightarrow> parsed" and ks
    by (induction ks) auto
  moreover have "get t k \<noteq> OUndef \<Longrightarrow> k \<in> fst ` set t"
    by (cases "map_of t k") (auto simp: get_def map_of_eq_None_iff dest: map_of_SomeD intro: rev_image_eqI)
  ultimately show ?thesis by auto
qed

lemma tls_key_options:
  assumes "tls_key t1 = tls_key t2"
  shows "opt_json (get t1 k) = opt_json (get t2 k)"
proof -
  have "map_of (parsed_options t1) k = map_of (parsed_options t2) k"
  proof (cases "t1 = []")
    case True
    then have "t2 = []" using assms by (simp add: tls_key_def split: if_splits)
    then show ?thesis using True by simp
  next
    case False
    then have "stringify (JObj (sorted_options t1)) = stringify (JObj (sorted_options t2))"
      using assms unfolding tls_key_def by (auto split: if_splits simp del: stringify.simps)
    then have "of_json (JObj (sorted_options t1)) = of_json (JObj (sorted_options t2))"
      using json_roundtrip by (metis option.inject)
    then show ?thesis by (simp add: parsed_options_def)
  qed
  then show ?thesis
    using of_json_opt [of "get t1 k" "get t2 k"] opt_json_undefined(1) unfolding parsed_options_get
    by (auto split: if_splits)
qed

section \<open>The certificate options of a host\<close>

definition cert_entry_ok :: "string \<times> optval \<Rightarrow> bool" where
  "cert_entry_ok = (\<lambda>(k, v). case v of
     OBool b \<Rightarrow> k \<noteq> ''overridePrefix'' \<and> k \<noteq> ''keyBits''
   | OStr s \<Rightarrow> k = ''requiredType'' \<or> (k = ''overridePrefix'' \<and> s = ''example'')
   | ONum n \<Rightarrow> k = ''keyBits'' \<and> 0 \<le> n
   | _ \<Rightarrow> False)"

lemma endpoint_cert_entries:
  "list_all (\<lambda>cs. list_all cert_entry_ok (opt_entries cs)) (map configureCertOptions tlsEndpoints)"
  by (simp add: tlsEndpoints_def tls_endpoint_defs cert_entry_ok_def)

lemma endpoint_cert_values:
  assumes "e \<in> set tlsEndpoints" and "(k, v) \<in> set (opt_entries (configureCertOptions e))"
  shows "cert_entry_ok (k, v)"
  using endpoint_cert_entries assms by (auto simp: list_all_iff)

lemma cert_value_source:
  assumes "getEndpointConfig parts = Inr c" and "k \<noteq> ''enabledVersions''" and "k \<noteq> ''securityLevel''"
    and "get (certOptions c) k \<noteq> OUndef"
  obtains e where "e \<in> set tlsEndpoints" and "(k, get (certOptions c) k) \<in> set (opt_entries (configureCertOptions e))"
proof -
  obtain cert where cert: "merge_entries [] (cert_entries parts) = Inr cert" "certOptions c = cert"
    using assms(1) by (auto simp: getEndpointConfig_Inr config_of_def)
  have val: "get (certOptions c) k = combined k (field_values k (cert_entries parts))"
    using merge_entries_get [OF entries_typed(2) cert(1)] cert(2) by simp
  then have "field_values k (cert_entries parts) \<noteq> []" using assms(4) by (auto simp: combined_def)
  then have "get (certOptions c) k \<in> set (field_values k (cert_entries parts))"
    using val assms(2,3) by (simp add: combined_def)
  then have "(k, get (certOptions c) k) \<in> set (cert_entries parts)" by (simp add: field_values_iff)
  then show ?thesis
    using that find_tls_endpoint_mem by (fastforce simp: cert_entries_def split: Option.bind_splits)
qed

lemma host_cert_options:
  assumes "getEndpointConfig parts = Inr c"
  shows "cert_typed (certOptions c)" and "get (certOptions c) ''overridePrefix'' \<in> {OUndef, OStr ''example''}"
proof -
  have val: "get (certOptions c) k = OUndef \<or> cert_entry_ok (k, get (certOptions c) k)"
    if "k \<noteq> ''enabledVersions''" "k \<noteq> ''securityLevel''" for k
    using cert_value_source [OF assms that] endpoint_cert_values by metis
  have flag: "get (certOptions c) k = OUndef \<or> (\<exists>b. get (certOptions c) k = OBool b)" if "k \<in> set cert_flags" for k
  proof -
    have "k \<noteq> ''enabledVersions''" "k \<noteq> ''securityLevel''" "k \<noteq> ''requiredType''" "k \<noteq> ''overridePrefix''" "k \<noteq> ''keyBits''"
      using that by (auto simp: cert_flags_def)
    then show ?thesis using val [of k] by (auto simp: cert_entry_ok_def split: optval.splits)
  qed
  have override: "get (certOptions c) ''overridePrefix'' = OUndef \<or> get (certOptions c) ''overridePrefix'' = OStr ''example''"
    using val [of "''overridePrefix''"] by (auto simp: cert_entry_ok_def split: optval.splits)
  have bits: "get (certOptions c) ''keyBits'' = OUndef \<or> (\<exists>n. get (certOptions c) ''keyBits'' = ONum n \<and> 0 \<le> n)"
    using val [of "''keyBits''"] by (auto simp: cert_entry_ok_def split: optval.splits)
  show "cert_typed (certOptions c)"
    unfolding cert_typed_def list_all_iff using flag override bits by (fastforce split: optval.splits)
  show "get (certOptions c) ''overridePrefix'' \<in> {OUndef, OStr ''example''}" using override by simp
qed

text \<open>
  C13: Two connections share a TLS context only when they ask for the same certificate domain, the
  same certificate flags, prefix and key size, the same presentation of the chain, the same TLS
  options and the same client authentication.
\<close>

theorem shared_contexts_agree:
  assumes "connection_plan rootDomain s1 = Inr (Some p1)" and "connection_plan rootDomain s2 = Inr (Some p2)"
    and "plan_key p1 = plan_key p2"
    and "set (plan_domain p1) \<inter> set ''+|'' = {}" and "set (plan_domain p2) \<inter> set ''+|'' = {}"
  shows "plan_domain p1 = plan_domain p2 \<and>
    same_certificate (certOptions (plan_config p1)) (certOptions (plan_config p2)) \<and>
    truthy (get (certOptions (plan_config p1)) ''incompleteChain'') = truthy (get (certOptions (plan_config p2)) ''incompleteChain'') \<and>
    requireClientCert (plan_config p1) = requireClientCert (plan_config p2) \<and>
    (\<forall>k. opt_json (get (tlsOptions (plan_config p1)) k) = opt_json (get (tlsOptions (plan_config p2)) k))"
proof -
  let ?o1 = "certOptions (plan_config p1)" and ?o2 = "certOptions (plan_config p2)"
  have plan: "cert_typed (certOptions (plan_config p)) \<and>
      CHR ''|'' \<notin> set (calculateCertCacheKey (plan_domain p) (certOptions (plan_config p))) \<and>
      plan_key p = calculateCertCacheKey (plan_domain p) (certOptions (plan_config p)) @
        chain_key (certOptions (plan_config p)) @ tls_key (tlsOptions (plan_config p)) @ client_key (requireClientCert (plan_config p))"
    if p: "connection_plan rootDomain s = Inr (Some p)" "set (plan_domain p) \<inter> set ''+|'' = {}" for s p
  proof -
    obtain parts where parts: "getEndpointConfig parts = Inr (plan_config p)"
      and key: "plan_key p = calculateContextCacheKey (plan_domain p) (certOptions (plan_config p)) (tlsOptions (plan_config p)) @
        client_key (requireClientCert (plan_config p))"
      using p(1) by (fastforce simp: connection_plan_def Let_def client_key_def split: sum.splits if_splits)
    have "CHR ''|'' \<notin> set (opt_text (get (certOptions (plan_config p)) ''overridePrefix''))"
      using host_cert_options(2) [OF parts] by auto
    then show ?thesis
      using cert_key_chars [OF _ host_cert_options(1) [OF parts]] p(2) host_cert_options(1) [OF parts] key
      by (simp add: calculateContextCacheKey_def chain_key_def tls_key_def del: stringify.simps)
  qed
  note p1 = plan [OF assms(1,4)] and p2 = plan [OF assms(2,5)]
  have bar: "u = [] \<or> hd u = CHR ''|''" if "u = chain_key opts @ tls_key t @ client_key r" for u opts t r
    using tls_key_cases [of t] by (auto simp: that chain_key_def client_key_def)
  have "calculateCertCacheKey (plan_domain p1) ?o1 = calculateCertCacheKey (plan_domain p2) ?o2 \<and>
      chain_key ?o1 @ tls_key (tlsOptions (plan_config p1)) @ client_key (requireClientCert (plan_config p1)) =
      chain_key ?o2 @ tls_key (tlsOptions (plan_config p2)) @ client_key (requireClientCert (plan_config p2))"
    by (rule bar_split) (use p1 p2 assms(3) bar in auto)
  then show ?thesis
    using cert_key_eq [of "plan_domain p1" "plan_domain p2" ?o1 ?o2] p1 p2 assms(4,5)
      suffix_unique [of ?o1 _ _ ?o2] tls_key_options [of "tlsOptions (plan_config p1)" "tlsOptions (plan_config p2)"]
    by (simp add: disjoint_iff) blast
qed

section \<open>Reusing contexts\<close>

lemma lookup_update:
  "map_of c key = Some e \<Longrightarrow> expires e > now \<Longrightarrow> fst (lookup now key c) = Some (context_of e)"
  by (simp add: lookup_def)

lemma lookup_again: "lookup now key c = (Some context, c') \<Longrightarrow> fst (lookup now key c') = Some context"
  by (auto simp: lookup_def update_conv' split: option.splits if_splits)

lemma stored_entry:
  "store_context n started key context expiry c = Some c' \<Longrightarrow>
    map_of c' key = Some \<lparr>context_of = context, expires = max_expiry started expiry\<rparr>"
  by (auto simp: store_context_def update_conv')

lemma max_expiry_later: "started < max_expiry started expiry"
  by (simp add: max_expiry_def ONE_DAY_def)

lemma root_kept [simp]:
  "rootDomain_of (snd (local_answer env tmp d opts config)) = rootDomain_of config"
  "rootDomain_of (snd (server_certificate env now d opts config)) = rootDomain_of config"
  "rootDomain_of (snd (create_context lib env now ec cert config)) = rootDomain_of config"
proof -
  show *: "rootDomain_of (snd (local_answer env tmp d opts config)) = rootDomain_of config" for tmp config
    by (simp add: local_answer_def split: prod.split)
  show "rootDomain_of (snd (server_certificate env now d opts config)) = rootDomain_of config"
    by (simp add: server_certificate_def * Let_def split: option.split prod.split)
  show "rootDomain_of (snd (create_context lib env now ec cert config)) = rootDomain_of config"
  proof -
    obtain r config' where made: "create_context lib env now ec cert config = (r, config')" by force
    then have "rootDomain_of config' = rootDomain_of config"
      by (auto simp: create_context_def Let_def split: sum.splits prod.splits if_splits)
    then show ?thesis using made by simp
  qed
qed

lemma finish_secured:
  assumes "finish_handshake lib env started now plan ocsp outcome h = (Secured s, h1)"
  shows "\<exists>expiry cert. outcome = Inr cert \<and>
      map_of (contexts h1) (plan_key plan) = Some \<lparr>context_of = ts_context s, expires = max_expiry started expiry\<rparr> \<and>
      (isTemporary cert \<longrightarrow> expiry = now + 5000)"
    and "rootDomain_of (server h1) = rootDomain_of (server h)"
proof -
  obtain cert ctx expiry config cache where made: "outcome = Inr cert"
      "create_context lib env now (plan_config plan) cert (server h) = (Inr (ctx, expiry), config)"
      "store_context DEFAULT_MAX_SIZE started (plan_key plan) ctx expiry (contexts h) = Some cache"
      "s = secure_socket plan ocsp ctx" "h1 = h\<lparr>server := config, contexts := cache\<rparr>"
    using assms by (auto simp: finish_handshake_def split: sum.splits prod.splits option.splits)
  have "isTemporary cert \<Longrightarrow> expiry = now + 5000"
    using made(2) by (auto simp: create_context_def Let_def split: sum.splits prod.splits if_splits)
  then show "\<exists>expiry cert. outcome = Inr cert \<and>
      map_of (contexts h1) (plan_key plan) = Some \<lparr>context_of = ts_context s, expires = max_expiry started expiry\<rparr> \<and>
      (isTemporary cert \<longrightarrow> expiry = now + 5000)"
    using made stored_entry [OF made(3)] by (auto simp: secure_socket_def)
  show "rootDomain_of (server h1) = rootDomain_of (server h)"
    using root_kept(3) [of lib env now "plan_config plan" cert "server h"] made by simp
qed

lemma secured_again:
  assumes "handleConnection lib env t host ocsp h = (Secured s, h1)"
    and "connection_plan (rootDomain_of (server h)) host = Inr (Some plan)"
  shows "fst (lookup t (plan_key plan) (contexts h1)) = Some (ts_context s)" and "rootDomain_of (server h1) = rootDomain_of (server h)"
proof -
  obtain hit cache where look: "lookup t (plan_key plan) (contexts h) = (hit, cache)" by force
  have "fst (lookup t (plan_key plan) (contexts h1)) = Some (ts_context s) \<and> rootDomain_of (server h1) = rootDomain_of (server h)"
  proof (cases hit)
    case (Some ctx)
    then have "s = secure_socket plan ocsp ctx" "h1 = h\<lparr>contexts := cache\<rparr>"
      using assms look by (simp_all add: handleConnection_def)
    then show ?thesis using lookup_again look Some by (simp add: secure_socket_def)
  next
    case None
    obtain answer config where answer: "server_certificate env t (plan_domain plan) (certOptions (plan_config plan)) (server h) = (answer, config)"
      by force
    then obtain outcome where finish:
        "finish_handshake lib env t t plan ocsp outcome (h\<lparr>server := config, contexts := cache\<rparr>) = (Secured s, h1)"
      using assms look None by (cases answer) (auto simp: handleConnection_def)
    then show ?thesis
      using finish_secured [OF finish] lookup_update [of "contexts h1" "plan_key plan" _ t] max_expiry_later
        root_kept(2) [of env t "plan_domain plan" "certOptions (plan_config plan)" "server h"] answer by fastforce
  qed
  then show "fst (lookup t (plan_key plan) (contexts h1)) = Some (ts_context s)" "rootDomain_of (server h1) = rootDomain_of (server h)"
    by simp_all
qed

lemma context_reused:
  assumes "handleConnection lib env t host ocsp h = (Secured s, h1)"
    and "connection_plan (rootDomain_of (server h)) host = Inr (Some p1)"
    and "connection_plan (rootDomain_of (server h)) host' = Inr (Some p2)" and "plan_key p1 = plan_key p2"
  shows "\<exists>s2 h2. handleConnection lib env' t host' ocsp' h1 = (Secured s2, h2) \<and> ts_context s2 = ts_context s"
proof -
  obtain cache where "lookup t (plan_key p2) (contexts h1) = (Some (ts_context s), cache)"
    using secured_again(1) [OF assms(1,2)] assms(4) by (metis prod.collapse)
  then show ?thesis
    using secured_again(2) [OF assms(1,2)] assms(3) by (simp add: handleConnection_def secure_socket_def)
qed

lemma wrong_host_config:
  "map_sum id (\<lambda>c. (certOptions c, tlsOptions c, rejectTls c, requireClientCert c)) (getEndpointConfig [''wrong-host'']) =
     Inr ([(''overridePrefix'', OStr ''example'')], [], False, False)"
  "map_sum id (\<lambda>c. (certOptions c, tlsOptions c, rejectTls c, requireClientCert c)) (getEndpointConfig [''wrong-host'', ''untrusted-root'']) =
     Inr ([(''overridePrefix'', OStr ''example''), (''requiredType'', OStr ''local''), (''selfSigned'', OBool False)], [], False, False)"
  by code_simp+

lemma wrong_host_plans:
  fixes rootDomain :: string
  defines "plain \<equiv> ''wrong-host.'' @ rootDomain" and "local_only \<equiv> ''wrong-host--untrusted-root.'' @ rootDomain"
  shows "\<exists>p q. connection_plan rootDomain (Some plain) = Inr (Some p) \<and> connection_plan rootDomain (Some local_only) = Inr (Some q) \<and>
    plan_key p = plan_key q \<and> plan_domain p = ''example.'' @ rootDomain \<and> plan_domain q = ''example.'' @ rootDomain \<and>
    get (certOptions (plan_config p)) ''requiredType'' = OUndef \<and> get (certOptions (plan_config q)) ''requiredType'' = OStr ''local''"
proof -
  have known: "known ''wrong-host''" "known ''untrusted-root''" by code_simp+
  have "getSNIPrefixParts (join ''--'' [''wrong-host''] @ ''.'' @ rootDomain) rootDomain = [''wrong-host'']"
    by (rule conjunct1 [OF sni_prefix_parts]) (use known in auto)
  moreover have "getSNIPrefixParts (join ''--'' [''wrong-host'', ''untrusted-root''] @ ''.'' @ rootDomain) rootDomain =
      [''wrong-host'', ''untrusted-root'']"
    by (rule conjunct1 [OF sni_prefix_parts]) (use known in auto)
  ultimately have parts: "getSNIPrefixParts plain rootDomain = [''wrong-host'']"
      "getSNIPrefixParts local_only rootDomain = [''wrong-host'', ''untrusted-root'']"
    by (simp_all add: plain_def local_only_def)
  obtain c d where config: "getEndpointConfig [''wrong-host''] = Inr c" "getEndpointConfig [''wrong-host'', ''untrusted-root''] = Inr d"
      "certOptions c = [(''overridePrefix'', OStr ''example'')]" "tlsOptions c = []" "\<not> rejectTls c" "\<not> requireClientCert c"
      "certOptions d = [(''overridePrefix'', OStr ''example''), (''requiredType'', OStr ''local''), (''selfSigned'', OBool False)]"
      "tlsOptions d = []" "\<not> rejectTls d" "\<not> requireClientCert d"
    using wrong_host_config by (auto simp: map_sum_def split: sum.splits)
  have names: "nonempty (Some plain)" "nonempty (Some local_only)" by (simp_all add: nonempty_def plain_def local_only_def)
  have same: "calculateContextCacheKey x (certOptions c) [] = calculateContextCacheKey x (certOptions d) []" for x
    by (simp add: calculateContextCacheKey_def calculateCertCacheKey_def key_parts_def cert_flags_def get_def config)
  show ?thesis
    using config names parts same by (simp add: connection_plan_def Let_def get_def)
qed

text \<open>
  A host that must be served by the local CA can get the context of one that need not:
  right after a connection to \<open>wrong-host\<close> has been secured, \<open>wrong-host--untrusted-root\<close> is answered with
  the same context, whichever CA its certificate is from. The type is not part of the key.
\<close>

theorem untrusted_root_context_shared:
  assumes "handleConnection lib env t (Some (''wrong-host.'' @ rootDomain_of (server h))) ocsp h = (Secured s, h1)"
  shows "\<exists>q s2 h2. connection_plan (rootDomain_of (server h)) (Some (''wrong-host--untrusted-root.'' @ rootDomain_of (server h))) = Inr (Some q) \<and>
    get (certOptions (plan_config q)) ''requiredType'' = OStr ''local'' \<and>
    handleConnection lib env' t (Some (''wrong-host--untrusted-root.'' @ rootDomain_of (server h))) ocsp' h1 = (Secured s2, h2) \<and>
    ts_context s2 = ts_context s"
proof -
  obtain p q where plans: "connection_plan (rootDomain_of (server h)) (Some (''wrong-host.'' @ rootDomain_of (server h))) = Inr (Some p)"
      "connection_plan (rootDomain_of (server h)) (Some (''wrong-host--untrusted-root.'' @ rootDomain_of (server h))) = Inr (Some q)"
      "plan_key p = plan_key q" "get (certOptions (plan_config q)) ''requiredType'' = OStr ''local''"
    using wrong_host_plans [of "rootDomain_of (server h)"] by blast
  show ?thesis using context_reused [OF assms plans(1-3)] plans by blast
qed

text \<open>
  C28: A temporary certificate is replaced: five seconds after a connection was secured with one, its
  context is no longer used, and the ACME certificate that has arrived in between is.
\<close>

theorem fallback_replaced:
  assumes "connection_plan (rootDomain_of (server h)) host = Inr (Some plan)"
    and "finish_handshake lib env started now plan ocsp (Inr cert) h = (Secured s, h1)" and "isTemporary cert"
    and "started \<le> now" and "now + 5000 \<le> t"
    and "h2 = h1\<lparr>server := config\<rparr>" and "rootDomain_of config = rootDomain_of (server h)" and "acme_of config = Some acmeCA"
    and "memory acmeCA (calculateCertCacheKey (effective_domain config (plan_domain plan) (certOptions (plan_config plan)))
      (certOptions (plan_config plan))) = Some m"
    and "\<not> wants_expired (certOptions (plan_config plan))" and "get (certOptions (plan_config plan)) ''requiredType'' \<noteq> OStr ''local''"
  shows "\<exists>h3. handleConnection lib env' t host ocsp' h2 =
    finish_handshake lib env' t t plan ocsp' (Inr \<lparr>gc_key = key_of m, gc_cert = cert_of m, isTemporary = False\<rparr>) h3"
proof -
  have "map_of (contexts h1) (plan_key plan) = Some \<lparr>context_of = ts_context s, expires = max_expiry started (now + 5000)\<rparr>"
    using finish_secured(1) [OF assms(2)] assms(3) by auto
  moreover have "max_expiry started (now + 5000) \<le> t"
    using assms(4,5) by (simp add: max_expiry_def)
  ultimately have miss: "fst (lookup t (plan_key plan) (contexts h2)) = None" by (simp add: lookup_def assms(6))
  then obtain cache where look: "lookup t (plan_key plan) (contexts h2) = (None, cache)" by (metis prod.collapse)
  obtain config' where "server_certificate env' t (plan_domain plan) (certOptions (plan_config plan)) config =
      (Now (Inr \<lparr>gc_key = key_of m, gc_cert = cert_of m, isTemporary = False\<rparr>), config')"
    using assms(8-11) by (simp add: server_certificate_def tryGetCertificateSync_def getCert_def Let_def)
  then show ?thesis using look assms(1,6,7) by (auto simp: handleConnection_def)
qed

section \<open>Samples\<close>

text \<open>Contexts that show the certificate they were made from.\<close>

definition sample_tls_lib :: "string tls_lib" where
  "sample_tls_lib = \<lparr>createSecureContext = (\<lambda>opts. Inr (co_cert opts)), validTo = (\<lambda>pem. Inr 1000000)\<rparr>"

definition sample_plan :: tls_plan where
  "sample_plan =
     \<lparr>plan_parts = [],
      plan_config = \<lparr>certOptions = [], tlsOptions = [], alpnPreferences = [], rejectTls = False, requireClientCert = False\<rparr>,
      plan_domain = ''a.io'', plan_key = ''a.io+''\<rparr>"

definition wrong_host_plan :: tls_plan where
  "wrong_host_plan =
     \<lparr>plan_parts = [''wrong-host''],
      plan_config = \<lparr>certOptions = [(''overridePrefix'', OStr ''example'')], tlsOptions = [], alpnPreferences = [],
        rejectTls = False, requireClientCert = False\<rparr>,
      plan_domain = ''example.a.io'', plan_key = ''example.a.io+override=example''\<rparr>"

lemma sample_plans:
  "connection_plan ''a.io'' (Some ''a.io'') = Inr (Some sample_plan)"
  "connection_plan ''a.io'' (Some ''wrong-host.a.io'') = Inr (Some wrong_host_plan)"
  by code_simp+

definition sample_handler :: "string tls_handler" where
  "sample_handler =
     \<lparr>server = sample_config_acme\<lparr>acme_of := Some (sample_start\<lparr>memory := [''example.a.io+override=example'' \<mapsto> loaded_cert]\<rparr>)\<rparr>,
      contexts = []\<rparr>"

lemma sample_connection:
  "\<exists>s h1. handleConnection sample_tls_lib sample_env 5 (Some ''wrong-host.a.io'') False sample_handler = (Secured s, h1) \<and>
    ts_context s = cert_of loaded_cert"
proof -
  have root: "rootDomain_of (server sample_handler) = ''a.io''" by (simp add: sample_handler_def sample_config_acme_def)
  have key: "calculateCertCacheKey ''example.a.io'' [(''overridePrefix'', OStr ''example'')] = ''example.a.io+override=example''"
    by code_simp
  show ?thesis
    unfolding handleConnection_def root sample_plans
    by (simp add: wrong_host_plan_def sample_handler_def lookup_def server_certificate_def sample_config_acme_def get_def
        effective_domain_def tryGetCertificateSync_def getCert_def key sample_start_def wants_expired_def Let_def
        finish_handshake_def create_context_def sample_tls_lib_def store_context_def evict.simps DEFAULT_MAX_SIZE_def
        secure_socket_def)
qed

theorem shared_contexts_agree_witness:
  "\<exists>p q. connection_plan ''a.io'' (Some ''wrong-host.a.io'') = Inr (Some p) \<and>
     connection_plan ''a.io'' (Some ''wrong-host--untrusted-root.a.io'') = Inr (Some q) \<and>
     same_certificate (certOptions (plan_config p)) (certOptions (plan_config q)) \<and>
     requireClientCert (plan_config p) = requireClientCert (plan_config q)"
proof -
  obtain p q where plans: "connection_plan ''a.io'' (Some ''wrong-host.a.io'') = Inr (Some p)"
      "connection_plan ''a.io'' (Some ''wrong-host--untrusted-root.a.io'') = Inr (Some q)" "plan_key p = plan_key q"
      "plan_domain p = ''example.a.io''" "plan_domain q = ''example.a.io''"
    using wrong_host_plans [of "''a.io''"] by auto
  show ?thesis using shared_contexts_agree [OF plans(1-3)] plans by simp
qed

theorem untrusted_root_context_shared_witness:
  "\<exists>q s2 h1 h2. connection_plan ''a.io'' (Some ''wrong-host--untrusted-root.a.io'') = Inr (Some q) \<and>
     get (certOptions (plan_config q)) ''requiredType'' = OStr ''local'' \<and>
     handleConnection sample_tls_lib sample_env 5 (Some ''wrong-host--untrusted-root.a.io'') False h1 = (Secured s2, h2) \<and>
     ts_context s2 = cert_of loaded_cert"
proof -
  have root: "rootDomain_of (server sample_handler) = ''a.io''" by (simp add: sample_handler_def sample_config_acme_def)
  obtain s h1 where first: "handleConnection sample_tls_lib sample_env 5 (Some ''wrong-host.a.io'') False sample_handler = (Secured s, h1)"
      "ts_context s = cert_of loaded_cert" using sample_connection by blast
  show ?thesis
    using untrusted_root_context_shared [of sample_tls_lib sample_env 5 sample_handler False s h1 sample_env False] first root by auto
qed

theorem fallback_replaced_witness:
  "\<exists>h2 h3. handleConnection sample_tls_lib sample_env 6000 (Some ''a.io'') False h2 =
    finish_handshake sample_tls_lib sample_env 6000 6000 sample_plan False
      (Inr \<lparr>gc_key = ''K'', gc_cert = ''C'', isTemporary = False\<rparr>) h3"
proof -
  let ?cert = "\<lparr>gc_key = ''LK'', gc_cert = ''LC'', isTemporary = True\<rparr>"
  have "\<exists>s h1. finish_handshake sample_tls_lib sample_env 0 1 sample_plan False (Inr ?cert) sample_handler = (Secured s, h1)"
    by (simp add: finish_handshake_def create_context_def sample_plan_def sample_tls_lib_def sample_handler_def get_def
        store_context_def evict.simps DEFAULT_MAX_SIZE_def)
  then obtain s h1 where first: "finish_handshake sample_tls_lib sample_env 0 1 sample_plan False (Inr ?cert) sample_handler = (Secured s, h1)"
    by blast
  have plan: "connection_plan (rootDomain_of (server sample_handler)) (Some ''a.io'') = Inr (Some sample_plan)"
    using sample_plans(1) by (simp add: sample_handler_def sample_config_acme_def)
  show ?thesis
    using fallback_replaced [OF plan first, of 6000 "h1\<lparr>server := sample_config_acme\<rparr>" sample_config_acme loaded_start loaded_cert
        sample_env False]
    by (simp add: sample_config_acme_def sample_handler_def sample_plan_def effective_domain_def sample_key loaded_start_def
        loaded_cert_def wants_expired_def get_def) blast
qed

end
