(* ===== verification/Revocation.thy ===== *)
theory Revocation
  imports Tls_Handler
begin

text \<open>
  Which hosts of the local CA are revoked: from the server name of a client hello through the plan of
  the connection (\<^verbatim>\<open>src/tls-handler.ts\<close>) and the certificate made for it to the answer of OCSP
  (\<^verbatim>\<open>src/tls-certificates/local-ca.ts\<close>). Revocation is read off the names in the certificate,
  so a host under \<open>wrong-host\<close>, whose certificate names another, is not revoked whatever its parts.
\<close>

section \<open>The name in the certificate\<close>

lemma override_prefix:
  assumes "getEndpointConfig parts = Inr c"
  shows "get (certOptions c) ''overridePrefix'' = (if ''wrong-host'' \<in> set parts then OStr ''example'' else OUndef)"
proof -
  have only: "list_all (\<lambda>e. (\<exists>v. (''overridePrefix'', v) \<in> set (opt_entries (configureCertOptions e))) \<longrightarrow>
      sniPart e = ''wrong-host'') tlsEndpoints"
    by (simp add: tlsEndpoints_def tls_endpoint_defs)
  obtain cert where known: "list_all known parts" and cert: "merge_entries [] (cert_entries parts) = Inr cert" "certOptions c = cert"
    using assms by (auto simp: getEndpointConfig_Inr config_of_def)
  have val: "get (certOptions c) ''overridePrefix'' =
      combined ''overridePrefix'' (field_values ''overridePrefix'' (cert_entries parts))"
    using merge_entries_get [OF entries_typed(2) cert(1)] cert(2) by simp
  show ?thesis
  proof (cases "''wrong-host'' \<in> set parts")
    case True
    have "find_tls_endpoint ''wrong-host'' = Some wrongHost" by (simp add: find_tls_endpoint_def tlsEndpoints_def)
    then have "(''overridePrefix'', OStr ''example'') \<in> set (cert_entries parts)"
      using True by (auto simp: cert_entries_def wrongHost_def intro!: bexI [of _ "''wrong-host''"])
    then have "field_values ''overridePrefix'' (cert_entries parts) \<noteq> []"
      by (metis field_values_iff empty_iff empty_set optval.distinct(5))
    then have "get (certOptions c) ''overridePrefix'' \<noteq> OUndef"
      using val field_values_not_undef [of "''overridePrefix''" "cert_entries parts"] hd_in_set by (fastforce simp: combined_def)
    then show ?thesis using host_cert_options(2) [OF assms] True by auto
  next
    case False
    have "(''overridePrefix'', v) \<notin> set (cert_entries parts)" for v
      using False only find_tls_endpoint_mem
      by (fastforce simp: cert_entries_def list_all_iff split: Option.bind_splits)
    then have "field_values ''overridePrefix'' (cert_entries parts) = []" by (auto simp: field_values_def filter_empty_conv)
    then show ?thesis using val False by (simp add: combined_def)
  qed
qed

lemma plan_of_host:
  assumes "parts \<noteq> []" and "\<And>p. p \<in> set parts \<Longrightarrow> known p" and "sep = ''--'' \<or> sep = ''.''"
    and "connection_plan rootDomain (Some (join sep parts @ ''.'' @ rootDomain)) = Inr (Some p)"
  shows "plan_domain p =
    (if ''wrong-host'' \<in> set parts then ''example.'' @ rootDomain else join sep parts @ ''.'' @ rootDomain)"
proof -
  have "getSNIPrefixParts (join sep parts @ ''.'' @ rootDomain) rootDomain = parts"
    using sni_prefix_parts [OF assms(1,2)] assms(3) by blast
  moreover have "nonempty (Some (join sep parts @ ''.'' @ rootDomain))" by (simp add: nonempty_def)
  ultimately obtain c where "getEndpointConfig parts = Inr c"
      "plan_domain p = (if truthy (get (certOptions c) ''overridePrefix'')
        then opt_text (get (certOptions c) ''overridePrefix'') @ ''.'' @ rootDomain else join sep parts @ ''.'' @ rootDomain)"
    using assms(4) by (auto simp: connection_plan_def Let_def split: sum.splits if_splits)
  then show ?thesis using override_prefix by simp
qed

lemma alt_labels_example: "alt_labels (''example.'' @ rootDomain) = ''example'' # alt_labels rootDomain"
  using split_char_step [of "CHR ''.''" "''example''" rootDomain] by (simp add: alt_labels_eq split_seq.simps [of "''--''" "''example''"])

text \<open>A host of the server has an underscore, if any, in its root domain, where no wildcard helps.\<close>

lemma certifiable_name:
  assumes "certifiable_domain (label @ ''.'' @ rest) = Inr domain" and "CHR ''_'' \<notin> set label"
  shows "domain = label @ ''.'' @ rest"
proof (rule ccontr)
  assume "domain \<noteq> label @ ''.'' @ rest"
  then have under: "CHR ''_'' \<in> set rest"
    and fine: "\<not> list_ex (\<lambda>p. CHR ''_'' \<in> set p) (tl (split_seq ''.'' (label @ ''.'' @ rest)))"
    using assms by (auto simp: certifiable_domain_def Let_def split: if_splits)
  have "split_seq ''.'' (join ''.'' (split_seq ''.'' label) @ CHR ''.'' # rest) = split_seq ''.'' label @ split_seq ''.'' rest"
    by (rule split_char_append) (auto dest: split_char_parts)
  then have "split_seq ''.'' (label @ ''.'' @ rest) = split_seq ''.'' label @ split_seq ''.'' rest"
    by (simp add: join_split_seq)
  then have "\<not> list_ex (\<lambda>p. CHR ''_'' \<in> set p) (split_seq ''.'' rest)" using fine by simp
  then show False using under set_join [of "''.''" "split_seq ''.'' rest"] by (auto simp: join_split_seq list_ex_iff)
qed

lemma no_underscore: "known p \<Longrightarrow> CHR ''_'' \<notin> set p"
proof -
  have "list_all (\<lambda>p. CHR ''_'' \<notin> set p) sni_names" by code_simp
  then show "known p \<Longrightarrow> CHR ''_'' \<notin> set p" by (auto simp: list_all_iff known_iff)
qed

section \<open>The answer for a host\<close>

lemma leaf_of_memory:
  "leaf_x509 m (ca\<lparr>intermediateCA := x\<rparr>) domain options i = leaf_x509 m ca domain options i"
  by (simp add: leaf_x509_def leaf_subject_def leaf_keys_def Let_def country_name_def split: option.split)

lemma intermediate_kept:
  assumes "getIntermediateCA env ca = (Inr i, ca')"
  shows "ca' = ca\<lparr>intermediateCA := Some (Inr i)\<rparr>"
  using assms by (auto simp: getIntermediateCA_def Let_def split: option.splits)

lemma issuer_of_made:
  assumes "certifiable_domain domain = Inr domain" and "memory_certs ca (calculateCacheKey domain options) = None"
    and made: "generateCertificate env ca domain options = (Inr made, ca')"
    and int: "intermediate = (if truthy (get options ''selfSigned'') then None else Some i)"
    and signed: "intermediate \<noteq> None \<longrightarrow> fst (getIntermediateCA env ca) = Inr i \<and> signed_by (x_publicKey (ca_cert i)) leaf"
    and leaf: "leaf = leaf_x509 (env_moment env) ca domain options intermediate"
    and fresh: "selfSignedCerts ca (x_serial leaf) = None"
  shows "findOcspIssuer signed_by ca' leaf =
    Inr (Some (case intermediate of Some i \<Rightarrow> ca_cert i | None \<Rightarrow> leaf, x_signingKey leaf))"
proof (cases "truthy (get options ''selfSigned'')")
  case True
  then have "selfSignedCerts ca' (x_serial leaf) = Some (leaf, snd (leaf_keys (env_moment env) ca options))"
    using assms(1-4) leaf by (auto simp: generateCertificate_def make_certificate_def Let_def)
  moreover have "x_signingKey leaf = snd (leaf_keys (env_moment env) ca options)"
    using True int leaf by (simp add: leaf_x509_def Let_def)
  ultimately show ?thesis using True int by (simp add: findOcspIssuer_def Let_def)
next
  case False
  then have i: "intermediate = Some i" and inter: "getIntermediateCA env ca = (Inr i, ca\<lparr>intermediateCA := Some (Inr i)\<rparr>)"
    using int signed intermediate_kept [of env ca i] by (cases "getIntermediateCA env ca"; auto)+
  have ca': "intermediateCA ca' = Some (Inr i)" "selfSignedCerts ca' = selfSignedCerts ca"
    using assms(1-3) False inter by (auto simp: generateCertificate_def make_certificate_def Let_def)
  have "x_issuer leaf = x_subject (ca_cert i)" "x_signingKey leaf = ca_key i"
    using leaf_fields(3,4) by (simp_all add: leaf i)
  then show ?thesis using i ca' fresh signed by (simp add: findOcspIssuer_def Let_def)
qed

text \<open>
  C16: OCSP for a host made of endpoint parts, in either form. Take the leaf of a certificate that the
  local CA makes for a connection to the host: the answer comes from the issuer of the leaf (the
  intermediate, or the leaf itself if it is self-signed), carries its serial number, and the status is
  revoked exactly when the host has the part \<open>revoked\<close> and not the part \<open>wrong-host\<close>, or the root domain
  has a label \<open>revoked\<close> of its own. The serial number is taken to be fresh, and the library to accept a
  signature made with the key of the intermediate.
\<close>

theorem host_revocation:
  assumes "parts \<noteq> []" and "\<And>p. p \<in> set parts \<Longrightarrow> known p" and "sep = ''--'' \<or> sep = ''.''"
    and "connection_plan rootDomain (Some (join sep parts @ ''.'' @ rootDomain)) = Inr (Some plan)"
    and "options = certOptions (plan_config plan)"
    and "memory_certs ca (calculateCacheKey (plan_domain plan) options) = None"
    and "generateCertificate env ca (plan_domain plan) options = (Inr made, ca')"
    and "intermediate = (if truthy (get options ''selfSigned'') then None else Some i)"
    and "intermediate \<noteq> None \<longrightarrow> fst (getIntermediateCA env ca) = Inr i \<and> signed_by (x_publicKey (ca_cert i)) leaf"
    and "leaf = leaf_x509 (env_moment env) ca (plan_domain plan) options intermediate"
    and "selfSignedCerts ca (x_serial leaf) = None"
    and "parse_pem (env_lib later) (der_pem der) = Some leaf"
  shows "\<exists>basic sr. getOcspResponse asn1 later signed_by ca' der = Inr (Some (wrap_response asn1 basic)) \<and>
    rd_responses (br_data basic) = [sr] \<and> rd_byName (br_data basic) = x_issuer leaf \<and>
    br_certs basic = [case intermediate of Some i \<Rightarrow> ca_cert i | None \<Rightarrow> leaf] \<and>
    br_signature basic = sign_rsa_sha256 asn1 (x_signingKey leaf) (der_data asn1 (br_data basic)) \<and>
    serialNumberBytes (x_serial leaf) = Inr (cid_serialNumber (sr_certID sr)) \<and>
    sr_certStatus sr =
      (if (''revoked'' \<in> set parts \<and> ''wrong-host'' \<notin> set parts) \<or> ''revoked'' \<in> set (alt_labels rootDomain)
       then Revoked (now_ms (env_moment later)) else Good)"
proof -
  let ?d = "plan_domain plan"
  have domain: "?d = (if ''wrong-host'' \<in> set parts then ''example.'' @ rootDomain else join sep parts @ ''.'' @ rootDomain)"
    by (rule plan_of_host [OF assms(1-4)])
  have "CHR ''_'' \<notin> set (join sep parts)"
    using set_join [of sep parts] no_underscore assms(2,3) by auto
  then have certifiable: "certifiable_domain ?d = Inr ?d"
    using assms(7) certifiable_name [of "''example''" rootDomain] certifiable_name [of "join sep parts" rootDomain]
    by (auto simp: domain generateCertificate_def split: sum.splits if_splits)
  have "''revoked'' \<in> set (alt_labels ?d) \<longleftrightarrow>
      (''revoked'' \<in> set parts \<and> ''wrong-host'' \<notin> set parts) \<or> ''revoked'' \<in> set (alt_labels rootDomain)"
    using alt_labels_host [OF assms(1-3), of rootDomain] alt_labels_example [of rootDomain] by (auto simp: domain)
  then have status: "isRevokedCert leaf \<longleftrightarrow>
      (''revoked'' \<in> set parts \<and> ''wrong-host'' \<notin> set parts) \<or> ''revoked'' \<in> set (alt_labels rootDomain)"
    by (simp add: isRevokedCert_def assms(10) leaf_fields)
  have issuer: "findOcspIssuer signed_by ca' leaf =
      Inr (Some (case intermediate of Some i \<Rightarrow> ca_cert i | None \<Rightarrow> leaf, x_signingKey leaf))"
    by (rule issuer_of_made) (use assms certifiable in auto)
  moreover have "x_issuer leaf = x_subject (case intermediate of Some i \<Rightarrow> ca_cert i | None \<Rightarrow> leaf)"
    by (simp add: assms(10) leaf_x509_def Let_def split: option.split)
  ultimately show ?thesis
    using ocsp_answer [OF issuer _ assms(12), of "random_uuid (env_moment env)" asn1] leaf_fields(2) status
    by (metis assms(10))
qed

text \<open>A revoked host, and one whose certificate has another name.\<close>

lemma revoked_plans:
  "map_sum id (map_option (\<lambda>p. (plan_domain p, get (certOptions (plan_config p)) ''selfSigned'')))
     (connection_plan ''localhost'' (Some ''http2--revoked.localhost'')) = Inr (Some (''http2--revoked.localhost'', OUndef))"
  "map_sum id (map_option (\<lambda>p. (plan_domain p, get (certOptions (plan_config p)) ''selfSigned'')))
     (connection_plan ''localhost'' (Some ''wrong-host.revoked.localhost'')) = Inr (Some (''example.localhost'', OUndef))"
  by code_simp+

text \<open>Encodings that keep the status.\<close>

definition status_asn1 :: asn1_lib where
  "status_asn1 = sample_asn1
     \<lparr>der_data := \<lambda>d. case sr_certStatus (hd (rd_responses d)) of Good \<Rightarrow> [0] | Revoked t \<Rightarrow> [1] | Unknown \<Rightarrow> [2]\<rparr>"

definition knowing :: "x509 \<Rightarrow> ca_env" where
  "knowing leaf = sample_env\<lparr>env_lib := sample_lib\<lparr>parse_pem := \<lambda>_. Some leaf\<rparr>\<rparr>"

lemma sample_intermediate:
  "\<exists>i. getIntermediateCA sample_env sample_local_ca = (Inr i, sample_local_ca\<lparr>intermediateCA := Some (Inr i)\<rparr>) \<and> ca_key i = [2]"
  by (simp add: getIntermediateCA_def sample_env_def sample_local_ca_def Let_def buildManagedCA_def
      buildCaCertificate_def)

theorem host_revocation_witness:
  "(\<exists>ca leaf. x_altNames leaf = Some [(''dns'', ''http2--revoked.localhost'')] \<and>
     getOcspResponse status_asn1 (knowing leaf) (\<lambda>k c. True) ca [] = Inr (Some [2, 1])) \<and>
   (\<exists>ca leaf. x_altNames leaf = Some [(''dns'', ''example.localhost'')] \<and>
     getOcspResponse status_asn1 (knowing leaf) (\<lambda>k c. True) ca [] = Inr (Some [2, 0]))"
proof -
  have answer: "\<exists>ca leaf. x_altNames leaf = Some [(''dns'', plan_domain p)] \<and>
      getOcspResponse status_asn1 (knowing leaf) (\<lambda>k c. True) ca [] =
        Inr (Some [2, if ''wrong-host'' \<in> set parts then 0 else 1])"
    if known: "parts \<noteq> []" "\<And>q. q \<in> set parts \<Longrightarrow> known q" "sep = ''--'' \<or> sep = ''.''" and revoked: "''revoked'' \<in> set parts"
      and plan: "connection_plan ''localhost'' (Some (join sep parts @ ''.'' @ ''localhost'')) = Inr (Some p)"
      and plain: "get (certOptions (plan_config p)) ''selfSigned'' = OUndef" "certifiable_domain (plan_domain p) = Inr (plan_domain p)"
    for parts sep p
  proof -
    let ?o = "certOptions (plan_config p)" and ?d = "plan_domain p"
    obtain i where i: "getIntermediateCA sample_env sample_local_ca = (Inr i, sample_local_ca\<lparr>intermediateCA := Some (Inr i)\<rparr>)"
        "ca_key i = [2]" using sample_intermediate by blast
    let ?leaf = "leaf_x509 (env_moment sample_env) sample_local_ca ?d ?o (Some i)"
    have "memory_certs sample_local_ca (calculateCacheKey ?d ?o) = None" by (simp add: sample_local_ca_def)
    moreover obtain made ca where "generateCertificate sample_env sample_local_ca ?d ?o = (Inr made, ca)"
      using plain i calculation
      by (cases "make_certificate sample_env (sample_local_ca\<lparr>intermediateCA := Some (Inr i)\<rparr>) ?d ?o (Some i)")
        (simp add: generateCertificate_def)
    moreover have "''revoked'' \<notin> set (alt_labels ''localhost'')" by code_simp
    ultimately obtain basic sr where
        "getOcspResponse status_asn1 (knowing ?leaf) (\<lambda>k c. True) ca [] = Inr (Some (wrap_response status_asn1 basic))"
        "rd_responses (br_data basic) = [sr]"
        "br_signature basic = sign_rsa_sha256 status_asn1 (x_signingKey ?leaf) (der_data status_asn1 (br_data basic))"
        "sr_certStatus sr = (if ''wrong-host'' \<in> set parts then Good else Revoked (now_ms (env_moment (knowing ?leaf))))"
      using host_revocation [OF known plan refl _ _ _ _ refl, of sample_local_ca sample_env made ca "Some i" i "\<lambda>k c. True"
          "knowing ?leaf" "[]" status_asn1] plain i revoked
      by (auto simp: knowing_def sample_local_ca_def)
    then have "getOcspResponse status_asn1 (knowing ?leaf) (\<lambda>k c. True) ca [] =
        Inr (Some [2, if ''wrong-host'' \<in> set parts then 0 else 1])"
      using i(2) leaf_fields(4) by (simp add: status_asn1_def sample_asn1_def wrap_response_def)
    then show ?thesis using leaf_fields(1) by blast
  qed
  obtain p where p: "connection_plan ''localhost'' (Some ''http2--revoked.localhost'') = Inr (Some p)"
      "plan_domain p = ''http2--revoked.localhost''" "get (certOptions (plan_config p)) ''selfSigned'' = OUndef"
    using revoked_plans(1) by (auto simp: map_sum_def split: sum.splits)
  obtain q where q: "connection_plan ''localhost'' (Some ''wrong-host.revoked.localhost'') = Inr (Some q)"
      "plan_domain q = ''example.localhost''" "get (certOptions (plan_config q)) ''selfSigned'' = OUndef"
    using revoked_plans(2) by (auto simp: map_sum_def split: sum.splits)
  have "known ''http2''" "known ''revoked''" "known ''wrong-host''" by code_simp+
  moreover have "certifiable_domain ''http2--revoked.localhost'' = Inr ''http2--revoked.localhost''"
      "certifiable_domain ''example.localhost'' = Inr ''example.localhost''" by code_simp+
  ultimately show ?thesis
    using answer [of "[''http2'', ''revoked'']" "''--''" p] answer [of "[''wrong-host'', ''revoked'']" "''.''" q] p q
    by auto
qed

end
