(* ===== verification/Docs_Content.thy ===== *)
theory Docs_Content
  imports Json
begin

text \<open>
  The fixed texts of the documentation page, \<^verbatim>\<open>src/docs-page.ts\<close>: the style sheet, the script and the
  introductions of the sections. A text is the list of its lines.
\<close>

definition lines_text :: "string list \<Rightarrow> string" where
  "lines_text = join newline"

definition CSS :: string where
  "CSS = lines_text [
       [],
       ''<style>'',
       ''    /* Light mode (default) */'',
       ''    :root {'',
       ''        --primary-color: #e1421f;'',
       ''        --text-color: #222;'',
       ''        --text-muted: #555;'',
       ''        --text-faint: #666;'',
       ''        --bg-color: #fafafa;'',
       ''        --bg-card: #ffffff;'',
       ''        --bg-header: #f8f8f8;'',
       ''        --code-bg: #f0f0f0;'',
       ''        --border-color: #ddd;'',
       ''        --content-width: 800px;'',
       ''        --sidebar-width: 260px;'',
       ''        --sidebar-gap: 30px;'',
       ''    }'',
       [],
       ''    /* Dark mode - matches httptoolkit.com */'',
       ''    @media (prefers-color-scheme: dark) {'',
       ''        :root {'',
       ''            --primary-color: #e1421f;'',
       ''            --text-color: #E6E8F2;'',
       ''            --text-muted: #818490;'',
       ''            --text-faint: #818490;'',
       ''            --bg-color: #16181E;'',
       ''            --bg-card: #1E2028;'',
       ''            --bg-header: #252830;'',
       ''            --code-bg: #32343B;'',
       ''            --border-color: #32343B;'',
       ''        }'',
       ''    }'',
       [],
       ''    * {'',
       ''        box-sizing: border-box;'',
       ''    }'',
       ''    html {'',
       ''        scroll-behavior: smooth;'',
       ''    }'',
       ''    body {'',
       (''        font-family: -apple-system, BlinkMacSystemFont, '' @ [CHR 0x22] @ ''Segoe UI'' @ [CHR 0x22] @ '', Roboto, '' @ [CHR 0x22] @ ''Helvetica Neue'' @ [CHR 0x22] @ '', Arial, sans-serif;''),
       ''        line-height: 1.6;'',
       ''        color: var(--text-color);'',
       ''        background: var(--bg-color);'',
       ''        margin: 0;'',
       ''        padding: 0;'',
       ''        display: flex;'',
       ''        justify-content: center;'',
       ''    }'',
       ''    .page-wrapper {'',
       ''        position: relative;'',
       ''        width: var(--content-width);'',
       ''        min-height: 100vh;'',
       ''        padding: 2rem;'',
       ''    }'',
       [],
       ''    /* Sidebar - wing positioned outside the centered content */'',
       ''    .sidebar {'',
       ''        position: fixed;'',
       ''        top: 2rem;'',
       ''        left: calc(50% + var(--content-width) / 2 + var(--sidebar-gap));'',
       ''        width: var(--sidebar-width);'',
       ''        max-height: calc(100vh - 4rem);'',
       ''        overflow-y: auto;'',
       ''        font-size: 0.8rem;'',
       ''    }'',
       ''    .toc-section {'',
       ''        margin-bottom: 0.5rem;'',
       ''    }'',
       ''    .toc-section-link {'',
       ''        font-weight: 600;'',
       ''        color: var(--text-color);'',
       ''        text-decoration: none;'',
       ''    }'',
       ''    .toc-section-link:hover {'',
       ''        color: var(--primary-color);'',
       ''    }'',
       ''    .toc-groups {'',
       ''        list-style: none;'',
       ''        padding-left: 0.75rem;'',
       ''        margin: 0.1rem 0 0 0;'',
       ''    }'',
       ''    .toc-groups li {'',
       ''        margin: 0;'',
       ''    }'',
       ''    .toc-groups a {'',
       ''        color: var(--text-muted);'',
       ''        text-decoration: none;'',
       ''    }'',
       ''    .toc-groups a:hover {'',
       ''        color: var(--primary-color);'',
       ''    }'',
       [],
       ''    /* Header */'',
       ''    h1 {'',
       ''        color: var(--text-color);'',
       ''        border-bottom: 2px solid var(--text-muted);'',
       ''        padding: 2rem 0;'',
       ''        margin-top: 0;'',
       ''        margin-bottom: 2rem;'',
       ''        font-size: 3rem;'',
       ''        line-height: 1;'',
       ''    }'',
       [],
       ''    h1 + p {'',
       ''        margin-top: 0;'',
       ''    }'',
       [],
       ''    /* Code */'',
       ''    code {'',
       ''        background: var(--code-bg);'',
       ''        color: var(--text-color);'',
       ''        padding: 0.1rem 0.3rem;'',
       ''        border-radius: 3px;'',
       (''        font-family: '' @ [CHR 0x22] @ ''SF Mono'' @ [CHR 0x22] @ '', Consolas, '' @ [CHR 0x22] @ ''Liberation Mono'' @ [CHR 0x22] @ '', Menlo, monospace;''),
       ''        font-size: 0.9em;'',
       ''    }'',
       [],
       ''    /* Links */'',
       ''    a {'',
       ''        color: var(--primary-color);'',
       ''        text-decoration: none;'',
       ''    }'',
       ''    a:hover {'',
       ''        text-decoration: underline;'',
       ''    }'',
       [],
       ''    /* Sections */'',
       ''    .section {'',
       ''        margin: 1.5rem 0;'',
       ''        border: 1px solid var(--border-color);'',
       ''        border-radius: 6px;'',
       ''        background: var(--bg-card);'',
       ''    }'',
       ''    .section > h2 {'',
       ''        padding: 0.5rem 1rem;'',
       ''        margin: 0;'',
       ''        background: var(--bg-header);'',
       ''        border-radius: 6px 6px 0 0;'',
       ''        border-bottom: 1px solid var(--border-color);'',
       ''        font-size: 1.1rem;'',
       ''    }'',
       ''    .section-content {'',
       ''        padding: 0.5rem 1rem;'',
       ''    }'',
       ''    .section-content > p {'',
       ''        margin: 0 0 0.5rem 0;'',
       ''        font-size: 0.9rem;'',
       ''        color: var(--text-muted);'',
       ''    }'',
       [],
       ''    /* Endpoint groups (collapsible) */'',
       ''    .endpoint-group {'',
       ''        margin: 0.5rem 0;'',
       ''        border: 1px solid var(--border-color);'',
       ''        border-radius: 4px;'',
       ''        background: var(--bg-color);'',
       ''    }'',
       ''    .endpoint-group > summary {'',
       ''        padding: 0.4rem 0.75rem;'',
       ''        cursor: pointer;'',
       ''        font-weight: 600;'',
       ''        font-size: 0.95rem;'',
       ''        background: var(--bg-card);'',
       ''        border-radius: 4px;'',
       ''        list-style: none;'',
       ''    }'',
       ''    .endpoint-group > summary::-webkit-details-marker {'',
       ''        display: none;'',
       ''    }'',
       ''    .endpoint-group > summary::before {'',
       (''        content: '' @ [CHR 0x27] @ [CHR 0x5C] @ ''25BC'' @ [CHR 0x27] @ '';''),
       ''        display: inline-block;'',
       ''        margin-right: 0.4rem;'',
       ''        font-size: 0.6rem;'',
       ''        transition: transform 0.2s;'',
       ''    }'',
       ''    .endpoint-group:not([open]) > summary::before {'',
       ''        transform: rotate(-90deg);'',
       ''    }'',
       ''    .endpoint-group[open] > summary {'',
       ''        border-bottom: 1px solid var(--border-color);'',
       ''        border-radius: 4px 4px 0 0;'',
       ''    }'',
       ''    .endpoint-group .count {'',
       ''        color: var(--text-faint);'',
       ''        font-weight: normal;'',
       ''        font-size: 0.8rem;'',
       ''    }'',
       ''    .group-content {'',
       ''        padding: 0.25rem 0.75rem;'',
       ''    }'',
       ''    .group-description {'',
       ''        margin: 0.25rem 0 0.5rem 0;'',
       ''        font-size: 0.9rem;'',
       ''        color: var(--text-muted);'',
       ''    }'',
       [],
       ''    /* Individual endpoints */'',
       ''    .endpoint {'',
       ''        padding: 0.3rem 0;'',
       ''        border-bottom: 1px solid var(--border-color);'',
       ''    }'',
       ''    .endpoint:last-child {'',
       ''        border-bottom: none;'',
       ''    }'',
       ''    .endpoint .path {'',
       ''        font-weight: 600;'',
       ''    }'',
       ''    .endpoint .desc {'',
       ''        color: var(--text-muted);'',
       ''        margin-left: 0.5rem;'',
       ''    }'',
       ''    .endpoint .examples {'',
       ''        margin-left: 0.75rem;'',
       ''        font-size: 0.85em;'',
       ''    }'',
       ''    .endpoint .examples code {'',
       ''        background: none;'',
       ''        padding: 0;'',
       ''        white-space: nowrap;'',
       ''    }'',
       ''    .endpoint .examples .example-link,'',
       ''    .endpoint .examples > code {'',
       ''        margin-right: 0.75rem;'',
       ''        display: inline-block;'',
       ''    }'',
       ''    .example-link {'',
       ''        text-decoration: none;'',
       ''    }'',
       ''    .example-link:hover {'',
       ''        text-decoration: underline;'',
       ''    }'',
       ''    .example-link code {'',
       ''        color: var(--primary-color);'',
       ''    }'',
       [],
       ''    /* Footer */'',
       ''    footer {'',
       ''        margin-top: 3rem;'',
       ''        padding-top: 1rem;'',
       ''        border-top: 1px solid var(--border-color);'',
       ''        text-align: center;'',
       ''        color: var(--text-faint);'',
       ''        font-size: 0.9rem;'',
       ''    }'',
       [],
       (''    /* Responsive - hide sidebar when viewport can'' @ [CHR 0x27] @ ''t fit content + sidebar */''),
       ''    @media (max-width: 1400px) {'',
       ''        .sidebar {'',
       ''            display: none;'',
       ''        }'',
       ''    }'',
       [],
       ''    /* Tablet - allow content to shrink */'',
       ''    @media (max-width: 900px) {'',
       ''        .page-wrapper {'',
       ''            width: 100%;'',
       ''            max-width: var(--content-width);'',
       ''        }'',
       ''    }'',
       [],
       ''    /* Mobile - optimize for smaller screens */'',
       ''    @media (max-width: 850px) {'',
       ''        .page-wrapper {'',
       ''            padding: 1rem;'',
       ''        }'',
       ''        h1 {'',
       ''            font-size: 1.3rem;'',
       ''        }'',
       ''        .section > h2 {'',
       ''            font-size: 1rem;'',
       ''        }'',
       ''        .endpoint {'',
       ''            display: block;'',
       ''        }'',
       ''        .endpoint .desc {'',
       ''            display: block;'',
       ''            margin-left: 0;'',
       ''        }'',
       ''        .endpoint .examples {'',
       ''            display: block;'',
       ''            margin-left: 0;'',
       ''        }'',
       ''        .endpoint .path {'',
       ''            word-break: break-all;'',
       ''        }'',
       ''    }'',
       ''</style>'',
       []]"

definition SCRIPT :: string where
  "SCRIPT = lines_text [
       [],
       ''<script>'',
       (''document.addEventListener('' @ [CHR 0x27] @ ''DOMContentLoaded'' @ [CHR 0x27] @ '', function() {''),
       ''    const hostname = location.hostname;'',
       (''    const port = location.port ? '' @ [CHR 0x27] @ '':'' @ [CHR 0x27] @ '' + location.port : '' @ [CHR 0x27] @ [CHR 0x27] @ '';''),
       ''    const httpProtocol = location.protocol;'',
       [],
       ''    // Update subdomain-based example links with current domain'',
       (''    document.querySelectorAll('' @ [CHR 0x27] @ ''a.example-link[data-example]'' @ [CHR 0x27] @ '').forEach(function(link) {''),
       ''        const example = link.dataset.example;'',
       ''        const type = link.dataset.type;'',
       (''        if (type === '' @ [CHR 0x27] @ ''tls'' @ [CHR 0x27] @ '' || type === '' @ [CHR 0x27] @ ''subdomain'' @ [CHR 0x27] @ '') {''),
       ''            // https://prefix.testserver.host/ -> https://prefix.hostname:port/'',
       ''            const match = example.match(/^https?://([^.]+)/);'',
       ''            if (match) {'',
       ''                const prefix = match[1];'',
       (''                const url = httpProtocol + '' @ [CHR 0x27] @ ''//'' @ [CHR 0x27] @ '' + prefix + '' @ [CHR 0x27] @ ''.'' @ [CHR 0x27] @ '' + hostname + port + '' @ [CHR 0x27] @ ''/'' @ [CHR 0x27] @ '';''),
       ''                link.href = url;'',
       ''                link.title = url;'',
       ''            }'',
       ''        }'',
       ''    });'',
       ''});'',
       ''</script>'',
       []]"

definition ws_intro :: "string list" where
  "ws_intro = [''Connect via <code>wss://{hostname}/ws/...</code>'']"

definition tls_intro :: "string list" where
  "tls_intro =
     [''The TLS endpoint(s) to use are specified by subdomain, e.g. <code>expired.{domain}</code>.'',
      ''Endpoints can be combined using double-dashes, e.g. <code>expired--revoked--http2--tls-v1-2.{domain}</code> will return an expired and revoked certificate, use TLSv1.2, and then negotiate HTTP/2 on the connection.'',
      ''These can also be combined with the HTTP or WebSocket handlers above, which can be independently specified in the request path.'',
      ''The <code>untrusted-root</code>, <code>intermediate</code> & <code>self-signed</code> certificates used by some endpoints here can be downloaded separately from the <code>/tls/certs/*</code> HTTP endpoints.'']"

end
