(* ===== verification/Docs_Page.thy ===== *)
theory Docs_Page
  imports Docs_Content Http_Endpoints Ws_Endpoints Tls_Endpoints "HOL-Library.AList" "HOL-Library.Sublist" "HOL-Library.Multiset"
begin

text \<open>
  \<^verbatim>\<open>src/docs-page.ts\<close>: the documentation page, built from the metadata of the endpoints. Endpoints
  are grouped and sorted, and printed into fixed HTML. \<open>localeCompare\<close> is the collation of the host;
  the parameter \<open>collate\<close> gives its sort keys. The page is cached by the code, which nothing shows.
\<close>

section \<open>Grouping\<close>

record grouped_endpoints =
  ge_group :: endpoint_group
  ge_endpoints :: "endpoint_meta list"

definition GENERAL_GROUP :: endpoint_group where
  "GENERAL_GROUP = \<lparr>g_id = ''general'', g_name = ''General'', g_description = None\<rparr>"

definition sortEndpoints :: "(string \<Rightarrow> 'k::linorder) \<Rightarrow> endpoint_meta list \<Rightarrow> endpoint_meta list" where
  "sortEndpoints collate endpoints = sort_key (\<lambda>m. collate (m_path m)) endpoints"

definition group_key :: "endpoint_meta \<Rightarrow> string" where
  "group_key m = (case m_group m of None \<Rightarrow> [] | Some g \<Rightarrow> g_id g)"

text \<open>One round of the loop: the group is made by its first endpoint.\<close>

definition add_to_group :: "(string \<times> grouped_endpoints) list \<Rightarrow> endpoint_meta \<Rightarrow> (string \<times> grouped_endpoints) list" where
  "add_to_group groups m =
     (let g = (case map_of groups (group_key m) of
          Some g \<Rightarrow> g
        | None \<Rightarrow> \<lparr>ge_group = (case m_group m of None \<Rightarrow> GENERAL_GROUP | Some g \<Rightarrow> g), ge_endpoints = []\<rparr>)
      in AList.update (group_key m) (g\<lparr>ge_endpoints := ge_endpoints g @ [m]\<rparr>) groups)"

text \<open>The place of a group in the order; groups that are not in it come last.\<close>

definition order_index :: "endpoint_group list \<Rightarrow> string \<Rightarrow> nat" where
  "order_index groupOrder gid =
     (case map_of (rev (zip (map g_id groupOrder) [0..<length groupOrder])) gid of
        None \<Rightarrow> length groupOrder | Some i \<Rightarrow> i)"

definition groupEndpoints ::
    "(string \<Rightarrow> 'k::linorder) \<Rightarrow> endpoint_meta option list \<Rightarrow> endpoint_group list \<Rightarrow> grouped_endpoints list" where
  "groupEndpoints collate endpoints groupOrder =
     (let withMeta = List.map_filter id endpoints;
          groups = foldl add_to_group [] withMeta;
          sorted = (\<lambda>g. g\<lparr>ge_endpoints := sortEndpoints collate (ge_endpoints g)\<rparr>);
          ungrouped = (case map_of groups [] of
              Some g \<Rightarrow> if ge_endpoints g \<noteq> [] then [sorted g] else []
            | None \<Rightarrow> []);
          sortedEntries = sort_key (\<lambda>(_, g). order_index groupOrder (g_id (ge_group g))) (filter (\<lambda>(k, _). k \<noteq> []) groups)
      in ungrouped @ map (\<lambda>(_, g). sorted g) sortedEntries)"

section \<open>Printing\<close>

definition replace_all :: "char \<Rightarrow> string \<Rightarrow> string \<Rightarrow> string" where
  "replace_all c r s = concat (map (\<lambda>x. if x = c then r else [x]) s)"

definition replace_first :: "string \<Rightarrow> string \<Rightarrow> string \<Rightarrow> string" where
  "replace_first sub r s = (case find_sub sub s of None \<Rightarrow> s | Some i \<Rightarrow> take i s @ r @ drop (i + length sub) s)"

definition escapeHtml :: "string \<Rightarrow> string" where
  "escapeHtml text =
     replace_all (CHR 0x22) ''&quot;'' (replace_all (CHR ''>'') ''&gt;'' (replace_all (CHR ''<'') ''&lt;''
       (replace_all (CHR ''&'') ''&amp;'' text)))"

datatype endpoint_type = HttpType | WsType | TlsType

fun type_text :: "endpoint_type \<Rightarrow> string" where
  "type_text HttpType = ''http''"
| "type_text WsType = ''ws''"
| "type_text TlsType = ''tls''"

definition renderExample :: "string \<Rightarrow> endpoint_type \<Rightarrow> string" where
  "renderExample ex type =
     (let escaped = escapeHtml ex;
          link = (\<lambda>attrs. (''<a href='' @ [CHR 0x22]) @ escaped @ ([CHR 0x22] @ '' class='' @ [CHR 0x22] @ ''example-link'' @ [CHR 0x22] @ '' target='' @ [CHR 0x22] @ ''_blank'' @ [CHR 0x22]) @ attrs @ ''><code>'' @ escaped @ ''</code></a>'');
          data = (\<lambda>kind. ('' data-example='' @ [CHR 0x22]) @ escaped @ ([CHR 0x22] @ '' data-type='' @ [CHR 0x22]) @ kind @ [CHR 0x22])
      in if type = HttpType \<and> starts_with ex ''/'' then link []
         else if type = HttpType \<and> starts_with ex ''https://'' then link (data ''subdomain'')
         else if type = WsType then ''<code>'' @ escaped @ ''</code>''
         else link (data (type_text type)))"

definition renderEndpoint :: "endpoint_meta \<Rightarrow> endpoint_type \<Rightarrow> string" where
  "renderEndpoint m type =
     (let examples = m_examples m;
          pathIsExample = (m_path m \<in> set examples);
          otherExamples = filter (\<lambda>ex. ex \<noteq> m_path m) examples;
          pathHtml = (if pathIsExample \<and> type \<noteq> WsType
            then replace_first ''<code>'' (''<code class='' @ [CHR 0x22] @ ''path'' @ [CHR 0x22] @ ''>'') (renderExample (m_path m) type)
            else (''<code class='' @ [CHR 0x22] @ ''path'' @ [CHR 0x22] @ ''>'') @ escapeHtml (m_path m) @ ''</code>'');
          examplesHtml = (if otherExamples \<noteq> []
            then (''<span class='' @ [CHR 0x22] @ ''examples'' @ [CHR 0x22] @ ''>'') @ join '' '' (map (\<lambda>ex. renderExample ex type) otherExamples) @ ''</span>''
            else [])
      in newline @ (''        <div class='' @ [CHR 0x22] @ ''endpoint'' @ [CHR 0x22] @ ''>'') @ newline @
         ''            '' @ pathHtml @ newline @
         (''            <span class='' @ [CHR 0x22] @ ''desc'' @ [CHR 0x22] @ ''>'') @ escapeHtml (m_description m) @ ''</span>'' @ examplesHtml @ newline @
         ''        </div>'')"

definition renderEndpointGroup :: "grouped_endpoints \<Rightarrow> string \<Rightarrow> endpoint_type \<Rightarrow> string" where
  "renderEndpointGroup g sectionId type =
     (let groupId = sectionId @ ''-'' @ g_id (ge_group g);
          endpoints = join newline (map (\<lambda>m. renderEndpoint m type) (ge_endpoints g));
          descriptionHtml = (case g_description (ge_group g) of
              Some d \<Rightarrow> if d \<noteq> [] then (''<p class='' @ [CHR 0x22] @ ''group-description'' @ [CHR 0x22] @ ''>'') @ escapeHtml d @ ''</p>'' else []
            | None \<Rightarrow> [])
      in if g_id (ge_group g) = ''general'' then endpoints
         else
           newline @ (''        <details class='' @ [CHR 0x22] @ ''endpoint-group'' @ [CHR 0x22] @ '' open>'') @ newline @
           (''            <summary id='' @ [CHR 0x22]) @ groupId @ ([CHR 0x22] @ ''>'') @ escapeHtml (g_name (ge_group g)) @
             ('' <span class='' @ [CHR 0x22] @ ''count'' @ [CHR 0x22] @ ''>('') @ nat_str (length (ge_endpoints g)) @ '')</span></summary>'' @ newline @
           (''            <div class='' @ [CHR 0x22] @ ''group-content'' @ [CHR 0x22] @ ''>'') @ newline @
           ''                '' @ descriptionHtml @ newline @
           ''                '' @ endpoints @ newline @
           ''            </div>'' @ newline @
           ''        </details>'')"

record docs_section =
  ds_id :: string
  ds_title :: string
  ds_intro :: "string list"
  ds_groups :: "grouped_endpoints list"
  ds_type :: endpoint_type

definition section_id :: "docs_section \<Rightarrow> string" where
  "section_id s = replace_first ''-endpoints'' [] (ds_id s)"

record toc_entry =
  te_id :: string
  te_label :: string
  te_groups :: "(string \<times> string) list"

definition buildToc :: "docs_section list \<Rightarrow> toc_entry list" where
  "buildToc sections =
     map (\<lambda>s. \<lparr>te_id = ds_id s, te_label = ds_title s,
       te_groups = map (\<lambda>g. (section_id s @ ''-'' @ g_id (ge_group g), g_name (ge_group g)))
         (filter (\<lambda>g. g_id (ge_group g) \<noteq> ''general'') (ds_groups s))\<rparr>) sections"

definition renderSidebar :: "toc_entry list \<Rightarrow> string" where
  "renderSidebar toc =
     newline @ (''    <nav class='' @ [CHR 0x22] @ ''sidebar'' @ [CHR 0x22] @ '' id='' @ [CHR 0x22] @ ''sidebar'' @ [CHR 0x22] @ ''>'') @ newline @ ''        '' @
     join (newline @ ''        '') (map (\<lambda>s.
       newline @ (''        <div class='' @ [CHR 0x22] @ ''toc-section'' @ [CHR 0x22] @ ''>'') @ newline @
       (''            <a href='' @ [CHR 0x22] @ ''#'') @ te_id s @ ([CHR 0x22] @ '' class='' @ [CHR 0x22] @ ''toc-section-link'' @ [CHR 0x22] @ ''>'') @ escapeHtml (te_label s) @ ''</a>'' @ newline @
       (''            <ul class='' @ [CHR 0x22] @ ''toc-groups'' @ [CHR 0x22] @ ''>'') @ newline @ ''                '' @
       join (newline @ ''                '') (map (\<lambda>(gid, label). (''<li><a href='' @ [CHR 0x22] @ ''#'') @ gid @ ([CHR 0x22] @ ''>'') @ escapeHtml label @ ''</a></li>'') (te_groups s)) @ newline @
       ''            </ul>'' @ newline @
       ''        </div>'' @ newline @ ''        '') toc) @ newline @
     ''    </nav>''"

definition renderSection :: "docs_section \<Rightarrow> string" where
  "renderSection s =
     newline @ (''        <section class='' @ [CHR 0x22] @ ''section'' @ [CHR 0x22] @ ''>'') @ newline @
     (''            <h2 id='' @ [CHR 0x22]) @ ds_id s @ ([CHR 0x22] @ ''>'') @ escapeHtml (ds_title s) @ ''</h2>'' @ newline @
     (''            <div class='' @ [CHR 0x22] @ ''section-content'' @ [CHR 0x22] @ ''>'') @ newline @
     ''                '' @ join newline (map (\<lambda>p. ''<p>'' @ p @ ''</p>'') (ds_intro s)) @ newline @
     ''                '' @ join newline (map (\<lambda>g. renderEndpointGroup g (section_id s) (ds_type s)) (ds_groups s)) @ newline @
     ''            </div>'' @ newline @
     ''        </section>''"

definition docs_sections :: "(string \<Rightarrow> 'k::linorder) \<Rightarrow> docs_section list" where
  "docs_sections collate =
     [\<lparr>ds_id = ''http-endpoints'', ds_title = ''HTTP Endpoints'', ds_intro = [],
       ds_groups = groupEndpoints collate (map ep_meta httpEndpoints) httpGroupOrder, ds_type = HttpType\<rparr>,
      \<lparr>ds_id = ''websocket-endpoints'', ds_title = ''WebSocket Endpoints'', ds_intro = ws_intro,
       ds_groups = groupEndpoints collate (map ep_meta wsEndpoints) wsGroupOrder, ds_type = WsType\<rparr>,
      \<lparr>ds_id = ''tls-endpoints'', ds_title = ''TLS Endpoints'', ds_intro = tls_intro,
       ds_groups = groupEndpoints collate (map (Some \<circ> e_meta) tlsEndpoints) tlsGroupOrder, ds_type = TlsType\<rparr>]"

definition getDocsHtml :: "(string \<Rightarrow> 'k::linorder) \<Rightarrow> string" where
  "getDocsHtml collate =
     (let sections = docs_sections collate in
      lines_text [''<!DOCTYPE html>'',
       (''<html lang='' @ [CHR 0x22] @ ''en'' @ [CHR 0x22] @ ''>''),
       ''<head>'',
       (''    <meta charset='' @ [CHR 0x22] @ ''UTF-8'' @ [CHR 0x22] @ ''>''),
       (''    <meta name='' @ [CHR 0x22] @ ''viewport'' @ [CHR 0x22] @ '' content='' @ [CHR 0x22] @ ''width=device-width, initial-scale=1.0'' @ [CHR 0x22] @ ''>''),
       ''    <title>Testserver</title>'',
       []] @
      ''    '' @ CSS @ newline @
      ''</head>'' @ newline @ ''<body>'' @ newline @
      ''    '' @ renderSidebar (buildToc sections) @ newline @
      lines_text [(''    <main class='' @ [CHR 0x22] @ ''page-wrapper'' @ [CHR 0x22] @ ''>''),
       ''        <h1>Testserver</h1>'',
       (''        <p>A public test server for HTTP &amp; friends, built as part of <a href='' @ [CHR 0x22] @ ''https://httptoolkit.com'' @ [CHR 0x22] @ '' target='' @ [CHR 0x22] @ ''_blank'' @ [CHR 0x22] @ ''>HTTP Toolkit</a>.</p>''),
       (''        <p>Source code available at <a href='' @ [CHR 0x22] @ ''https://github.com/httptoolkit/testserver'' @ [CHR 0x22] @ '' target='' @ [CHR 0x22] @ ''_blank'' @ [CHR 0x22] @ ''>github.com/httptoolkit/testserver</a>.</p>''),
       [],
       []] @
      ''        '' @ join newline (map renderSection sections) @ newline @
      lines_text [[],
       ''        <footer>'',
       (''            <p>Built by <a href='' @ [CHR 0x22] @ ''https://httptoolkit.com'' @ [CHR 0x22] @ '' target='' @ [CHR 0x22] @ ''_blank'' @ [CHR 0x22] @ ''>HTTP Toolkit</a></p>''),
       ''        </footer>'',
       ''    </main>'',
       []] @
      ''    '' @ SCRIPT @ newline @
      ''</body>'' @ newline @ ''</html>'')"

section \<open>Escaping\<close>

fun html_char :: "char \<Rightarrow> string" where
  "html_char c =
     (if c = CHR ''&'' then ''&amp;'' else if c = CHR ''<'' then ''&lt;'' else if c = CHR ''>'' then ''&gt;''
      else if c = CHR 0x22 then ''&quot;'' else [c])"

declare html_char.simps [simp del]

lemma replace_all_concat: "replace_all c r (concat (map f s)) = concat (map (\<lambda>x. replace_all c r (f x)) s)"
  by (induction s) (simp_all add: replace_all_def)

lemma escapeHtml_chars: "escapeHtml s = concat (map html_char s)"
proof -
  have "replace_all (CHR ''&'') ''&amp;'' s = concat (map (\<lambda>x. replace_all (CHR ''&'') ''&amp;'' [x]) s)"
    by (simp add: replace_all_def)
  then have "escapeHtml s = concat (map escapeHtml (map (\<lambda>x. [x]) s))"
    unfolding escapeHtml_def by (simp only: replace_all_concat map_map comp_def)
  moreover have "escapeHtml [c] = html_char c" for c
    by (auto simp: escapeHtml_def replace_all_def html_char.simps)
  ultimately show ?thesis by (simp add: comp_def)
qed

text \<open>How a browser reads the text of an element or of an attribute in double quotes.\<close>

definition entities :: "(string \<times> char) list" where
  "entities = [(''&amp;'', CHR ''&''), (''&lt;'', CHR ''<''), (''&gt;'', CHR ''>''), (''&quot;'', CHR 0x22)]"

lemma entity_nonempty: "find (\<lambda>(e, x). starts_with s e) entities = Some (e, x) \<Longrightarrow> e \<noteq> []"
  by (auto simp: entities_def split: if_splits)

function html_text :: "string \<Rightarrow> string" where
  "html_text s =
     (case s of
        [] \<Rightarrow> []
      | c # r \<Rightarrow>
          (case find (\<lambda>(e, x). starts_with s e) entities of
             Some (e, x) \<Rightarrow> x # html_text (drop (length e) s)
           | None \<Rightarrow> c # html_text r))"
  by pat_completeness auto
termination by (relation "measure length") (auto dest!: entity_nonempty)

declare html_text.simps [simp del]

lemma html_text_char: "html_text (html_char c @ r) = c # html_text r"
  by (subst html_text.simps) (auto simp: html_char.simps entities_def)

text \<open>
  Escaped text has no character that opens or closes a tag or an attribute, and is read back as
  the text it was made from.
\<close>

theorem escaped_text_safe:
  "html_text (escapeHtml s) = s \<and> set (escapeHtml s) \<inter> {CHR ''<'', CHR ''>'', CHR 0x22} = {}"
proof -
  have "html_text (concat (map html_char s)) = s"
    by (induction s) (simp_all add: html_text_char, simp add: html_text.simps)
  moreover have "set (html_char c) \<inter> {CHR ''<'', CHR ''>'', CHR 0x22} = {}" for c
    by (auto simp: html_char.simps)
  ultimately show ?thesis by (auto simp: escapeHtml_chars)
qed

section \<open>Every endpoint is there once\<close>

definition all_in :: "(string \<times> grouped_endpoints) list \<Rightarrow> endpoint_meta multiset" where
  "all_in groups = sum_list (map (\<lambda>(k, g). mset (ge_endpoints g)) groups)"

lemma all_in_update:
  assumes "distinct (map fst groups)"
  shows "all_in (AList.update k g' groups) + mset (case map_of groups k of None \<Rightarrow> [] | Some g \<Rightarrow> ge_endpoints g) =
    all_in groups + mset (ge_endpoints g')"
  using assms
proof (induction groups)
  case (Cons e groups)
  show ?case
  proof (cases "fst e = k")
    case True
    then show ?thesis by (cases e) (simp add: all_in_def)
  next
    case False
    then show ?thesis using Cons by (cases e) (simp add: all_in_def)
  qed
qed (simp add: all_in_def)

text \<open>A group has the endpoints of its key, at least one, and the identity that its key says.\<close>

definition group_of_key :: "string \<Rightarrow> grouped_endpoints \<Rightarrow> bool" where
  "group_of_key k g \<longleftrightarrow>
     ge_endpoints g \<noteq> [] \<and> list_all (\<lambda>m. group_key m = k) (ge_endpoints g) \<and>
     g_id (ge_group g) = (if k = [] then ''general'' else k)"

definition groups_ok :: "(string \<times> grouped_endpoints) list \<Rightarrow> bool" where
  "groups_ok groups \<longleftrightarrow> distinct (map fst groups) \<and> (\<forall>(k, g) \<in> set groups. group_of_key k g)"

lemma set_update_subset: "set (AList.update k v al) \<subseteq> insert (k, v) (set al)"
  by (induction al) auto

lemma add_to_group_ok:
  assumes "groups_ok groups" and "\<And>g. m_group m = Some g \<Longrightarrow> g_id g \<noteq> []"
  shows "groups_ok (add_to_group groups m) \<and> all_in (add_to_group groups m) = add_mset m (all_in groups)"
proof -
  define old where "old = (case map_of groups (group_key m) of
      Some g \<Rightarrow> g
    | None \<Rightarrow> \<lparr>ge_group = (case m_group m of None \<Rightarrow> GENERAL_GROUP | Some g \<Rightarrow> g), ge_endpoints = []\<rparr>)"
  let ?new = "old\<lparr>ge_endpoints := ge_endpoints old @ [m]\<rparr>"
  have update: "add_to_group groups m = AList.update (group_key m) ?new groups"
    by (simp add: add_to_group_def old_def Let_def)
  have "list_all (\<lambda>x. group_key x = group_key m) (ge_endpoints old) \<and>
      g_id (ge_group old) = (if group_key m = [] then ''general'' else group_key m)"
  proof (cases "map_of groups (group_key m)")
    case None
    then show ?thesis using assms(2) by (auto simp: old_def group_key_def GENERAL_GROUP_def split: option.splits)
  next
    case (Some g)
    then have "group_of_key (group_key m) g" using assms(1) by (auto simp: groups_ok_def dest: map_of_SomeD)
    then show ?thesis using Some by (simp add: old_def group_of_key_def)
  qed
  then have "group_of_key (group_key m) ?new" by (simp add: group_of_key_def)
  then have "groups_ok (add_to_group groups m)"
    using assms(1) set_update_subset [of "group_key m" ?new groups] distinct_update [of groups]
    unfolding groups_ok_def update by blast
  moreover have "mset (case map_of groups (group_key m) of None \<Rightarrow> [] | Some g \<Rightarrow> ge_endpoints g) = mset (ge_endpoints old)"
    by (simp add: old_def split: option.split)
  then have "all_in (add_to_group groups m) + mset (ge_endpoints old) = add_mset m (all_in groups) + mset (ge_endpoints old)"
    using all_in_update [of groups "group_key m" ?new] assms(1) by (simp add: update groups_ok_def)
  ultimately show ?thesis by simp
qed

definition proper_group :: "endpoint_meta option \<Rightarrow> bool" where
  "proper_group m =
     (case m of None \<Rightarrow> True | Some m \<Rightarrow>
       (case m_group m of None \<Rightarrow> True | Some g \<Rightarrow> g_id g \<noteq> [] \<and> g_id g \<noteq> ''general''))"

lemma add_groups_ok:
  assumes "groups_ok groups" and "list_all (proper_group \<circ> Some) ms"
  shows "groups_ok (foldl add_to_group groups ms) \<and> all_in (foldl add_to_group groups ms) = all_in groups + mset ms"
  using assms
proof (induction ms arbitrary: groups)
  case (Cons m ms)
  have "groups_ok (add_to_group groups m) \<and> all_in (add_to_group groups m) = add_mset m (all_in groups)"
    by (rule add_to_group_ok) (use Cons.prems in \<open>auto simp: proper_group_def\<close>)
  then show ?case using Cons by simp
qed simp

definition group_shown :: "(string \<Rightarrow> 'k::linorder) \<Rightarrow> grouped_endpoints \<Rightarrow> bool" where
  "group_shown collate g \<longleftrightarrow>
     ge_endpoints g \<noteq> [] \<and> sorted (map (\<lambda>m. collate (m_path m)) (ge_endpoints g)) \<and>
     list_all (\<lambda>m. g_id (ge_group g) = (if group_key m = [] then ''general'' else group_key m)) (ge_endpoints g)"

definition section_rank :: "endpoint_group list \<Rightarrow> grouped_endpoints \<Rightarrow> nat" where
  "section_rank groupOrder g =
     (if g_id (ge_group g) = ''general'' then 0 else Suc (order_index groupOrder (g_id (ge_group g))))"

definition section_complete ::
    "(string \<Rightarrow> 'k::linorder) \<Rightarrow> endpoint_meta option list \<Rightarrow> endpoint_group list \<Rightarrow> grouped_endpoints list \<Rightarrow> bool" where
  "section_complete collate endpoints groupOrder gs \<longleftrightarrow>
     mset (concat (map ge_endpoints gs)) = mset (List.map_filter id endpoints) \<and>
     list_all (group_shown collate) gs \<and> distinct (map (g_id \<circ> ge_group) gs) \<and> sorted (map (section_rank groupOrder) gs)"

lemma mset_concat_sum: "mset (concat xss) = sum_list (map mset xss)"
  by (induction xss) simp_all

lemma sum_list_perm: "mset xs = mset ys \<Longrightarrow> sum_list (map f xs) = (sum_list (map f ys) :: 'a::comm_monoid_add)"
  by (metis mset_map sum_mset_sum_list)

lemma all_in_member: "(k, g) \<in> set groups \<Longrightarrow> m \<in> set (ge_endpoints g) \<Longrightarrow> m \<in># all_in groups"
  by (induction groups) (auto simp: all_in_def)

lemma sort_nonempty: "sort_key f xs = [] \<longleftrightarrow> xs = []"
  by (metis length_0_conv length_sort)

lemma sorted_Suc: "sorted xs \<Longrightarrow> sorted (map Suc xs)"
  by (induction xs) auto

lemma all_in_split:
  assumes "distinct (map fst groups)"
  shows "all_in groups = mset (case map_of groups [] of Some g \<Rightarrow> ge_endpoints g | None \<Rightarrow> []) +
    all_in (filter (\<lambda>(k, _). k \<noteq> []) groups)"
  using assms
proof (induction groups)
  case (Cons e groups)
  have "k \<notin> fst ` set gs \<Longrightarrow> filter (\<lambda>(j, _). j \<noteq> k) gs = gs" for k and gs :: "(string \<times> grouped_endpoints) list"
    by (rule filter_True) force
  then show ?case using Cons by (cases e) (auto simp: all_in_def ac_simps)
qed (simp add: all_in_def)

lemma groupEndpoints_complete:
  assumes "list_all proper_group endpoints"
  shows "section_complete collate endpoints groupOrder (groupEndpoints collate endpoints groupOrder)"
proof -
  let ?ms = "List.map_filter id endpoints"
  define groups where "groups = foldl add_to_group [] ?ms"
  let ?sorted = "\<lambda>g. g\<lparr>ge_endpoints := sortEndpoints collate (ge_endpoints g)\<rparr>"
  define rest where "rest = sort_key (\<lambda>(_, g). order_index groupOrder (g_id (ge_group g))) (filter (\<lambda>(k, _). k \<noteq> []) groups)"
  define ungrouped where "ungrouped = (case map_of groups [] of
      Some g \<Rightarrow> if ge_endpoints g \<noteq> [] then [?sorted g] else [] | None \<Rightarrow> [])"
  have result: "groupEndpoints collate endpoints groupOrder = ungrouped @ map (\<lambda>(_, g). ?sorted g) rest"
    by (simp add: groupEndpoints_def groups_def rest_def ungrouped_def Let_def)
  have "list_all (proper_group \<circ> Some) ?ms" using assms by (auto simp: list_all_iff map_filter_def)
  then have ok: "groups_ok groups" and all: "all_in groups = mset ?ms"
    using add_groups_ok [of "[]" ?ms] by (simp_all add: groups_def groups_ok_def all_in_def)
  have each: "group_of_key k g" if "(k, g) \<in> set groups" for k g using ok that by (auto simp: groups_ok_def)
  have proper: "k \<noteq> ''general''" if mem: "(k, g) \<in> set groups" for k g
  proof -
    obtain m where m: "m \<in> set (ge_endpoints g)" "group_key m = k"
      using each [OF mem] by (cases "ge_endpoints g") (auto simp: group_of_key_def)
    have "m \<in># all_in groups" by (rule all_in_member [OF mem m(1)])
    then have "Some m \<in> set endpoints" by (auto simp: all map_filter_def)
    then show ?thesis using assms m(2) by (auto simp: list_all_iff proper_group_def group_key_def split: option.splits)
  qed
  have rest_set: "set rest = {e \<in> set groups. fst e \<noteq> []}" by (auto simp: rest_def)
  have shown: "group_shown collate (?sorted g)" if "group_of_key k g" for k g
    using that sort_nonempty by (auto simp: group_shown_def group_of_key_def sortEndpoints_def list_all_iff)
  have first: "ungrouped = (case map_of groups [] of Some g \<Rightarrow> [?sorted g] | None \<Rightarrow> [])"
    using each by (auto simp: ungrouped_def group_of_key_def dest!: map_of_SomeD split: option.split)
  have ids: "g_id (ge_group g) = k" if "(k, g) \<in> set rest" for k g
    using that each [of k g] rest_set by (auto simp: group_of_key_def)
  have "mset (concat (map ge_endpoints (ungrouped @ map (\<lambda>(_, g). ?sorted g) rest))) =
      mset (case map_of groups [] of Some g \<Rightarrow> ge_endpoints g | None \<Rightarrow> []) + all_in rest"
    by (simp add: first mset_concat_sum all_in_def comp_def case_prod_unfold sortEndpoints_def split: option.split)
  moreover have "all_in rest = all_in (filter (\<lambda>(k, _). k \<noteq> []) groups)"
    unfolding all_in_def rest_def by (rule sum_list_perm) simp
  ultimately have "mset (concat (map ge_endpoints (groupEndpoints collate endpoints groupOrder))) = mset ?ms"
    using all_in_split [of groups] ok all by (simp add: result groups_ok_def)
  moreover have "list_all (group_shown collate) (groupEndpoints collate endpoints groupOrder)"
  proof -
    have every: "group_shown collate (?sorted g)" if "(k, g) \<in> set groups" for k g by (rule shown [OF each [OF that]])
    then have "map_of groups [] = Some g \<Longrightarrow> group_shown collate (?sorted g)" for g by (blast dest: map_of_SomeD)
    then show ?thesis
      unfolding result list_all_append using every rest_set by (auto simp: first list_all_iff split: option.split)
  qed
  moreover have "distinct (map (g_id \<circ> ge_group) (groupEndpoints collate endpoints groupOrder))"
  proof -
    have keys: "map (g_id \<circ> ge_group) (map (\<lambda>(_, g). ?sorted g) rest) = map fst rest"
      using ids by (auto simp: map_eq_conv)
    have "distinct (map fst (filter (\<lambda>(k, _). k \<noteq> []) groups))" using ok by (simp add: groups_ok_def distinct_map_filter)
    moreover have "mset (map fst rest) = mset (map fst (filter (\<lambda>(k, _). k \<noteq> []) groups))" by (simp add: rest_def)
    ultimately have "distinct (map fst rest)" by (metis mset_eq_imp_distinct_iff)
    moreover have "''general'' \<notin> fst ` set rest" using proper [of "''general''"] rest_set by auto
    moreover have "map_of groups [] = Some g \<Longrightarrow> g_id (ge_group g) = ''general''" for g
      using each [of "[]" g] by (auto simp: group_of_key_def dest!: map_of_SomeD)
    ultimately show ?thesis unfolding result map_append keys by (cases "map_of groups []") (simp_all add: first)
  qed
  moreover have "sorted (map (section_rank groupOrder) (groupEndpoints collate endpoints groupOrder))"
  proof -
    have "section_rank groupOrder (?sorted g) = Suc (order_index groupOrder (g_id (ge_group g)))" if "(k, g) \<in> set rest" for k g
      using that ids [OF that] proper [of k g] rest_set by (auto simp: section_rank_def)
    then have ranks: "map (section_rank groupOrder) (map (\<lambda>(_, g). ?sorted g) rest) =
        map Suc (map (\<lambda>(_, g). order_index groupOrder (g_id (ge_group g))) rest)"
      by (auto simp: map_eq_conv)
    have "sorted (map (\<lambda>(_, g). order_index groupOrder (g_id (ge_group g))) rest)" unfolding rest_def by (rule sorted_sort_key)
    then have "sorted (map Suc (map (\<lambda>(_, g). order_index groupOrder (g_id (ge_group g))) rest))"
      by (rule sorted_Suc)
    moreover have "map_of groups [] = Some g \<Longrightarrow> section_rank groupOrder (?sorted g) = 0" for g
      using each [of "[]" g] by (auto simp: group_of_key_def section_rank_def dest!: map_of_SomeD)
    ultimately show ?thesis unfolding result map_append ranks first by (auto split: option.split)
  qed
  ultimately show ?thesis by (simp add: section_complete_def)
qed

section \<open>The page\<close>

fun documented :: "endpoint_type \<Rightarrow> endpoint_meta option list" where
  "documented HttpType = map ep_meta httpEndpoints"
| "documented WsType = map ep_meta wsEndpoints"
| "documented TlsType = map (Some \<circ> e_meta) tlsEndpoints"

fun group_order :: "endpoint_type \<Rightarrow> endpoint_group list" where
  "group_order HttpType = httpGroupOrder"
| "group_order WsType = wsGroupOrder"
| "group_order TlsType = tlsGroupOrder"

lemma documented_proper: "list_all proper_group (documented t)"
proof -
  have "list_all proper_group (documented HttpType)" by code_simp
  moreover have "list_all proper_group (documented WsType)" by code_simp
  moreover have "list_all proper_group (documented TlsType)" by code_simp
  ultimately show ?thesis by (cases t) (simp_all only:)
qed

lemma sections_complete:
  "list_all (\<lambda>s. section_complete collate (documented (ds_type s)) (group_order (ds_type s)) (ds_groups s)) (docs_sections collate)"
  using groupEndpoints_complete [OF documented_proper [of HttpType], of collate]
    groupEndpoints_complete [OF documented_proper [of WsType], of collate]
    groupEndpoints_complete [OF documented_proper [of TlsType], of collate]
  by (simp add: docs_sections_def)

text \<open>
  Each section of the page has every documented endpoint of its kind exactly once, in the group
  it names, the groups in the given order after the general one and never empty, and the endpoints
  of a group in the order of their paths.
\<close>

theorem docs_sections_complete:
  "list_all (\<lambda>s. section_complete collate (documented (ds_type s)) (group_order (ds_type s)) (ds_groups s)) (docs_sections collate)"
  by (rule sections_complete)

lemma sublist_middle: "sublist x y \<Longrightarrow> sublist x (p @ y @ q)"
  unfolding sublist_def by (metis append.assoc)

lemma sublist_join: "x \<in> set xs \<Longrightarrow> sublist x (join sep xs)"
proof (induction sep xs rule: join.induct)
  case (3 sep x' y ys)
  show ?case
  proof (cases "x = x'")
    case True
    then show ?thesis using sublist_middle [of x x "[]" "sep @ join sep (y # ys)"] by simp
  next
    case False
    then have "sublist x (join sep (y # ys))" using 3 by simp
    then show ?thesis using sublist_middle [of x "join sep (y # ys)" "x' @ sep" "[]"] by simp
  qed
qed auto

lemma sublist_left: "sublist x b \<Longrightarrow> sublist x (a @ b)"
  using sublist_middle [of x b a "[]"] by simp

lemma sublist_right: "sublist x a \<Longrightarrow> sublist x (a @ b)"
  using sublist_middle [of x a "[]" b] by simp

lemma sublist_through: "sublist x y \<Longrightarrow> y \<in> set ys \<Longrightarrow> sublist x (join sep ys)"
  using sublist_join [of y ys sep] unfolding sublist_def by (metis append.assoc)

lemma group_has_endpoint: "m \<in> set (ge_endpoints g) \<Longrightarrow> sublist (renderEndpoint m t) (renderEndpointGroup g sid t)"
proof -
  assume "m \<in> set (ge_endpoints g)"
  then have part: "sublist (renderEndpoint m t) (join newline (map (\<lambda>m. renderEndpoint m t) (ge_endpoints g)))"
    by (intro sublist_join) simp
  show ?thesis
  proof (cases "g_id (ge_group g) = ''general''")
    case True
    then show ?thesis using part by (simp add: renderEndpointGroup_def Let_def)
  next
    case False
    show ?thesis
      unfolding renderEndpointGroup_def Let_def if_not_P [OF False]
      by (rule part | rule sublist_right [OF part] | rule sublist_left)+
  qed
qed

lemma section_has_endpoint:
  assumes "g \<in> set (ds_groups s)" and "m \<in> set (ge_endpoints g)"
  shows "sublist (renderEndpoint m (ds_type s)) (renderSection s)"
proof -
  have part: "sublist (renderEndpoint m (ds_type s))
      (join newline (map (\<lambda>g. renderEndpointGroup g (section_id s) (ds_type s)) (ds_groups s)))"
    by (rule sublist_through [OF group_has_endpoint [OF assms(2), where sid = "section_id s"]]) (use assms(1) in simp)
  show ?thesis
    unfolding renderSection_def by (rule part | rule sublist_right [OF part] | rule sublist_left)+
qed

lemma page_has_section:
  assumes "sublist x (renderSection s)" and "s \<in> set (docs_sections collate)"
  shows "sublist x (getDocsHtml collate)"
proof -
  have part: "sublist x (join newline (map renderSection (docs_sections collate)))"
    by (rule sublist_through [OF assms(1)]) (use assms(2) in simp)
  show ?thesis
    unfolding getDocsHtml_def Let_def by (rule part | rule sublist_right [OF part] | rule sublist_left)+
qed

text \<open>C39: The entry of every documented endpoint is on the page, whatever the collation.\<close>

theorem every_endpoint_documented:
  assumes "Some m \<in> set (documented t)"
  shows "sublist (renderEndpoint m t) (getDocsHtml collate)"
proof -
  have "\<exists>s \<in> set (docs_sections collate). ds_type s = t" by (cases t) (simp_all add: docs_sections_def)
  then obtain s where s: "s \<in> set (docs_sections collate)" "ds_type s = t" by blast
  have complete: "section_complete collate (documented t) (group_order t) (ds_groups s)"
    using sections_complete s by (auto simp: list_all_iff)
  have "m \<in># mset (List.map_filter id (documented t))" using assms by (force simp: map_filter_def)
  then have "m \<in> set (concat (map ge_endpoints (ds_groups s)))"
    using complete by (simp add: section_complete_def flip: set_mset_mset del: set_mset_mset set_concat)
  then obtain g where "g \<in> set (ds_groups s)" "m \<in> set (ge_endpoints g)" by auto
  from page_has_section [OF section_has_endpoint [OF this] s(1)] show ?thesis by (simp only: s(2))
qed

theorem every_endpoint_documented_witness:
  "sublist (renderEndpoint (e_meta expired) TlsType) (getDocsHtml (\<lambda>path. length path))"
  by (rule every_endpoint_documented) (simp add: tlsEndpoints_def)

text \<open>
  In the template literal of the code \<open>\/\<close> is a plain slash, so the pattern that the script matches
  examples with ends at its first slash, and the script is not valid JavaScript.
\<close>

lemma script_pattern: "sublist ''            const match = example.match(/^https?://([^.]+)/);'' SCRIPT"
  unfolding SCRIPT_def lines_text_def by (rule sublist_join) (simp only: list.set insert_iff simp_thms)

end
