(* ===== verification/Capture_Stream.thy ===== *)
theory Capture_Stream
  imports Connection
begin

text \<open>
  The stream around an HTTP/2 connection (\<open>DataCapturingStream\<close> of \<^verbatim>\<open>src/process-connection.ts\<close>), as a
  Node \<open>Duplex\<close>: what it forwards between the wrapped stream and its reader, what it copies from
  the wrapped stream, and when it captures. The capture itself is \<open>Frame_Capture\<close>. The law is that
  the stream is a pipe: it delivers every byte once and in order, whenever it is read, and captures
  exactly the bytes it delivers; the one exception is a wrapped stream that ends before the first read.
\<close>

section \<open>What a socket carries\<close>

text \<open>
  The fields of a socket that the server reads. \<open>si_net\<close> is the socket itself when it is a
  \<open>net.Socket\<close> (as a \<open>TLSSocket\<close> is), \<open>si_hello\<close> and \<open>si_proxy\<close> the two symbols.
\<close>

record 'h socket_info =
  si_remoteAddress :: "string option"
  si_remotePort :: "int option"
  si_localAddress :: "string option"
  si_localPort :: "int option"
  si_encrypted :: "bool option"
  si_proxy :: "proxy_data option"
  si_hello :: "'h option"
  si_underlying :: "nat option"
  si_net :: "nat option"

definition wrapper_info :: "'h socket_info \<Rightarrow> 'h socket_info" where
  "wrapper_info wrapped =
     \<lparr>si_remoteAddress = si_remoteAddress wrapped, si_remotePort = si_remotePort wrapped,
      si_localAddress = si_localAddress wrapped, si_localPort = si_localPort wrapped,
      si_encrypted = Some (case si_encrypted wrapped of None \<Rightarrow> False | Some b \<Rightarrow> b),
      si_proxy = si_proxy wrapped, si_hello = si_hello wrapped,
      si_underlying = (case si_underlying wrapped of None \<Rightarrow> si_net wrapped | Some u \<Rightarrow> Some u),
      si_net = None\<rparr>"

section \<open>The stream\<close>

text \<open>\<open>incoming\<close> is what the wrapped stream has buffered.\<close>

record 'c capture_stream =
  frames :: "'c capture"
  readingStarted :: bool
  pendingInitialData :: "bytes option"
  incoming :: bytes

definition new_capture_stream :: "bytes option \<Rightarrow> 'c capture_stream" where
  "new_capture_stream initialData =
     \<lparr>frames = (case initialData of None \<Rightarrow> new_capture | Some d \<Rightarrow> processIncomingData new_capture d),
      readingStarted = False, pendingInitialData = initialData, incoming = []\<rparr>"

text \<open>What happens to the stream, and what the world sees of it.\<close>

datatype 'c stream_event =
    Arrive bytes
  | Readable
  | ReadCalled
  | WriteCalled bytes
  | FinalCalled
  | DestroyCalled "string option"
  | WrappedEnd
  | WrappedError string
  | WrappedClose
  | AddCallback nat 'c
  | RemoveCallback nat
  | StopCapturing nat

datatype action =
    Arrived bytes
  | Pushed bytes
  | PushedNull
  | WroteThrough bytes
  | EndedThrough
  | DestroyedThrough "string option"
  | EmittedError string
  | EmittedClose

definition read_start :: "'c capture_stream \<Rightarrow> action list \<times> 'c capture_stream" where
  "read_start s =
     (if readingStarted s then ([], s)
      else (case pendingInitialData s of None \<Rightarrow> [] | Some d \<Rightarrow> [Pushed d],
            s\<lparr>readingStarted := True, pendingInitialData := None\<rparr>))"

text \<open>
  The listener that \<open>_read\<close> adds: \<open>wrapped.read()\<close> returns all that is buffered, then null.
\<close>

definition on_wrapped_readable :: "'c capture_stream \<Rightarrow> action list \<times> 'c capture_stream" where
  "on_wrapped_readable s =
     (if readingStarted s \<and> incoming s \<noteq> []
      then ([Pushed (incoming s)], s\<lparr>frames := processIncomingData (frames s) (incoming s), incoming := []\<rparr>)
      else ([], s))"

fun stream_step :: "'c stream_event \<Rightarrow> 'c capture_stream \<Rightarrow> action list \<times> 'c capture_stream" where
  "stream_step (Arrive d) s = ([Arrived d], s\<lparr>incoming := incoming s @ d\<rparr>)"
| "stream_step Readable s = on_wrapped_readable s"
| "stream_step ReadCalled s = read_start s"
| "stream_step (WriteCalled d) s = ([WroteThrough d], s)"
| "stream_step FinalCalled s = ([EndedThrough], s)"
| "stream_step (DestroyCalled e) s = ([DestroyedThrough e], s)"
| "stream_step WrappedEnd s = ([PushedNull], s)"
| "stream_step (WrappedError m) s = ([EmittedError m], s)"
| "stream_step WrappedClose s = ([EmittedClose], s)"
| "stream_step (AddCallback i cb) s = ([], s\<lparr>frames := snd (addStreamCallback i cb (frames s))\<rparr>)"
| "stream_step (RemoveCallback i) s = ([], s\<lparr>frames := removeStreamCallback i (frames s)\<rparr>)"
| "stream_step (StopCapturing i) s = ([], s\<lparr>frames := stopCapturingStream i (frames s)\<rparr>)"

text \<open>
  Events as they can come: Node emits \<open>end\<close> only when everything that the wrapped stream has buffered was read.
\<close>

definition can_happen :: "'c stream_event \<Rightarrow> 'c capture_stream \<Rightarrow> bool" where
  "can_happen e s \<longleftrightarrow> (case e of WrappedEnd \<Rightarrow> incoming s = [] | _ \<Rightarrow> True)"

definition stream_turn :: "'c stream_event \<Rightarrow> 'c capture_stream \<Rightarrow> action list \<times> 'c capture_stream" where
  "stream_turn e s = (if can_happen e s then stream_step e s else ([], s))"

fun stream_run :: "'c stream_event list \<Rightarrow> 'c capture_stream \<Rightarrow> action list \<times> 'c capture_stream" where
  "stream_run [] s = ([], s)"
| "stream_run (e # es) s =
     (case stream_turn e s of (acts, s') \<Rightarrow> map_prod (append acts) id (stream_run es s'))"

text \<open>
  The wrapped stream does not end before the first read. It may: the connection processor reads the first bytes
  itself, and when the peer has closed by then, \<open>end\<close> comes before anything is asked of the new stream.
\<close>

fun ends_late :: "'c stream_event list \<Rightarrow> 'c capture_stream \<Rightarrow> bool" where
  "ends_late [] s \<longleftrightarrow> True"
| "ends_late (e # es) s \<longleftrightarrow>
     (case e of WrappedEnd \<Rightarrow> readingStarted s | _ \<Rightarrow> True) \<and> ends_late es (snd (stream_turn e s))"

section \<open>A pipe\<close>

text \<open>
  The specification: a pipe keeps the bytes in transit. It may hand over any front part of them, ends
  only when none is left, and passes on everything else as it comes.
\<close>

inductive pipe_step :: "action \<Rightarrow> bytes \<Rightarrow> bytes \<Rightarrow> bool" where
  arrive: "pipe_step (Arrived d) t (t @ d)"
| push: "pipe_step (Pushed d) (d @ t) t"
| push_null: "pipe_step PushedNull [] []"
| write_through: "pipe_step (WroteThrough d) t t"
| end_through: "pipe_step EndedThrough t t"
| destroy_through: "pipe_step (DestroyedThrough e) t t"
| emit_error: "pipe_step (EmittedError m) t t"
| emit_close: "pipe_step EmittedClose t t"

inductive_cases pipe_pushE [elim!]: "pipe_step (Pushed d) t t'"
inductive_cases pipe_arriveE [elim!]: "pipe_step (Arrived d) t t'"

inductive pipe :: "action list \<Rightarrow> bytes \<Rightarrow> bytes \<Rightarrow> bool" where
  idle [intro]: "pipe [] t t"
| act: "pipe_step a t u \<Longrightarrow> pipe as u v \<Longrightarrow> pipe (a # as) t v"

lemma pipe_append [intro]: "pipe as t u \<Longrightarrow> pipe bs u v \<Longrightarrow> pipe (as @ bs) t v"
  by (induction rule: pipe.induct) (auto intro: pipe.act)

lemma pipe_single: "pipe_step a t u \<Longrightarrow> pipe [a] t u"
  by (auto intro: pipe.act)

definition arrived :: "action list \<Rightarrow> bytes" where
  "arrived acts = concat (map (\<lambda>a. case a of Arrived d \<Rightarrow> d | _ \<Rightarrow> []) acts)"

fun pushed :: "action list \<Rightarrow> bytes list" where
  "pushed [] = []"
| "pushed (Pushed d # as) = d # pushed as"
| "pushed (_ # as) = pushed as"

lemma pushed_append [simp]: "pushed (as @ bs) = pushed as @ pushed bs"
  by (induction as rule: pushed.induct) simp_all

lemma pushed_split: "pushed (a # as) = pushed [a] @ pushed as"
  using pushed_append [of "[a]" as] by simp

text \<open>Nothing is lost, made up or reordered in a pipe.\<close>

lemma pipe_conserves: "pipe acts t u \<Longrightarrow> concat (pushed acts) @ u = t @ arrived acts"
proof (induction rule: pipe.induct)
  case (act a t u as v)
  then show ?case by (cases rule: pipe_step.cases) (auto simp: arrived_def)
qed (simp add: arrived_def)

section \<open>The stream is a pipe\<close>

definition in_transit :: "'c capture_stream \<Rightarrow> bytes" where
  "in_transit s = (case pendingInitialData s of None \<Rightarrow> [] | Some d \<Rightarrow> d) @ incoming s"

definition stream_ok :: "'c capture_stream \<Rightarrow> bool" where
  "stream_ok s \<longleftrightarrow> (readingStarted s \<longrightarrow> pendingInitialData s = None)"

lemma new_stream_ok: "stream_ok (new_capture_stream d)"
  by (simp add: stream_ok_def new_capture_stream_def)

lemma stream_step_ok: "stream_ok s \<Longrightarrow> stream_ok (snd (stream_step e s))"
  by (cases e) (auto simp: stream_ok_def read_start_def on_wrapped_readable_def)

lemma stream_turn_ok: "stream_ok s \<Longrightarrow> stream_ok (snd (stream_turn e s))"
  by (simp add: stream_turn_def stream_step_ok)

lemma stream_run_ok: "stream_ok s \<Longrightarrow> stream_ok (snd (stream_run es s))"
  by (induction es arbitrary: s) (simp_all add: case_prod_unfold stream_turn_ok)

lemma stream_turn_pipe:
  assumes "stream_ok s" and "e = WrappedEnd \<Longrightarrow> readingStarted s"
  shows "pipe (fst (stream_turn e s)) (in_transit s) (in_transit (snd (stream_turn e s)))"
proof (cases e)
  case (Arrive d)
  then show ?thesis
    using pipe_single [OF arrive [of d "in_transit s"]] by (simp add: in_transit_def stream_turn_def can_happen_def)
next
  case Readable
  then show ?thesis
    using assms pipe_single [OF push [of "incoming s" "[]"]]
    by (auto simp: on_wrapped_readable_def in_transit_def stream_ok_def stream_turn_def can_happen_def)
next
  case ReadCalled
  then show ?thesis
    using pipe_single [OF push [of "the (pendingInitialData s)" "incoming s"]]
    by (auto simp: read_start_def in_transit_def stream_turn_def can_happen_def split: option.splits)
next
  case WrappedEnd
  then show ?thesis
    using assms pipe_single [OF push_null] by (auto simp: in_transit_def stream_ok_def stream_turn_def can_happen_def)
qed (auto simp: in_transit_def stream_turn_def can_happen_def intro!: pipe_single pipe_step.intros)

lemma stream_turn_conserves:
  assumes "stream_ok s"
  shows "concat (pushed (fst (stream_turn e s))) @ in_transit (snd (stream_turn e s)) =
    in_transit s @ arrived (fst (stream_turn e s))"
proof (cases "e = WrappedEnd")
  case True
  then show ?thesis by (simp add: stream_turn_def arrived_def)
next
  case False
  then show ?thesis using pipe_conserves [OF stream_turn_pipe [OF assms]] by blast
qed

lemma arrived_append [simp]: "arrived (as @ bs) = arrived as @ arrived bs"
  by (simp add: arrived_def)

lemma stream_run_pipe:
  "stream_ok s \<Longrightarrow> stream_run es s = (acts, s') \<Longrightarrow>
    concat (pushed acts) @ in_transit s' = in_transit s @ arrived acts \<and>
    (ends_late es s \<longrightarrow> pipe acts (in_transit s) (in_transit s'))"
proof (induction es arbitrary: s acts)
  case (Cons e es)
  obtain as s1 where e: "stream_turn e s = (as, s1)" by force
  obtain bs where es: "stream_run es s1 = (bs, s')" and acts: "acts = as @ bs"
    using Cons.prems(2) e by (cases "stream_run es s1") auto
  have ok: "stream_ok s1" using stream_turn_ok [OF Cons.prems(1), of e] e by simp
  note rest = Cons.IH [OF ok es]
  have "concat (pushed acts) @ in_transit s' = concat (pushed as) @ in_transit s1 @ arrived bs"
    using rest by (simp add: acts)
  also have "\<dots> = in_transit s @ arrived acts"
    using stream_turn_conserves [OF Cons.prems(1), of e] e by (simp add: acts)
  finally have kept: "concat (pushed acts) @ in_transit s' = in_transit s @ arrived acts" .
  have "pipe acts (in_transit s) (in_transit s')" if "ends_late (e # es) s"
    using that stream_turn_pipe [OF Cons.prems(1), of e] rest e unfolding acts by (auto split: stream_event.splits)
  then show ?case using kept by blast
qed (auto simp: arrived_def)

text \<open>Without registered or stopped callbacks the capture is that of the bytes handed over.\<close>

fun captures :: "'c stream_event \<Rightarrow> bool" where
  "captures (AddCallback i cb) \<longleftrightarrow> True"
| "captures (RemoveCallback i) \<longleftrightarrow> True"
| "captures (StopCapturing i) \<longleftrightarrow> True"
| "captures _ \<longleftrightarrow> False"

definition captured_ahead :: "'c capture_stream \<Rightarrow> bytes list" where
  "captured_ahead s = (case pendingInitialData s of None \<Rightarrow> [] | Some d \<Rightarrow> [d])"

lemma stream_turn_frames:
  assumes "stream_ok s" and "\<not> captures e" and "frames s = foldl processIncomingData new_capture (ds @ captured_ahead s)"
  shows "frames (snd (stream_turn e s)) =
    foldl processIncomingData new_capture (ds @ pushed (fst (stream_turn e s)) @ captured_ahead (snd (stream_turn e s)))"
  using assms
  by (cases e)
    (auto simp: captured_ahead_def read_start_def on_wrapped_readable_def stream_ok_def stream_turn_def can_happen_def split: option.splits)

lemma stream_run_frames:
  assumes "stream_ok s" and "\<forall>e \<in> set es. \<not> captures e"
    and "frames s = foldl processIncomingData new_capture (ds @ captured_ahead s)"
    and "stream_run es s = (acts, s')"
  shows "frames s' = foldl processIncomingData new_capture (ds @ pushed acts @ captured_ahead s')"
  using assms
proof (induction es arbitrary: s acts ds)
  case (Cons e es)
  obtain as s1 where e: "stream_turn e s = (as, s1)" by force
  obtain bs where es: "stream_run es s1 = (bs, s')" and acts: "acts = as @ bs"
    using Cons.prems(4) e by (cases "stream_run es s1") auto
  have "frames s1 = foldl processIncomingData new_capture ((ds @ pushed as) @ captured_ahead s1)"
    using stream_turn_frames [OF Cons.prems(1) _ Cons.prems(3), of e] Cons.prems(2) e by simp
  from Cons.IH [OF _ _ this es] show ?case
    using stream_turn_ok [OF Cons.prems(1), of e] Cons.prems(2) unfolding acts e by simp
qed simp

text \<open>
  C5: The capturing stream is a pipe between the connection and the HTTP/2 server: in every order of
  arrivals, reads, writes, errors and callbacks, what it does is what a pipe does that starts
  with the bytes already read, unless the wrapped stream ends before the first read. In any case the bytes pushed
  and those in transit are the bytes that came. While no callback is involved, the frames captured are those of
  the bytes pushed, as soon as the stream is read.
\<close>

theorem capture_stream_is_pipe:
  assumes "stream_run es (new_capture_stream (Some initial) :: 'c capture_stream) = (acts, s)"
  shows "(ends_late es (new_capture_stream (Some initial) :: 'c capture_stream) \<longrightarrow> pipe acts initial (in_transit s)) \<and>
    concat (pushed acts) @ in_transit s = initial @ arrived acts \<and>
    (readingStarted s \<and> list_all (\<lambda>e. \<not> captures e) es \<longrightarrow>
      frames s = foldl processIncomingData new_capture (pushed acts))"
proof -
  let ?new = "new_capture_stream (Some initial) :: 'c capture_stream"
  have start: "in_transit ?new = initial" "frames ?new = foldl processIncomingData new_capture ([] @ captured_ahead ?new)"
    by (simp_all add: new_capture_stream_def in_transit_def captured_ahead_def)
  note run = stream_run_pipe [OF new_stream_ok assms, unfolded start(1)]
  have ok: "stream_ok s" using stream_run_ok [OF new_stream_ok, of es] assms by (metis snd_conv)
  have "frames s = foldl processIncomingData new_capture (pushed acts)"
    if "readingStarted s" "list_all (\<lambda>e. \<not> captures e) es"
    using stream_run_frames [OF new_stream_ok _ start(2) assms] ok that
    by (simp add: captured_ahead_def stream_ok_def list_all_iff)
  then show ?thesis using run by simp
qed

theorem capture_stream_is_pipe_witness:
  "pipe [Arrived [3], Pushed [1, 2], Pushed [3], WroteThrough [9], PushedNull] [1, 2] [] \<and>
    concat (pushed [Arrived [3], Pushed [1, 2], Pushed [3], WroteThrough [9], PushedNull]) @ [] = [1, 2] @ [3 :: byte]"
proof -
  let ?es = "[Arrive [3], Readable, ReadCalled, Readable, WriteCalled [9], WrappedEnd]"
  let ?s = "\<lparr>frames = processIncomingData (processIncomingData new_capture [1, 2]) [3], readingStarted = True,
        pendingInitialData = None, incoming = []\<rparr>"
  have run: "stream_run ?es (new_capture_stream (Some [1, 2]) :: nat capture_stream) =
      ([Arrived [3], Pushed [1, 2], Pushed [3], WroteThrough [9], PushedNull], ?s)"
    by (simp add: new_capture_stream_def read_start_def on_wrapped_readable_def stream_turn_def can_happen_def)
  have "ends_late ?es (new_capture_stream (Some [1, 2]) :: nat capture_stream)"
    by (simp add: new_capture_stream_def read_start_def on_wrapped_readable_def stream_turn_def can_happen_def)
  then show ?thesis using capture_stream_is_pipe [OF run] by (simp add: in_transit_def arrived_def)
qed

text \<open>
  When the wrapped stream ends first, null is pushed before the bytes that the processor had read, which a \<open>Duplex\<close>
  then never delivers.
\<close>

lemma early_end_cuts_off:
  "fst (stream_run [WrappedEnd, ReadCalled] (new_capture_stream (Some initial))) = [PushedNull, Pushed initial]"
  by (simp add: new_capture_stream_def read_start_def stream_turn_def can_happen_def)

end
