(* ===== verification/Tcp_Handler.thy ===== *)
theory Tcp_Handler
  imports Tls_Handler Capture_Stream Httpbin_Compat
begin

text \<open>
  The wiring of \<^verbatim>\<open>src/server.ts\<close> (\<open>createTcpHandler\<close>): a TCP connection goes through the connection
  processor to the TLS handler, whose socket goes through the processor again, and so on until it
  reaches an HTTP server or is closed. A connection is the list of its sockets, the innermost
  first, and what it is waiting for. The laws are about what is carried from socket to
  socket: the PROXY header that opens the connection, and nothing else, says who the client is.
\<close>

section \<open>Sockets\<close>

text \<open>What \<open>handleConnection\<close> copies to the TLS socket, which is a \<open>net.Socket\<close> itself.\<close>

definition secure_info :: "nat \<Rightarrow> client_hello socket_info \<Rightarrow> client_hello socket_info" where
  "secure_info self rawSocket =
     rawSocket\<lparr>si_encrypted := Some True,
       si_underlying := (case si_net rawSocket of Some n \<Rightarrow> Some n | None \<Rightarrow> si_underlying rawSocket),
       si_net := Some self\<rparr>"

record layer =
  socket :: "client_hello socket_info"
  conn_of :: conn

text \<open>The processor writes the PROXY header to the socket.\<close>

definition layer_info :: "layer \<Rightarrow> client_hello socket_info" where
  "layer_info l = (socket l)\<lparr>si_proxy := proxyInfo (conn_of l)\<rparr>"

section \<open>A connection\<close>

datatype 'c progress =
    Sniffing
  | ReadingHello
  | AwaitingCertificate tls_plan bool int
  | Handshaking "'c tls_socket"
  | HandedHttp1
  | HandedHttp2 bytes
  | Closed
  | Stuck

record 'c tcp_conn =
  layers :: "layer list"
  progress :: "'c progress"

text \<open>What the processor decided.\<close>

definition sniffed :: "conn \<Rightarrow> 'c progress" where
  "sniffed c =
     (case phase c of
        Routed TlsRoute _ \<Rightarrow> ReadingHello
      | Routed Http2Route d \<Rightarrow> HandedHttp2 d
      | Routed Http1Route _ \<Rightarrow> HandedHttp1
      | Routed RejectRoute _ \<Rightarrow> Closed
      | phase.Destroyed \<Rightarrow> Closed
      | _ \<Rightarrow> Sniffing)"

definition accept_tcp :: "bool \<Rightarrow> client_hello socket_info \<Rightarrow> 'c tcp_conn" where
  "accept_tcp trustProxyProtocol info =
     \<lparr>layers = [\<lparr>socket = info, conn_of = processInitialConnection trustProxyProtocol new_conn\<rparr>],
      progress = Sniffing\<rparr>"

text \<open>The \<open>status_request\<close> extension has the number 5.\<close>

definition clientRequestedOCSP :: "client_hello option \<Rightarrow> bool" where
  "clientRequestedOCSP hello =
     (case hello of None \<Rightarrow> False | Some h \<Rightarrow> list_ex (\<lambda>(i, d). i = 5 \<and> d \<noteq> JNull) (hello_extensions h))"

definition secured :: "'c tls_outcome \<Rightarrow> tls_plan \<Rightarrow> bool \<Rightarrow> int \<Rightarrow> 'c progress" where
  "secured outcome plan ocsp started =
     (case outcome of
        tls_outcome.Destroyed \<Rightarrow> Closed
      | Secured s \<Rightarrow> Handshaking s
      | Waiting _ \<Rightarrow> AwaitingCertificate plan ocsp started
      | Hung \<Rightarrow> Stuck)"

text \<open>
  The handler of TLS connections: the ClientHello is read and kept on the socket (one that cannot be
  read leaves the socket as it is), then the connection is secured.
\<close>

definition hello_read ::
    "'c tls_lib \<Rightarrow> ca_env \<Rightarrow> int \<Rightarrow> client_hello option \<Rightarrow> 'c tcp_conn \<times> 'c tls_handler \<Rightarrow> 'c tcp_conn \<times> 'c tls_handler" where
  "hello_read lib env now hello = (\<lambda>(st, h).
     case layers st of
       [] \<Rightarrow> (st, h)
     | l # ls \<Rightarrow>
         (let kept = (case hello of Some m \<Rightarrow> Some m | None \<Rightarrow> si_hello (socket l));
              l' = l\<lparr>socket := (socket l)\<lparr>si_hello := kept\<rparr>\<rparr>;
              serverName = Option.bind kept hello_serverName;
              ocsp = clientRequestedOCSP kept;
              (outcome, h') = handleConnection lib env now serverName ocsp h;
              plan = (case connection_plan (rootDomain_of (server h)) serverName of
                  Inr (Some p) \<Rightarrow> p
                | _ \<Rightarrow> \<lparr>plan_parts = [], plan_config = \<lparr>certOptions = [], tlsOptions = [], alpnPreferences = [],
                    rejectTls = True, requireClientCert = False\<rparr>, plan_domain = [], plan_key = []\<rparr>)
          in (st\<lparr>layers := l' # ls, progress := secured outcome plan ocsp now\<rparr>, h')))"

text \<open>
  \<open>Elsewhere\<close> is what other connections do to the TLS handler, which is shared. \<open>Secure\<close> is the end of the
  handshake; the number is the new socket's identity.
\<close>

datatype 'c tcp_event =
    Data bytes
  | HelloRead ca_env int "client_hello option"
  | CertificateReady ca_env int "generated_certificate fallible"
  | Secure nat
  | Elsewhere "'c tls_handler"

definition receive :: "bytes \<Rightarrow> 'c tcp_conn \<Rightarrow> 'c tcp_conn" where
  "receive d st =
     (case layers st of
        [] \<Rightarrow> st
      | l # ls \<Rightarrow>
          (let c = on_readable (conn_of l) d in
           st\<lparr>layers := l\<lparr>conn_of := c\<rparr> # ls, progress := sniffed c\<rparr>))"

definition enter_tls :: "nat \<Rightarrow> 'c tcp_conn \<Rightarrow> 'c tcp_conn" where
  "enter_tls self st =
     (case layers st of
        [] \<Rightarrow> st
      | l # ls \<Rightarrow>
          (let info = secure_info self (layer_info l) in
           st\<lparr>layers := \<lparr>socket = info, conn_of = processConnection (new_conn\<lparr>proxyInfo := si_proxy info\<rparr>)\<rparr> # l # ls,
              progress := Sniffing\<rparr>))"

fun tcp_step :: "'c tls_lib \<Rightarrow> 'c tcp_event \<Rightarrow> 'c tcp_conn \<times> 'c tls_handler \<Rightarrow> 'c tcp_conn \<times> 'c tls_handler" where
  "tcp_step lib (Data d) (st, h) = (if progress st = Sniffing then receive d st else st, h)"
| "tcp_step lib (HelloRead env now hello) (st, h) =
     (if progress st = ReadingHello then hello_read lib env now hello (st, h) else (st, h))"
| "tcp_step lib (CertificateReady env now cert) (st, h) =
     (case progress st of
        AwaitingCertificate plan ocsp started \<Rightarrow>
          map_prod (\<lambda>outcome. st\<lparr>progress := secured outcome plan ocsp started\<rparr>) id
            (finish_handshake lib env started now plan ocsp cert h)
      | _ \<Rightarrow> (st, h))"
| "tcp_step lib (Secure self) (st, h) =
     ((case progress st of Handshaking _ \<Rightarrow> enter_tls self st | _ \<Rightarrow> st), h)"
| "tcp_step lib (Elsewhere h') (st, h) = (st, h')"

text \<open>The socket that an HTTP server gets, and what a request on it shows of it (\<open>getConnectionSocket\<close>).\<close>

definition http_socket :: "'c tcp_conn \<Rightarrow> client_hello socket_info option" where
  "http_socket st =
     (case layers st of
        [] \<Rightarrow> None
      | l # _ \<Rightarrow>
          (case progress st of
             HandedHttp1 \<Rightarrow> Some (layer_info l)
           | HandedHttp2 _ \<Rightarrow> Some (wrapper_info (layer_info l))
           | _ \<Rightarrow> None))"

definition request_on :: "client_hello socket_info \<Rightarrow> request \<Rightarrow> request" where
  "request_on i r =
     r\<lparr>over_tls := (si_encrypted i = Some True), clientHello := si_hello i, remoteAddress := si_remoteAddress i,
       proxySource := Option.bind (si_proxy i) sourceAddress\<rparr>"

section \<open>What a connection keeps\<close>

text \<open>
  A connection carries \<open>p\<close> when all its sockets have the PROXY header \<open>p\<close> and the address of the TCP peer, and
  the innermost is not waiting for a header.
\<close>

definition carries :: "client_hello socket_info \<Rightarrow> proxy_data option \<Rightarrow> 'c tcp_conn \<Rightarrow> bool" where
  "carries info p st \<longleftrightarrow>
     layers st \<noteq> [] \<and>
     list_all (\<lambda>l. proxyInfo (conn_of l) = p \<and> si_remoteAddress (socket l) = si_remoteAddress info) (layers st) \<and>
     (\<forall>b. phase (conn_of (hd (layers st))) \<noteq> AwaitProxy b)"

lemma carries_progress [simp]: "carries info p (st\<lparr>progress := x\<rparr>) \<longleftrightarrow> carries info p st"
  by (simp add: carries_def)

lemma processProtocolData_not_waiting: "phase (processProtocolData c d) \<noteq> AwaitProxy b"
  by (simp add: processProtocolData_def)

text \<open>Without a header to wait for, the processor does not touch what it knows of the client.\<close>

lemma on_readable_keeps:
  assumes "\<forall>b. phase c \<noteq> AwaitProxy b"
  shows "proxyInfo (on_readable c d) = proxyInfo c \<and> phase (on_readable c d) \<noteq> AwaitProxy b"
  using assms processProtocolData_not_waiting
  by (cases "phase c") (simp_all add: on_readable_def conn_read_def Let_def)

lemma initial_untrusting: "processInitialConnection False new_conn = new_conn"
  by (simp add: processInitialConnection_def processProtocolData_def new_conn_def)

lemma carries_receive: "carries info p st \<Longrightarrow> carries info p (receive d st)"
  using on_readable_keeps [of "conn_of (hd (layers st))" d]
  by (cases "layers st") (simp_all add: carries_def receive_def Let_def)

lemma carries_enter_tls: "carries info p st \<Longrightarrow> carries info p (enter_tls self st)"
  by (cases "layers st")
    (simp_all add: carries_def enter_tls_def Let_def layer_info_def secure_info_def processConnection_def
      processProtocolData_not_waiting)

lemma carries_hello: "carries info p st \<Longrightarrow> carries info p (fst (hello_read lib env now hello (st, h)))"
  by (cases "layers st") (simp_all add: carries_def hello_read_def Let_def case_prod_unfold)

lemma carries_step: "carries info p (fst s) \<Longrightarrow> carries info p (fst (tcp_step lib e s))"
  by (cases e; cases s)
    (simp_all add: carries_receive carries_enter_tls carries_hello split: progress.split)

lemma carries_run: "carries info p (fst s) \<Longrightarrow> carries info p (fst (fold (tcp_step lib) es s))"
  by (induction es arbitrary: s) (simp_all add: carries_step)

lemma carries_http: "carries info p st \<Longrightarrow> http_socket st = Some i \<Longrightarrow> si_proxy i = p \<and> si_remoteAddress i = si_remoteAddress info"
  by (cases "layers st") (auto simp: carries_def http_socket_def layer_info_def wrapper_info_def split: progress.splits)

text \<open>While the first socket is sniffed, the processor is fed what arrives.\<close>

lemma sniffed_settled: "sniffed c \<noteq> Sniffing \<Longrightarrow> phase c = phase.Destroyed \<or> (\<exists>r q. phase c = Routed r q)"
  by (cases "phase c") (simp_all add: sniffed_def)

lemma data_run:
  assumes "layers st = [l]" and "progress st = sniffed (conn_of l)"
  shows "\<exists>c. layers (fst (fold (tcp_step lib) (map Data chunks) (st, h))) = [l\<lparr>conn_of := c\<rparr>] \<and>
    phase c = phase (feed (conn_of l) chunks) \<and> proxyInfo c = proxyInfo (feed (conn_of l) chunks)"
  using assms
proof (induction chunks arbitrary: st l)
  case Nil
  then show ?case by (intro exI [of _ "conn_of l"]) (simp add: feed_def)
next
  case (Cons d chunks)
  show ?case
  proof (cases "progress st = Sniffing")
    case True
    have "layers (receive d st) = [l\<lparr>conn_of := on_readable (conn_of l) d\<rparr>]"
      "progress (receive d st) = sniffed (conn_of (l\<lparr>conn_of := on_readable (conn_of l) d\<rparr>))"
      using Cons.prems by (simp_all add: receive_def Let_def)
    from Cons.IH [OF this] show ?thesis using True by (simp add: feed_def)
  next
    case False
    then have settled: "phase (conn_of l) = phase.Destroyed \<or> (\<exists>r q. phase (conn_of l) = Routed r q)"
      using sniffed_settled Cons.prems(2) by metis
    show ?thesis
      using Cons.IH [OF Cons.prems] False feed_settled [OF settled, of "d # chunks"] feed_settled [OF settled, of chunks]
      by simp
  qed
qed

lemma route_phase_not_waiting: "route_phase p \<noteq> AwaitProxy b"
  using route_phase_settled [of p] by auto

text \<open>
  C2: The client that the HTTP servers see is the one that the PROXY header at the front of the TCP
  connection names, however the header is cut into chunks and however many TLS handshakes,
  certificates and protocols follow; nothing that comes later changes it. When PROXY headers are
  not trusted there is none, whatever is sent.
\<close>

theorem client_address_forwarded:
  assumes "parseProxyProtocol hdr = Some r" and "remainingData r = []"
    and "concat chunks = hdr @ payload" and "payload \<noteq> []" and "[] \<notin> set chunks"
    and "st = fst (fold (tcp_step lib) (map Data chunks @ later) (accept_tcp trust info, h))"
    and "http_socket st = Some i"
  shows "si_proxy i = (if trust then recorded r else None) \<and>
    request_origin (request_on i req) =
      opt_json (map_option strip_v4_wrapper
        (if trust \<and> sourceAddress r \<noteq> None then sourceAddress r else si_remoteAddress info))"
proof -
  let ?p = "if trust then recorded r else None"
  define s where "s = fold (tcp_step lib) (map Data chunks) (accept_tcp trust info, h)"
  have "carries info ?p (fst s)"
  proof (cases trust)
    case True
    have start: "layers (accept_tcp True info :: 'a tcp_conn) = [\<lparr>socket = info, conn_of = processInitialConnection True new_conn\<rparr>]"
      "progress (accept_tcp True info :: 'a tcp_conn) = sniffed (processInitialConnection True new_conn)"
      by (simp_all add: accept_tcp_def initial_trusting sniffed_def)
    obtain p where "phase (feed (processInitialConnection True new_conn) chunks) = route_phase p"
      "proxyInfo (feed (processInitialConnection True new_conn) chunks) = recorded r"
      using proxy_header_settled [OF assms(1-5)] by blast
    then show ?thesis
      using True data_run [OF start(1), of lib chunks h] start(2) route_phase_not_waiting
      by (auto simp: carries_def s_def)
  next
    case False
    have "carries info None (accept_tcp False info :: 'a tcp_conn)"
      by (simp add: carries_def accept_tcp_def initial_untrusting)
    then show ?thesis using False carries_run [of info None "(accept_tcp False info, h)"] by (simp add: s_def)
  qed
  then have "carries info ?p st"
    using carries_run [of info ?p s lib later] assms(6) by (simp add: s_def)
  from carries_http [OF this assms(7)] show ?thesis
    by (auto simp: request_origin_def request_on_def recorded_def proxy_data.truncate_def)
qed

section \<open>Which hosts get TLS\<close>

lemma finish_handshake_root [simp]:
  "rootDomain_of (server (snd (finish_handshake lib env started now plan ocsp cert h))) = rootDomain_of (server h)"
  using root_kept(3) [of lib env now "plan_config plan" _ "server h"]
  by (auto simp: finish_handshake_def case_prod_unfold split: sum.split option.split)

lemma handleConnection_root [simp]:
  "rootDomain_of (server (snd (handleConnection lib env now serverName ocsp h))) = rootDomain_of (server h)"
  using root_kept(2) [of env now _ _ "server h"]
  by (auto simp: handleConnection_def case_prod_unfold split: sum.split option.split certificate_answer.split)

text \<open>A name that TLS is set up for: its parts are a valid combination that does not refuse TLS.\<close>

definition tls_host :: "string \<Rightarrow> string option \<Rightarrow> bool" where
  "tls_host rootDomain serverName \<longleftrightarrow>
     (\<exists>config. getEndpointConfig (getSNIPrefixParts (if nonempty serverName then the serverName else rootDomain) rootDomain) = Inr config \<and>
        \<not> rejectTls config)"

lemma connection_plan_host: "connection_plan rootDomain serverName = Inr (Some plan) \<Longrightarrow> tls_host rootDomain serverName"
  by (auto simp: connection_plan_def tls_host_def Let_def split: sum.splits if_splits)

lemma handled_host:
  assumes "fst (handleConnection lib env now serverName ocsp h) = outcome" and "outcome \<noteq> tls_outcome.Destroyed"
  shows "tls_host (rootDomain_of (server h)) serverName"
  using assms connection_plan_host [of "rootDomain_of (server h)" serverName]
  by (auto simp: handleConnection_def split: sum.splits option.splits)

definition socket_host :: "string \<Rightarrow> client_hello socket_info \<Rightarrow> bool" where
  "socket_host rootDomain i \<longleftrightarrow> tls_host rootDomain (Option.bind (si_hello i) hello_serverName)"

text \<open>
  Every socket that carries TLS was opened for such a name, and whenever TLS is being set up, or was for the innermost
  socket, that is for such a name.
\<close>

definition hosts_ok :: "string \<Rightarrow> 'c tcp_conn \<Rightarrow> bool" where
  "hosts_ok rootDomain st \<longleftrightarrow>
     layers st \<noteq> [] \<and> list_all (\<lambda>l. socket_host rootDomain (socket l)) (tl (layers st)) \<and>
     (case progress st of
        AwaitingCertificate _ _ _ \<Rightarrow> socket_host rootDomain (socket (hd (layers st)))
      | Handshaking _ \<Rightarrow> socket_host rootDomain (socket (hd (layers st)))
      | Sniffing \<Rightarrow> tl (layers st) \<noteq> [] \<longrightarrow> socket_host rootDomain (socket (hd (layers st)))
      | HandedHttp1 \<Rightarrow> tl (layers st) \<noteq> [] \<longrightarrow> socket_host rootDomain (socket (hd (layers st)))
      | HandedHttp2 _ \<Rightarrow> tl (layers st) \<noteq> [] \<longrightarrow> socket_host rootDomain (socket (hd (layers st)))
      | _ \<Rightarrow> True)"

lemma hosts_receive: "hosts_ok rootDomain st \<Longrightarrow> progress st = Sniffing \<Longrightarrow> hosts_ok rootDomain (receive d st)"
  by (cases "layers st") (auto simp: hosts_ok_def receive_def Let_def sniffed_def split: phase.split route.split)

lemma hosts_enter_tls: "hosts_ok rootDomain st \<Longrightarrow> progress st = Handshaking s \<Longrightarrow> hosts_ok rootDomain (enter_tls self st)"
  by (cases "layers st") (simp_all add: hosts_ok_def enter_tls_def Let_def socket_host_def secure_info_def layer_info_def)

lemma hosts_secured:
  assumes "layers st \<noteq> []" and "list_all (\<lambda>l. socket_host rootDomain (socket l)) (tl (layers st))"
    and "outcome \<noteq> tls_outcome.Destroyed \<Longrightarrow> socket_host rootDomain (socket (hd (layers st)))"
  shows "hosts_ok rootDomain (st\<lparr>progress := secured outcome plan ocsp started\<rparr>)"
  using assms by (cases outcome) (simp_all add: hosts_ok_def secured_def)

lemma hosts_hello:
  assumes "hosts_ok (rootDomain_of (server h)) st"
  shows "hosts_ok (rootDomain_of (server h)) (fst (hello_read lib env now hello (st, h)))"
proof -
  obtain l ls where st: "layers st = l # ls" using assms by (auto simp: hosts_ok_def neq_Nil_conv)
  define kept where "kept = (case hello of Some m \<Rightarrow> Some m | None \<Rightarrow> si_hello (socket l))"
  let ?st = "st\<lparr>layers := l\<lparr>socket := (socket l)\<lparr>si_hello := kept\<rparr>\<rparr> # ls\<rparr>"
  define outcome where "outcome = fst (handleConnection lib env now (Option.bind kept hello_serverName) (clientRequestedOCSP kept) h)"
  have "hosts_ok (rootDomain_of (server h)) (?st\<lparr>progress := secured outcome plan ocsp started\<rparr>)" for plan ocsp started
    by (rule hosts_secured) (use handled_host [OF outcome_def [symmetric]] assms st in \<open>simp_all add: socket_host_def hosts_ok_def\<close>)
  then show ?thesis by (simp add: hello_read_def st Let_def case_prod_unfold outcome_def kept_def)
qed

fun keeps_root :: "string \<Rightarrow> 'c tcp_event \<Rightarrow> bool" where
  "keeps_root rootDomain (Elsewhere h) \<longleftrightarrow> rootDomain_of (server h) = rootDomain"
| "keeps_root rootDomain _ \<longleftrightarrow> True"

lemma hosts_step:
  assumes "hosts_ok root_name (fst s)" and "rootDomain_of (server (snd s)) = root_name" and "keeps_root root_name e"
  shows "hosts_ok root_name (fst (tcp_step lib e s)) \<and> rootDomain_of (server (snd (tcp_step lib e s))) = root_name"
proof -
  obtain st h where s: "s = (st, h)" by force
  have "hosts_ok root_name (st\<lparr>progress := secured outcome plan ocsp started\<rparr>)" if "progress st = AwaitingCertificate p q r"
    for outcome plan ocsp started p q r
    using assms(1) that s by (intro hosts_secured) (simp_all add: hosts_ok_def)
  then show ?thesis
    using assms s hosts_receive [of root_name st] hosts_enter_tls [of root_name st] hosts_hello [of h st lib]
    by (cases e) (auto simp: hello_read_def Let_def case_prod_unfold split: progress.split list.split)
qed

lemma hosts_run:
  "hosts_ok root_name (fst s) \<Longrightarrow> rootDomain_of (server (snd s)) = root_name \<Longrightarrow> list_all (keeps_root root_name) es \<Longrightarrow>
    hosts_ok root_name (fst (fold (tcp_step lib) es s))"
  by (induction es arbitrary: s) (simp_all add: hosts_step)

lemma tls_hosts_ok:
  assumes "list_all (keeps_root (rootDomain_of (server h))) es"
    and "st = fst (fold (tcp_step lib) es (accept_tcp trust info, h))"
  shows "hosts_ok (rootDomain_of (server h)) st"
  using hosts_run [of "rootDomain_of (server h)" "(accept_tcp trust info, h)" es lib] assms
  by (simp add: hosts_ok_def accept_tcp_def)

lemma tls_hosts:
  assumes "list_all (keeps_root (rootDomain_of (server h))) es"
    and "st = fst (fold (tcp_step lib) es (accept_tcp trust info, h))"
    and "http_socket st = Some i" and "tl (layers st) \<noteq> []"
  shows "\<exists>config. getEndpointConfig (getSNIPrefixParts
      (case Option.bind (si_hello i) hello_serverName of None \<Rightarrow> rootDomain_of (server h)
       | Some name \<Rightarrow> if name = [] then rootDomain_of (server h) else name) (rootDomain_of (server h))) = Inr config \<and>
    \<not> rejectTls config"
proof -
  have "hosts_ok (rootDomain_of (server h)) st" by (rule tls_hosts_ok [OF assms(1,2)])
  then have "socket_host (rootDomain_of (server h)) i"
    using assms(3,4)
    by (cases "layers st") (auto simp: hosts_ok_def http_socket_def socket_host_def layer_info_def wrapper_info_def split: progress.splits)
  then show ?thesis
    by (auto simp: socket_host_def tls_host_def nonempty_def split: option.splits if_splits)
qed

text \<open>
  C9: Every TLS layer of a connection, of those under an HTTP server and of those still being set up inside others, was
  opened for a server name, or the root domain without one, whose endpoint parts are a valid combination that
  does not refuse TLS; and the ClientHello that an HTTP server behind TLS sees has such a name.
\<close>

theorem tls_hosts_valid:
  assumes "list_all (keeps_root (rootDomain_of (server h))) es"
    and "st = fst (fold (tcp_step lib) es (accept_tcp trust info, h))"
  shows "list_all (\<lambda>l. tls_host (rootDomain_of (server h)) (Option.bind (si_hello (socket l)) hello_serverName)) (tl (layers st)) \<and>
    (\<forall>i. http_socket st = Some i \<longrightarrow> tl (layers st) \<noteq> [] \<longrightarrow>
      tls_host (rootDomain_of (server h)) (Option.bind (si_hello i) hello_serverName))"
proof -
  have ok: "hosts_ok (rootDomain_of (server h)) st" by (rule tls_hosts_ok [OF assms])
  have "socket_host (rootDomain_of (server h)) i" if "http_socket st = Some i" "tl (layers st) \<noteq> []" for i
    using ok that
    by (cases "layers st") (auto simp: hosts_ok_def http_socket_def socket_host_def layer_info_def wrapper_info_def split: progress.splits)
  then show ?thesis using ok by (simp add: hosts_ok_def socket_host_def)
qed

text \<open>Every socket but the outermost is encrypted.\<close>

definition tls_inside :: "'c tcp_conn \<Rightarrow> bool" where
  "tls_inside st \<longleftrightarrow> list_all (\<lambda>l. si_encrypted (socket l) = Some True) (butlast (layers st))"

lemma tls_inside_step: "tls_inside (fst s) \<Longrightarrow> tls_inside (fst (tcp_step lib e s))"
  by (cases e; cases s; cases "layers (fst s)")
    (auto simp: tls_inside_def receive_def hello_read_def enter_tls_def secure_info_def Let_def case_prod_unfold
      split: progress.split)

lemma tls_inside_run: "tls_inside (fst s) \<Longrightarrow> tls_inside (fst (fold (tcp_step lib) es s))"
  by (induction es arbitrary: s) (simp_all add: tls_inside_step)

lemma http_over_tls:
  assumes "st = fst (fold (tcp_step lib) es (accept_tcp trust info, h))" and "http_socket st = Some i" and "tl (layers st) \<noteq> []"
  shows "si_encrypted i = Some True"
proof -
  have "tls_inside st"
    unfolding assms(1) by (rule tls_inside_run) (simp add: tls_inside_def accept_tcp_def)
  then show ?thesis
    using assms(2,3)
    by (cases "layers st") (auto simp: tls_inside_def http_socket_def layer_info_def wrapper_info_def split: progress.splits)
qed

section \<open>Samples\<close>

definition sample_hello :: client_hello where
  "sample_hello =
     \<lparr>hello_version = 771, hello_random = [], hello_sessionId = [], hello_cipherSuites = [], hello_compressionMethods = [],
      hello_extensions = [], hello_serverName = Some ''wrong-host.a.io'', ja3 = [], ja4 = []\<rparr>"

definition sample_peer :: "client_hello socket_info" where
  "sample_peer =
     \<lparr>si_remoteAddress = Some ''10.0.0.1'', si_remotePort = Some 4000, si_localAddress = None, si_localPort = None,
      si_encrypted = None, si_proxy = None, si_hello = None, si_underlying = None, si_net = Some 0\<rparr>"

definition sample_proxy_line :: bytes where
  "sample_proxy_line = buffer_of ''PROXY TCP4 1.2.3.4 5.6.7.8 10 20'' @ [0x0D, 0x0A]"

definition sample_events :: "string tcp_event list" where
  "sample_events =
     map Data [take 9 sample_proxy_line, drop 9 sample_proxy_line @ [0x16]] @
     [HelloRead sample_env 5 (Some sample_hello), Secure 1, Data (buffer_of ''PRI'')]"

definition sample_run :: "string tcp_conn" where
  "sample_run = fst (fold (tcp_step sample_tls_lib) sample_events (accept_tcp True sample_peer, sample_handler))"

lemma sample_reaches_http:
  "\<exists>i. http_socket sample_run = Some i \<and> tl (layers sample_run) \<noteq> [] \<and> si_hello i = Some sample_hello"
proof -
  let ?info = "\<lparr>sourceAddress = Some ''1.2.3.4'', sourcePort = Some 10, destinationAddress = Some ''5.6.7.8'', destinationPort = Some 20\<rparr>"
  let ?outer = "\<lparr>pending = [0x16], phase = Routed TlsRoute [0x16], proxyInfo = Some ?info, receivedData = None\<rparr>"
  have outer: "on_readable (on_readable (processInitialConnection True new_conn) (take 9 sample_proxy_line)) (drop 9 sample_proxy_line @ [0x16]) = ?outer"
      "phase (on_readable (processInitialConnection True new_conn) (take 9 sample_proxy_line)) = AwaitProxy (take 9 sample_proxy_line)"
    by code_simp+
  have inner: "phase (on_readable (processConnection (new_conn\<lparr>proxyInfo := Some ?info\<rparr>)) (buffer_of ''PRI'')) = Routed Http2Route (buffer_of ''PRI'')"
    by code_simp
  obtain s h1 where "handleConnection sample_tls_lib sample_env 5 (Some ''wrong-host.a.io'') False sample_handler = (Secured s, h1)"
    using sample_connection by blast
  then show ?thesis
    by (simp add: sample_run_def sample_events_def accept_tcp_def receive_def Let_def sniffed_def outer hello_read_def
        clientRequestedOCSP_def sample_hello_def secured_def enter_tls_def layer_info_def secure_info_def inner http_socket_def
        sample_peer_def wrapper_info_def)
qed

theorem client_address_forwarded_witness:
  "\<exists>i. http_socket sample_run = Some i \<and> request_origin (request_on i (sample_request ''/ip'' [])) = JStr ''1.2.3.4''"
proof -
  let ?info = "\<lparr>sourceAddress = Some ''1.2.3.4'', sourcePort = Some 10, destinationAddress = Some ''5.6.7.8'', destinationPort = Some 20\<rparr>"
  have parse: "parseProxyProtocol sample_proxy_line = Some (proxy_data.extend ?info \<lparr>remainingData = []\<rparr>)"
    by code_simp
  obtain i where i: "http_socket sample_run = Some i" using sample_reaches_http by blast
  have "request_origin (request_on i (sample_request ''/ip'' [])) = JStr ''1.2.3.4''"
    using client_address_forwarded [OF parse _ _ _ _ sample_run_def [unfolded sample_events_def] i, of "[0x16]" "sample_request ''/ip'' []"]
    by (simp add: sample_proxy_line_def buffer_of_def byte_of_def proxy_data.defs strip_v4_wrapper_def opt_json_def starts_with_def)
  then show ?thesis using i by blast
qed

theorem tls_hosts_valid_witness:
  "list_all (\<lambda>l. tls_host ''a.io'' (Option.bind (si_hello (socket l)) hello_serverName)) (tl (layers sample_run)) \<and>
    tl (layers sample_run) \<noteq> [] \<and> tls_host ''a.io'' (Some ''wrong-host.a.io'')"
proof -
  obtain i where i: "http_socket sample_run = Some i" "tl (layers sample_run) \<noteq> []" "si_hello i = Some sample_hello"
    using sample_reaches_http by blast
  have "rootDomain_of (server sample_handler) = ''a.io''" by (simp add: sample_handler_def sample_config_acme_def)
  then show ?thesis
    using tls_hosts_valid [OF _ sample_run_def] i by (auto simp: sample_events_def sample_hello_def)
qed

end
