(* ===== verification/Tcp_Server.thy ===== *)
theory Tcp_Server
  imports Tcp_Handler Http_Liveness Ws_Handler Docs_Page
begin

text \<open>
  The server as \<^verbatim>\<open>src/server.ts\<close> assembles it (\<open>createTcpHandler\<close>): the TLS handler, the options of the HTTP
  handlers and the certificates for download, all from one configuration; and the counters of
  \<^verbatim>\<open>src/metrics.ts\<close> with what each handler counts.
\<close>

section \<open>Assembly\<close>

record 'c tcp_server =
  trusts_proxy :: bool
  http_options :: handler_options
  resolved :: downloads
  tls_part :: "'c tls_handler"

text \<open>The certificates that \<open>proactivelyRefreshDomains\<close> asks for, at the start and then every day.\<close>

definition refresh_all :: "ca_env \<Rightarrow> int \<Rightarrow> (string \<times> options) list \<Rightarrow> tls_config \<Rightarrow> tls_config" where
  "refresh_all env now targets config =
     fold (\<lambda>(domain, options) config. snd (server_certificate env now domain options config)) targets config"

text \<open>
  \<open>respond\<close> answers ACME challenges. Only the configuration with ACME has domains to refresh; one with
  invalid parts makes the start fail.
\<close>

definition createTcpHandler ::
    "ca_env \<Rightarrow> cert_cache \<Rightarrow> ((bytes \<times> bytes) \<times> nat) option \<Rightarrow> int \<Rightarrow> (string option \<Rightarrow> string option) \<Rightarrow>
      server_options \<Rightarrow> 'c tcp_server fallible" where
  "createTcpHandler env loaded keyPair now respond options =
     (case generateTlsConfig env loaded keyPair now options of
        Inl e \<Rightarrow> Inl e
      | Inr config \<Rightarrow>
          (let domains = (if acme_of config = None then []
                 else case opt_proactiveCertDomains options of None \<Rightarrow> [] | Some ds \<Rightarrow> ds)
           in case refresh_targets (rootDomain_of config) domains of
                (_, Some e) \<Rightarrow> Inl e
              | (targets, None) \<Rightarrow> Inr
                  \<lparr>trusts_proxy = opt_trustProxyProtocol options,
                   http_options =
                     \<lparr>acmeChallengeCallback = (if acme_of config = None then (\<lambda>_. None) else respond),
                      rootDomain = (case opt_domain options of None \<Rightarrow> ''localhost'' | Some d \<Rightarrow> d),
                      usingPublicCA = nonempty (opt_acmeProvider options)\<rparr>,
                   resolved = (\<lambda>_. None),
                   tls_part = \<lparr>server = refresh_all env now targets config, contexts = []\<rparr>\<rparr>))"

text \<open>A download of a certificate, which the TLS handler's configuration provides.\<close>

definition download :: "ca_env \<Rightarrow> string \<Rightarrow> 'c tcp_server \<Rightarrow> string fallible option \<times> 'c tcp_server" where
  "download env name srv =
     (case resolve_certificate env name (resolved srv, server (tls_part srv)) of
        (outcome, resolved', config) \<Rightarrow>
          (outcome, srv\<lparr>resolved := resolved', tls_part := (tls_part srv)\<lparr>server := config\<rparr>\<rparr>))"

text \<open>What the endpoints of this server are given when a request comes at the moment of \<open>env\<close>.\<close>

definition server_services :: "(string \<Rightarrow> 'k::linorder) \<Rightarrow> ca_env \<Rightarrow> 'c tcp_server \<Rightarrow> services \<Rightarrow> services" where
  "server_services collate env srv sv =
     sv\<lparr>certDownload := \<lambda>name. fst (download env name srv), docs_html := getDocsHtml collate\<rparr>"

lemma refresh_all_root [simp]: "rootDomain_of (refresh_all env now targets config) = rootDomain_of config"
  unfolding refresh_all_def by (induction targets arbitrary: config) (simp_all add: case_prod_unfold)

text \<open>TLS and HTTP agree on the root domain.\<close>

lemma one_root:
  assumes "createTcpHandler env loaded keyPair now respond options = Inr srv"
  shows "rootDomain_of (server (tls_part srv)) = rootDomain (http_options srv)"
proof -
  obtain config where config: "generateTlsConfig env loaded keyPair now options = Inr config"
    using assms by (auto simp: createTcpHandler_def split: sum.splits)
  then have "rootDomain_of config = (case opt_domain options of None \<Rightarrow> ''localhost'' | Some d \<Rightarrow> d)"
    by (auto simp: generateTlsConfig_def Let_def split: sum.splits prod.splits if_splits)
  then show ?thesis
    using assms config by (auto simp: createTcpHandler_def Let_def split: prod.splits option.splits)
qed

text \<open>
  C25: A request over TLS for the host that the handshake was for is never refused for its host name, nor sent
  to HTTPS: the only answer that the host alone can give is the redirect of a local-only host.
\<close>

theorem tls_host_accepted:
  assumes "createTcpHandler env loaded keyPair now respond options = Inr srv"
    and "list_all (keeps_root (rootDomain (http_options srv))) es"
    and "st = fst (fold (tcp_step lib) es (accept_tcp (trusts_proxy srv) info, tls_part srv))"
    and "http_socket st = Some i" and "tl (layers st) \<noteq> []"
    and "Option.bind (si_hello i) hello_serverName = Some (hostname u)" and "hostname u \<noteq> []"
  shows "host_guard (http_options srv) sv (request_on i r) base u = None \<or>
    (\<exists>ops. host_guard (http_options srv) sv (request_on i r) base u = Some (Answer ''untrusted_root_redirect'' ops KeepCapture))"
proof -
  let ?root = "rootDomain (http_options srv)"
  have root: "rootDomain_of (server (tls_part srv)) = ?root" by (rule one_root [OF assms(1)])
  have "\<exists>config. getEndpointConfig (getSNIPrefixParts (hostname u) ?root) = Inr config"
    using tls_hosts [OF _ assms(3-5)] assms(2,6,7) by (auto simp: root)
  then have valid: "validateEndpointParts (getSNIPrefixParts (hostname u) ?root) = None"
    by (auto simp: validateEndpointParts_def)
  have "\<not> tls_only (request_on i r) parts" for parts
    using http_over_tls [OF assms(3-5)] by (simp add: tls_only_def request_on_def)
  then show ?thesis
    using valid redirect_host_no_error [OF valid, of "usingPublicCA (http_options srv)" ?root]
    by (auto simp: host_guard_def Let_def split: sum.split)
qed

definition sample_tls_events :: "string tcp_event list" where
  "sample_tls_events =
     [Elsewhere sample_handler, Data [0x16], HelloRead sample_env 5 (Some sample_hello), Secure 1, Data (buffer_of ''PRI'')]"

lemma sample_tls_run:
  "\<exists>i. http_socket (fst (fold (tcp_step sample_tls_lib) sample_tls_events (accept_tcp False sample_peer, h))) = Some i \<and>
    tl (layers (fst (fold (tcp_step sample_tls_lib) sample_tls_events (accept_tcp False sample_peer, h)))) \<noteq> [] \<and>
    si_hello i = Some sample_hello"
proof -
  have outer: "on_readable (processInitialConnection False new_conn) [0x16] =
      \<lparr>pending = [0x16], phase = Routed TlsRoute [0x16], proxyInfo = None, receivedData = None\<rparr>"
    by code_simp
  have inner: "phase (on_readable (processConnection new_conn) (buffer_of ''PRI'')) = Routed Http2Route (buffer_of ''PRI'')"
    by code_simp
  have same: "new_conn\<lparr>proxyInfo := None\<rparr> = new_conn" by (simp add: new_conn_def)
  obtain s h1 where "handleConnection sample_tls_lib sample_env 5 (Some ''wrong-host.a.io'') False sample_handler = (Secured s, h1)"
    using sample_connection by blast
  then show ?thesis
    by (simp add: sample_tls_events_def accept_tcp_def receive_def Let_def sniffed_def outer hello_read_def
        clientRequestedOCSP_def sample_hello_def secured_def enter_tls_def layer_info_def secure_info_def inner same
        http_socket_def sample_peer_def wrapper_info_def)
qed

theorem tls_host_accepted_witness:
  "\<exists>opts i. rootDomain opts = ''a.io'' \<and> si_hello i = Some sample_hello \<and>
     (host_guard opts sample_services (request_on i (sample_request ''/status/200'' [])) []
        \<lparr>pathname = ''/status/200'', hostname = ''wrong-host.a.io'', searchParams = []\<rparr> = None \<or>
      (\<exists>ops. host_guard opts sample_services (request_on i (sample_request ''/status/200'' [])) []
        \<lparr>pathname = ''/status/200'', hostname = ''wrong-host.a.io'', searchParams = []\<rparr> =
        Some (Answer ''untrusted_root_redirect'' ops KeepCapture)))"
proof -
  let ?u = "\<lparr>pathname = ''/status/200'', hostname = ''wrong-host.a.io'', searchParams = []\<rparr>"
  obtain config where "generateTlsConfig sample_env (\<lambda>_. None) None 0 Server.sample_options = Inr config" "acme_of config = None"
    using startup_accepts_witness by blast
  then obtain srv :: "string tcp_server" where
      srv: "createTcpHandler sample_env (\<lambda>_. None) None 0 (\<lambda>_. None) Server.sample_options = Inr srv"
      and parts: "trusts_proxy srv = False" "rootDomain (http_options srv) = ''a.io''"
    by (auto simp: createTcpHandler_def Server.sample_options_def)
  define st where "st = fst (fold (tcp_step sample_tls_lib) sample_tls_events (accept_tcp (trusts_proxy srv) sample_peer, tls_part srv))"
  obtain i where i: "http_socket st = Some i" "tl (layers st) \<noteq> []" "si_hello i = Some sample_hello"
    using sample_tls_run [of "tls_part srv"] unfolding st_def parts(1) by blast
  have keeps: "list_all (keeps_root (rootDomain (http_options srv))) sample_tls_events"
    by (simp add: sample_tls_events_def parts(2) sample_handler_def sample_config_acme_def)
  show ?thesis
    using tls_host_accepted [OF srv keeps st_def i(1,2), of ?u sample_services "sample_request ''/status/200'' []" "[]"] i(3) parts(2)
    by (intro exI [of _ "http_options srv"] exI [of _ i]) (simp add: sample_hello_def)
qed

section \<open>Metrics\<close>

text \<open>A counter of \<open>prom-client\<close> has a number for each combination of label values.\<close>

record metrics =
  httpRequestsTotal :: "string list \<Rightarrow> nat"
  tlsConnectionsTotal :: "string list \<Rightarrow> nat"
  wsConnectionsTotal :: "string list \<Rightarrow> nat"

definition no_metrics :: metrics where
  "no_metrics = \<lparr>httpRequestsTotal = (\<lambda>_. 0), tlsConnectionsTotal = (\<lambda>_. 0), wsConnectionsTotal = (\<lambda>_. 0)\<rparr>"

definition inc :: "string list \<Rightarrow> (string list \<Rightarrow> nat) \<Rightarrow> string list \<Rightarrow> nat" where
  "inc labels counter = counter(labels := counter labels + 1)"

text \<open>The names of a chain, joined by an arrow between spaces (in UTF-8).\<close>

definition endpoint_names :: "('e \<Rightarrow> string) \<Rightarrow> ('e \<times> string) list \<Rightarrow> string" where
  "endpoint_names name entries =
     join ('' '' @ [CHR 0xE2, CHR 0x86, CHR 0x92] @ '' '') (map (\<lambda>(ep, _). name ep) entries)"

definition endpoint_label :: "decision \<Rightarrow> string" where
  "endpoint_label d =
     (case d of
        Answer label _ _ \<Rightarrow> label
      | Fail _ \<Rightarrow> ''unknown''
      | RunChain ops entries _ _ \<Rightarrow> if entries = [] then ''unknown'' else endpoint_names ep_name entries)"

text \<open>A request is counted when its response has been sent.\<close>

definition count_request :: "handler_options \<Rightarrow> services \<Rightarrow> request \<Rightarrow> metrics \<Rightarrow> metrics" where
  "count_request opts sv r m =
     (let res = serve opts sv r;
          m' = m\<lparr>httpRequestsTotal := inc
            [if req_method r = [] then ''UNKNOWN'' else req_method r,
             int_str (case res_head res of Some (code, _) \<Rightarrow> code | None \<Rightarrow> 200),
             endpoint_label (decide opts sv r)] (httpRequestsTotal m)\<rparr>
      in if writableEnded res \<and> \<not> socketClosed res then m' else m)"

definition count_tls :: "'c tls_socket \<Rightarrow> metrics \<Rightarrow> metrics" where
  "count_tls s m = m\<lparr>tlsConnectionsTotal := inc [ts_label s] (tlsConnectionsTotal m)\<rparr>"

definition count_upgrade :: "ws_outcome \<Rightarrow> metrics \<Rightarrow> metrics" where
  "count_upgrade outcome m =
     (case outcome of
        Accepted _ entries \<Rightarrow> m\<lparr>wsConnectionsTotal := inc [endpoint_names ep_name entries] (wsConnectionsTotal m)\<rparr>
      | _ \<Rightarrow> m)"

end
