(* ===== verification/Raw_Capture.thy ===== *)
theory Raw_Capture
  imports Http_Handler
begin

text \<open>
  What an HTTP/1 connection keeps of the bytes that it received, and so what \<open>/echo\<close> answers
  (\<^verbatim>\<open>src/process-connection.ts\<close>, where the capture starts; \<open>stopRawDataCapture\<close> and the request
  handlers of \<^verbatim>\<open>src/http-handler.ts\<close>; \<^verbatim>\<open>src/endpoints/http/echo.ts\<close>). The law is what the
  requests of a connection, one after another, leave of each other in an echo.
\<close>

section \<open>The capture\<close>

text \<open>The listener for data: the list may be gone.\<close>

definition on_data :: "bytes list \<Rightarrow> bytes list option \<Rightarrow> bytes list option" where
  "on_data chunks captured = map_option (\<lambda>ds. ds @ chunks) captured"

fun apply_capture :: "capture_action \<Rightarrow> bytes list option \<Rightarrow> bytes list option" where
  "apply_capture KeepCapture captured = captured"
| "apply_capture StopCapture captured = None"
| "apply_capture ClearCapture captured = Some []"

definition decision_capture :: "decision \<Rightarrow> capture_action" where
  "decision_capture d = (case d of Answer _ _ act \<Rightarrow> act | Fail _ \<Rightarrow> KeepCapture | RunChain _ _ _ act \<Rightarrow> act)"

text \<open>
  A request on a connection without pipelining, with the chunks that arrive before it is decided on,
  before its handler has finished, and after that.
\<close>

record exchange =
  ex_request :: request
  ex_before :: "bytes list"
  ex_during :: "bytes list"
  ex_after :: "bytes list"

definition run_exchange ::
    "handler_options \<Rightarrow> services \<Rightarrow> exchange \<Rightarrow> bytes list option \<Rightarrow> response \<times> bytes list option" where
  "run_exchange opts sv x captured =
     (let decided = apply_capture (decision_capture (decide opts sv (ex_request x))) (on_data (ex_before x) captured);
          r = (ex_request x)\<lparr>request.receivedData := on_data (ex_during x) decided, request.pipelining := False\<rparr>
      in (serve opts sv r, on_data (ex_after x) (Some [])))"

fun run_exchanges ::
    "handler_options \<Rightarrow> services \<Rightarrow> exchange list \<Rightarrow> bytes list option \<Rightarrow> response list \<times> bytes list option" where
  "run_exchanges opts sv [] captured = ([], captured)"
| "run_exchanges opts sv (x # xs) captured =
     (case run_exchange opts sv x captured of
        (res, captured') \<Rightarrow> map_prod (Cons res) id (run_exchanges opts sv xs captured'))"

section \<open>What an echo answers\<close>

lemma guards_captured [simp]:
  fixes r c p
  defines "r' \<equiv> r\<lparr>request.receivedData := c, request.pipelining := p\<rparr>"
  shows "proxy_reject opts sv r' = proxy_reject opts sv r" and "misdirected r' = misdirected r"
    and "request_url_base r' = request_url_base r" and "host_guard opts sv r' base u = host_guard opts sv r base u"
    and "run_endpoints r' u prefix = run_endpoints r u prefix"
proof -
  have fields: "header r' = header r" "header_set r' = header_set r" "req_url r' = req_url r" "over_tls r' = over_tls r"
      "is_h2 r' = is_h2 r" "req_method r' = req_method r" "clientHello r' = clientHello r"
    by (simp_all add: r'_def header_def header_set_def fun_eq_iff)
  then have tls: "tls_only r' = tls_only r" "getClientHello r' = getClientHello r" "allowCORS r' = allowCORS r"
    by (simp_all add: tls_only_def getClientHello_def socket_is_tls_def allowCORS_def fun_eq_iff)
  show "proxy_reject opts sv r' = proxy_reject opts sv r" "misdirected r' = misdirected r"
      "request_url_base r' = request_url_base r" "host_guard opts sv r' base u = host_guard opts sv r base u"
      "run_endpoints r' u prefix = run_endpoints r u prefix"
    unfolding proxy_reject_def misdirected_def request_url_base_def host_guard_def run_endpoints_def fields tls by (rule refl)+
qed

lemma decide_captured [simp]:
  "decide opts sv (r\<lparr>request.receivedData := c, request.pipelining := p\<rparr>) = decide opts sv r"
  unfolding decide_def guards_captured by simp

lemma digits_valid: "valid_header_value (nat_str n)"
proof -
  have "let m = (of_char c :: nat) in m = 9 \<or> 32 \<le> m \<and> m \<le> 126 \<or> 128 \<le> m \<and> m \<le> 195" if "c \<in> set (nat_str n)" for c
    using nat_str_digits [OF that] by (simp add: is_digit_def)
  then show ?thesis by (simp add: valid_header_value_def list_all_iff)
qed

lemma echo_answer:
  assumes "\<not> is_h2 r" and "decide opts sv r = RunChain [] [(echo, p)] q KeepCapture"
    and "\<not> request.pipelining r" and "request.receivedData r = Some ds"
  shows "res_body (serve opts sv r) = [Raw (concat ds)] \<and>
    res_head (serve opts sv r) = Some (200, [(''Content-Length'', nat_str (length (concat ds)))])"
proof -
  have "valid_headers [(''Content-Length'', nat_str (length (concat ds)))]"
    using digits_valid by (simp add: valid_headers_def valid_header_name_def is_token_char_def)
  then show ?thesis
    using assms
    by (simp add: serve_def handleRequest_def echo_def echo_handle_def new_response_def http1_catch_def write_head_def
        status_ok_def to_int32_def implicit_head_def Let_def del: length_concat)
qed

definition left_over :: "exchange list \<Rightarrow> bytes list" where
  "left_over xs = (if xs = [] then [] else ex_after (last xs))"

lemma exchanges_captured: "snd (run_exchanges opts sv xs (Some [])) = Some (left_over xs)"
proof -
  have "snd (run_exchanges opts sv xs c) = (if xs = [] then c else Some (ex_after (last xs)))" for c
    by (induction xs arbitrary: c) (simp_all add: run_exchange_def on_data_def case_prod_unfold)
  then show ?thesis by (simp add: left_over_def)
qed

text \<open>
  C26: On a connection that carries one HTTP/1 request after another, whatever the earlier requests were, \<open>/echo\<close>
  answers the bytes that arrived for its request, in order and in full, preceded by nothing
  but what arrived of the previous request after its handler had finished.
\<close>

theorem echo_answers_request:
  assumes "decide opts sv (ex_request x) = RunChain [] [(echo, p)] q KeepCapture" and "\<not> is_h2 (ex_request x)"
    and "run_exchange opts sv x (snd (run_exchanges opts sv earlier (Some []))) = (res, captured)"
  shows "res_body res = [Raw (concat (left_over earlier) @ concat (ex_before x) @ concat (ex_during x))]"
  using echo_answer [of "(ex_request x)\<lparr>request.receivedData := Some (left_over earlier @ ex_before x @ ex_during x),
      request.pipelining := False\<rparr>" opts sv p q] assms
  by (auto simp: run_exchange_def exchanges_captured on_data_def decision_capture_def Let_def)

theorem echo_answers_request_witness:
  "\<exists>res captured opts. run_exchange opts sample_services
      \<lparr>ex_request = sample_request ''/echo'' [], ex_before = [[71, 69]], ex_during = [[84]], ex_after = []\<rparr>
      (snd (run_exchanges opts sample_services
        [\<lparr>ex_request = sample_request ''/status/200'' [], ex_before = [[1]], ex_during = [[2]], ex_after = [[3]]\<rparr>] (Some []))) =
      (res, captured) \<and> res_body res = [Raw [3, 71, 69, 84]]"
proof -
  let ?opts = "\<lparr>acmeChallengeCallback = (\<lambda>_. None), rootDomain = ''localhost'', usingPublicCA = False\<rparr>"
  let ?x = "\<lparr>ex_request = sample_request ''/echo'' [], ex_before = [[71, 69]], ex_during = [[84]], ex_after = []\<rparr>"
  let ?earlier = "[\<lparr>ex_request = sample_request ''/status/200'' [], ex_before = [[1]], ex_during = [[2]], ex_after = [[3]]\<rparr>]"
  have "decide ?opts sample_services (sample_request ''/echo'' []) = RunChain [] [(echo, ''/echo'')] [] KeepCapture"
  proof -
    have pre: "hostnamePrefix ''localhost'' ''localhost'' = Some []" by code_simp
    have "newURL sample_services ''/echo'' base = Some \<lparr>pathname = ''/echo'', hostname = ''localhost'', searchParams = []\<rparr>" for base
      unfolding sample_services_def services.simps by (simp, code_simp)
    moreover have "find_endpoint httpEndpoints ''/echo'' (Some []) = Inr (Some echo)"
      by (rule http_find) (simp_all add: httpEndpoints_def echo_def)
    then have "resolveEndpointChain httpEndpoints ''/echo'' (Some []) = Inr [(echo, ''/echo'')]"
      by (simp add: resolveEndpointChain_def chain_loop.simps present_def echo_def)
    ultimately show ?thesis
      by (simp add: decide_def proxy_reject_def misdirected_def acme_challenge_def host_guard_def docs_page_def run_endpoints_def
          allowCORS_def sample_request_def header_set_def header_def present_def pre echo_def)
  qed
  then have chain: "decide ?opts sample_services (ex_request ?x) = RunChain [] [(echo, ''/echo'')] [] KeepCapture" by simp
  obtain res captured where run: "run_exchange ?opts sample_services ?x (snd (run_exchanges ?opts sample_services ?earlier (Some []))) = (res, captured)"
    by (metis surj_pair)
  have "\<not> is_h2 (ex_request ?x)" by (simp add: sample_request_def)
  from echo_answers_request [OF chain this run] have "res_body res = [Raw [3, 71, 69, 84]]"
    by (simp add: left_over_def)
  then show ?thesis using run by blast
qed

end
