(* ===== verification/Spec2Isabelle.thy ===== *)
theory Spec2Isabelle
  imports Connection Frame_Capture Proxy_Protocol Endpoint_Config Endpoint_Chain
    Ws_Handler Http_Liveness Http_Results Cert_Definitions Secure_Context_Cache
    Cert_Cache Ca_Fleet Local_Ca_Laws Tls_Handler Revocation Docs_Page Capture_Stream Ocsp
    Tcp_Handler Tcp_Server Raw_Capture
begin

text \<open>
  The HTTP Toolkit test server, a Node program in TypeScript: one TCP port on which it tells
  TLS, HTTP/2 and HTTP/1 apart, host names whose parts select TLS behaviour, and URL paths that
  select (and chain) test endpoints. The sources are under \<^verbatim>\<open>src/src/\<close>; this library
  models them theory by theory.

  \<^bold>\<open>A connection\<close> enters through \<^verbatim>\<open>process-connection.ts\<close> (\<open>Connection\<close>): an optional PROXY
  protocol header is read (\<open>Proxy_Protocol\<close>, \<^verbatim>\<open>proxy-protocol.ts\<close>), then the first bytes decide
  between the TLS handler, the HTTP/2 server and the HTTP/1 server. HTTP/2 connections go through
  a capturing stream (\<open>Capture_Stream\<close>, the Duplex with its reads, writes and ends) that splits the incoming bytes
  into frames (\<open>Frame_Capture\<close>). \<open>Tcp_Handler\<close> composes these steps from an accepted socket, through any number of TLS
  layers, to the socket a request handler sees (\<^verbatim>\<open>server.ts\<close>, \<^verbatim>\<open>tls-handler.ts\<close>), and \<open>Tcp_Server\<close> the
  server around them: its wiring (\<open>createTcpHandler\<close>), the proactive certificates and the counters of
  \<^verbatim>\<open>metrics.ts\<close>. \<open>Raw_Capture\<close> is the raw request data of HTTP/1 connections, over the requests of a connection.

  \<^bold>\<open>A host name\<close> is split into endpoint parts, whose certificate, TLS and ALPN options are
  merged: \<open>Tls_Endpoints\<close> (\<^verbatim>\<open>endpoints/tls/*.ts\<close>), \<open>Tls_Merge\<close> (\<^verbatim>\<open>tls-merge.ts\<close>) and
  \<open>Endpoint_Config\<close> (\<^verbatim>\<open>endpoint-config.ts\<close>); \<open>Endpoint_Meta\<close> holds the documentation groups.

  \<^bold>\<open>A path\<close> is resolved to a chain of endpoints (\<open>Endpoint_Chain\<close>, \<^verbatim>\<open>endpoint-chain.ts\<close>), over
  the HTTP list (\<open>Http_Endpoints\<close>; the endpoints are in \<open>Http_Inspection\<close>, \<open>Http_Dynamic\<close> and
  \<open>Http_Responses\<close>, with the fixed documents in \<open>Http_Content\<close>) or the WebSocket list
  (\<open>Ws_Endpoints\<close>). The request handlers around them are \<open>Http_Handler\<close> (\<^verbatim>\<open>http-handler.ts\<close>) and
  \<open>Ws_Handler\<close> (\<^verbatim>\<open>ws-handler.ts\<close>); \<open>Httpbin_Compat\<close> is \<^verbatim>\<open>httpbin-compat.ts\<close>.

  \<^bold>\<open>A certificate\<close> comes from \<open>Server\<close> (\<^verbatim>\<open>server.ts\<close>), which reads the environment and the options, chooses a store and decides
  between the local CA and ACME. \<open>Cert_Definitions\<close> holds the cache keys (\<^verbatim>\<open>tls-certificates/cert-definitions.ts\<close>);
  \<open>Cert_Store\<close> the stores in a directory and in an S3 bucket (\<^verbatim>\<open>fs-cert-store.ts\<close>, \<^verbatim>\<open>s3-cert-store.ts\<close>, with
  \<open>JSON.parse\<close> in \<open>Json_Parse\<close>) and \<open>Cert_Cache\<close> the cache in front of one (\<^verbatim>\<open>cert-cache.ts\<close>); \<open>Persisted_Ca\<close>,
  \<open>Ca_Fleet\<close>, \<open>Local_Ca\<close> and \<open>Local_Ca_Laws\<close> the local CA (\<^verbatim>\<open>local-ca.ts\<close>) and \<open>Ocsp\<close> its OCSP responses (\<^verbatim>\<open>ocsp.ts\<close>);
  \<open>Acme_Request\<close> and \<open>Acme\<close> the ACME CA (\<^verbatim>\<open>acme.ts\<close>), whose DNS challenges \<open>Dns_Server\<close> answers
  (\<^verbatim>\<open>dns-server.ts\<close>, \<^verbatim>\<open>s3-challenge-store.ts\<close>). \<open>Tls_Handler\<close> (\<^verbatim>\<open>tls-handler.ts\<close>) puts a host name, its
  certificate and the context cache of \<open>Secure_Context_Cache\<close> (\<^verbatim>\<open>secure-context-cache.ts\<close>) together; \<open>Revocation\<close>
  follows a host name from there to what OCSP says of its certificate. The certificates for download
  (\<^verbatim>\<open>endpoints/http/tls-certs.ts\<close>) and the promises kept of them are in \<open>Server\<close> too.

  \<^bold>\<open>The documentation\<close>: \<open>Docs_Page\<close> (\<^verbatim>\<open>docs-page.ts\<close>) is the page built from the metadata of all endpoints,
  with its fixed text in \<open>Docs_Content\<close>.

  \<^bold>\<open>JavaScript\<close>: \<open>Prelude\<close> (exceptions, string methods, buffers), \<open>Js_Number\<close> (\<open>parseInt\<close> and
  printing), \<open>Js_Uri\<close> (\<open>decodeURIComponent\<close>, \<open>parseFloat\<close>, query parameters), \<open>Json\<close> (\<open>JSON.stringify\<close>)
  and \<open>Base64\<close>. Strings are lists of 8-bit characters, text outside ASCII in its UTF-8 encoding;
  a caught exception is the \<open>Inl\<close> of a sum; \<open>undefined\<close> is \<open>None\<close>; \<open>NaN\<close> is \<open>None\<close> for integers.

  \<^bold>\<open>Effects\<close>: a handler is a function from the request to the list of operations it performs on
  the response, and \<open>exec\<close> is what Node does for each, with its checks (\<open>Http_Base\<close>). The
  connection, the capture, the servers that share a store and the ACME CA are states with a step per event, so
  that awaits may resume in any order: the cache check, the read and the assignment of \<open>fetchCert\<close> are three steps,
  a query reads its listing and each record at moments of their own, and the reaper reads and deletes apart.
  A WebSocket is a state with a log. Code that only awaits library calls in
  sequence is a function from the state to a result and a new state; this holds of \<open>generateCertificate\<close> of the
  local CA, whose awaits are key generation, signing and the intermediate that is made once. Time is a number of milliseconds.

  \<^bold>\<open>Loops\<close> of the code that consume input are functions with a termination measure. \<open>JSON.parse\<close> runs on
  fuel, more than twice the length of the text, and a parse with any fuel is the parse with that (\<open>json_fuel\<close>);
  \<open>promise_value\<close> follows promises at most as often as there are attempts, since each follows a later or a
  pending one. The eviction loop of the context cache may run forever and is a partial function, with a theorem that
  says when it returns.

  \<^bold>\<open>Interfaces\<close>: \<open>chainable\<close> (\<open>Endpoint_Chain\<close>) is what an endpoint list must promise for its chains
  to use up the path; the HTTP and the WebSocket lists interpret it. \<open>handler_ok\<close> (\<open>Http_Liveness\<close>) is
  what the request handler relies on from each endpoint. \<open>cert_store\<close> (\<open>Cert_Store\<close>) is what the cache relies on
  from a store; the directory interprets it, and \<open>s3_store\<close> shows it of a bucket that keeps its laws. Of a request
  that is reported as failed the laws say only that it was performed or not.

  \<^bold>\<open>Bounds\<close>: paths resolve to at most eleven entries; host names have at most four parts; a pending
  PROXY header holds at most 512 bytes; a request waits at most eleven times ten seconds; a context is kept for
  at most a day, and a temporary one for five seconds.

  \<^bold>\<open>Parameters\<close>: the record \<open>services\<close> holds what is not in the repository or not deterministic (the
  URL parser, digests, compression, random values, the cookie and multipart packages, the
  certificate downloads); \<open>ws_close\<close> says which close codes the \<open>ws\<close> package sends; \<open>s3_client\<close> (with \<open>s3_laws\<close>
  and \<open>s3_listing\<close>) is the S3 client, \<open>acme_client\<close> the ACME client, \<open>x509_lib\<close> the certificate generator, \<open>asn1_lib\<close> the DER encoder,
  \<open>tls_lib\<close> Node's contexts; \<open>hash\<close> is SHA-256 and \<open>collate\<close> the order of \<open>localeCompare\<close>.

  \<^bold>\<open>Properties\<close> are the theorems marked C1, C2 and so on, the most important first. \<open>Proxy_Protocol\<close>: round trips of
  PROXY headers. \<open>Connection\<close>: protocol detection however the bytes are split. \<open>Frame_Capture\<close>: independence from segmentation
  and what callbacks see; \<open>Capture_Stream\<close>: when it is a pipe. \<open>Tcp_Handler\<close>, \<open>Tcp_Server\<close>: the client address and
  the server name behind TLS layers. \<open>Raw_Capture\<close>: what \<open>/echo\<close> answers. \<open>Endpoint_Config\<close>: validity and meaning of host names. \<open>Endpoint_Chain\<close>: resolution of
  paths. \<open>Ws_Handler\<close>: conversations. \<open>Http_Handler\<close>, \<open>Http_Guards\<close>, \<open>Http_Liveness\<close>: who answers, redirects, errors, and exactly which
  requests are never answered. \<open>Http_Results\<close>: particular endpoints. \<open>Cert_Cache\<close>, \<open>Ca_Fleet\<close>: what servers that share a
  store see. \<open>Local_Ca_Laws\<close>: issued certificates; \<open>Revocation\<close>, \<open>Ocsp\<close>: which hosts OCSP calls revoked, and serial numbers. \<open>Dns_Server\<close>, \<open>Acme_Request\<close>, \<open>Acme\<close>: which servers answer a pending challenge, that
  it is withdrawn, and every promise settles. \<open>Server\<close>, \<open>Tls_Handler\<close>: the source of a certificate, and which connections share a
  context. \<open>Docs_Page\<close>: every endpoint is documented.

  \<^bold>\<open>Not modelled\<close>: the bytes of the TLS handshake, of X.509 and OCSP structures and of DNS messages, which libraries
  encode; opening ports and the UDP socket; log lines; the histograms, process figures and HTTP exporter of the
  metrics (the counters are in \<open>Tcp_Server\<close>); and the byte codecs of WebSocket frames and HTTP messages, which Node and
  \<open>ws\<close> implement.
\<close>

end
